theory Spec2Isabelle
  imports Complex_Main "HOL-Library.AList"
begin

section \<open>JavaScript values\<close>

text \<open>
  The merge engine is written in TypeScript and handles spreadsheet cells and record-store
  payloads typed \<^verbatim>\<open>any\<close>. They are modelled by a JSON-like datatype. An object is
  an association list in insertion order, read with \<open>map_of\<close>; only own properties are
  modelled (no functions, no symbols). A read of a name that is not an own property yields
  \<^verbatim>\<open>undefined\<close>: the members that an engine would find on
  \<^verbatim>\<open>Object.prototype\<close> are not part of the model.

  A finite number is represented by the exact rational it denotes. Rounding to the nearest
  double and the sign of zero are not modelled; overflow to an infinity is.
\<close>

datatype jsnum = Fin rat | NaN | PosInf | NegInf

datatype jsval =
    JUndefined
  | JNull
  | JBool bool
  | JNum jsnum
  | JStr string
  | JArr "jsval list"
  | JObj "(string \<times> jsval) list"

datatype js_error = TypeError

text \<open>
  Two built-ins of the host engine are not determined by the language standard on all
  inputs, or depend on the double representation: printing a number that is not a small
  integer, and \<^verbatim>\<open>new Date(value)\<close>. They are parameters of the model. \<open>dateISO\<close>
  is \<open>None\<close> when \<^verbatim>\<open>isNaN(d.getTime())\<close>, and otherwise the first ten characters of
  \<^verbatim>\<open>d.toISOString()\<close>.
\<close>

record engine =
  numStr :: "rat \<Rightarrow> string"
  dateISO :: "jsval \<Rightarrow> string option"

subsection \<open>Strings\<close>

text \<open>
  Characters are code units below 256. \<^verbatim>\<open>String.prototype.trim\<close> and the regular
  expression class \<^verbatim>\<open>\s\<close> remove the same set: tab, line feed, vertical tab, form feed,
  carriage return, space and no-break space (the Unicode spaces above 255 have no
  counterpart here).
\<close>

definition isWhiteSpace :: "char \<Rightarrow> bool" where
  "isWhiteSpace c \<longleftrightarrow> c \<in> set [CHR 0x09, CHR 0x0A, CHR 0x0B, CHR 0x0C, CHR 0x0D, CHR '' '', CHR 0xA0]"

definition jsTrim :: "string \<Rightarrow> string" where
  "jsTrim s = rev (dropWhile isWhiteSpace (rev (dropWhile isWhiteSpace s)))"

definition isDigit :: "char \<Rightarrow> bool" where
  "isDigit c \<longleftrightarrow> 48 \<le> (of_char c :: nat) \<and> (of_char c :: nat) \<le> 57"

definition digitVal :: "char \<Rightarrow> nat" where
  "digitVal c = (of_char c :: nat) - 48"

definition digitsVal :: "string \<Rightarrow> nat" where
  "digitsVal s = foldl (\<lambda>n c. 10 * n + digitVal c) 0 s"

definition digitChar :: "nat \<Rightarrow> char" where
  "digitChar d = char_of (48 + d)"

fun showNat :: "nat \<Rightarrow> string" where
  "showNat n = (if n < 10 then [digitChar n] else showNat (n div 10) @ [digitChar (n mod 10)])"

declare showNat.simps [simp del]

fun intercalate :: "'a list \<Rightarrow> 'a list list \<Rightarrow> 'a list" where
  "intercalate sep [] = []"
| "intercalate sep [x] = x"
| "intercalate sep (x # y # ys) = x @ sep @ intercalate sep (y # ys)"

subsection \<open>Numbers\<close>

text \<open>A result at or beyond \<open>2^1024 - 2^970\<close> in magnitude rounds to an infinity.\<close>

definition mkNum :: "rat \<Rightarrow> jsnum" where
  "mkNum q = (if q \<ge> 2 ^ 1024 - 2 ^ 970 then PosInf
              else if q \<le> - (2 ^ 1024 - 2 ^ 970) then NegInf
              else Fin q)"

definition isFinite :: "jsnum \<Rightarrow> bool" where
  "isFinite n = (case n of Fin _ \<Rightarrow> True | _ \<Rightarrow> False)"

definition negNum :: "jsnum \<Rightarrow> jsnum" where
  "negNum n = (case n of Fin q \<Rightarrow> Fin (- q) | NaN \<Rightarrow> NaN | PosInf \<Rightarrow> NegInf | NegInf \<Rightarrow> PosInf)"

definition numToString :: "engine \<Rightarrow> jsnum \<Rightarrow> string" where
  "numToString eng n =
     (case n of
        NaN \<Rightarrow> ''NaN''
      | PosInf \<Rightarrow> ''Infinity''
      | NegInf \<Rightarrow> ''-Infinity''
      | Fin q \<Rightarrow>
          if q = of_int \<lfloor>q\<rfloor> \<and> \<bar>q\<bar> < 10 ^ 21
          then (if q < 0 then ''-'' else '''') @ showNat (nat \<bar>\<lfloor>q\<rfloor>\<bar>)
          else numStr eng q)"

text \<open>
  \<^verbatim>\<open>Number(s)\<close> on a string: the StringNumericLiteral grammar. The string is trimmed;
  the empty string is 0; otherwise an optionally signed \<^verbatim>\<open>Infinity\<close> or decimal literal
  (digits, optional fraction, optional exponent), or an unsigned binary, octal or
  hexadecimal integer; anything else is NaN.
\<close>

definition hexVal :: "char \<Rightarrow> nat option" where
  "hexVal c =
     (let n = (of_char c :: nat) in
      if 48 \<le> n \<and> n \<le> 57 then Some (n - 48)
      else if 97 \<le> n \<and> n \<le> 102 then Some (n - 87)
      else if 65 \<le> n \<and> n \<le> 70 then Some (n - 55)
      else None)"

definition radixVal :: "nat \<Rightarrow> string \<Rightarrow> nat option" where
  "radixVal b s =
     (if s \<noteq> [] \<and> list_all (\<lambda>c. case hexVal c of Some d \<Rightarrow> d < b | None \<Rightarrow> False) s
      then Some (foldl (\<lambda>n c. b * n + the (hexVal c)) 0 s)
      else None)"

definition parseExponent :: "string \<Rightarrow> int option" where
  "parseExponent s =
     (case s of
        [] \<Rightarrow> Some 0
      | c # r \<Rightarrow>
          if c = CHR ''e'' \<or> c = CHR ''E'' then
            (let (neg, ds) =
               (case r of
                  [] \<Rightarrow> (False, r)
                | d # r' \<Rightarrow> if d = CHR ''-'' then (True, r')
                            else if d = CHR ''+'' then (False, r') else (False, r))
             in if ds \<noteq> [] \<and> list_all isDigit ds
                then Some (if neg then - int (digitsVal ds) else int (digitsVal ds))
                else None)
          else None)"

definition pow10 :: "int \<Rightarrow> rat" where
  "pow10 e = (if e \<ge> 0 then 10 ^ nat e else 1 / 10 ^ nat (- e))"

definition parseUnsignedDecimal :: "string \<Rightarrow> jsnum" where
  "parseUnsignedDecimal s =
     (if s = ''Infinity'' then PosInf
      else
        let ip = takeWhile isDigit s;
            r1 = dropWhile isDigit s;
            fp = (case r1 of [] \<Rightarrow> [] | c # r \<Rightarrow> if c = CHR ''.'' then takeWhile isDigit r else []);
            r2 = (case r1 of [] \<Rightarrow> [] | c # r \<Rightarrow> if c = CHR ''.'' then dropWhile isDigit r else r1)
        in if ip = [] \<and> fp = [] then NaN
           else (case parseExponent r2 of
                   None \<Rightarrow> NaN
                 | Some e \<Rightarrow>
                     mkNum ((of_nat (digitsVal ip) + of_nat (digitsVal fp) / 10 ^ length fp)
                            * pow10 e)))"

definition parseNonDecimal :: "string \<Rightarrow> jsnum option" where
  "parseNonDecimal s =
     (case s of
        z # x # r \<Rightarrow>
          if z = CHR ''0'' then
            (let b = (if x = CHR ''x'' \<or> x = CHR ''X'' then Some (16 :: nat)
                      else if x = CHR ''o'' \<or> x = CHR ''O'' then Some 8
                      else if x = CHR ''b'' \<or> x = CHR ''B'' then Some 2
                      else None)
             in case b of
                  None \<Rightarrow> None
                | Some b' \<Rightarrow> Some (case radixVal b' r of None \<Rightarrow> NaN | Some n \<Rightarrow> mkNum (of_nat n)))
          else None
      | _ \<Rightarrow> None)"

definition stringToNumber :: "string \<Rightarrow> jsnum" where
  "stringToNumber s =
     (let t = jsTrim s in
      if t = [] then Fin 0
      else (case parseNonDecimal t of
              Some n \<Rightarrow> n
            | None \<Rightarrow>
                (case t of
                   [] \<Rightarrow> Fin 0
                 | c # r \<Rightarrow>
                     if c = CHR ''-'' then negNum (parseUnsignedDecimal r)
                     else if c = CHR ''+'' then parseUnsignedDecimal r
                     else parseUnsignedDecimal t)))"

subsection \<open>Conversions and property access\<close>

text \<open>Truthiness, as tested by \<^verbatim>\<open>!x\<close>, \<^verbatim>\<open>x && y\<close> and \<^verbatim>\<open>filter(Boolean)\<close>.\<close>

fun truthy :: "jsval \<Rightarrow> bool" where
  "truthy JUndefined = False"
| "truthy JNull = False"
| "truthy (JBool b) = b"
| "truthy (JNum n) = (n \<noteq> NaN \<and> n \<noteq> Fin 0)"
| "truthy (JStr s) = (s \<noteq> [])"
| "truthy (JArr _) = True"
| "truthy (JObj _) = True"

text \<open>\<^verbatim>\<open>x == null\<close>, also the test of \<^verbatim>\<open>??\<close> and \<^verbatim>\<open>?.\<close>.\<close>

fun nullish :: "jsval \<Rightarrow> bool" where
  "nullish JUndefined = True"
| "nullish JNull = True"
| "nullish _ = False"

definition orElse :: "jsval \<Rightarrow> jsval \<Rightarrow> jsval" where
  "orElse x d = (if nullish x then d else x)"

text \<open>
  \<^verbatim>\<open>String(value)\<close>. An array prints its elements joined by commas, with
  \<^verbatim>\<open>null\<close> and \<^verbatim>\<open>undefined\<close> elements printed as the empty string; a plain object
  prints as \<^verbatim>\<open>[object Object]\<close>.
\<close>

fun jsString :: "engine \<Rightarrow> jsval \<Rightarrow> string" where
  "jsString eng JUndefined = ''undefined''"
| "jsString eng JNull = ''null''"
| "jsString eng (JBool b) = (if b then ''true'' else ''false'')"
| "jsString eng (JNum n) = numToString eng n"
| "jsString eng (JStr s) = s"
| "jsString eng (JArr xs) =
     intercalate '','' (map (\<lambda>x. if nullish x then [] else jsString eng x) xs)"
| "jsString eng (JObj kvs) = ''[object Object]''"

text \<open>\<^verbatim>\<open>Array.prototype.join(sep)\<close>.\<close>

definition jsJoin :: "engine \<Rightarrow> string \<Rightarrow> jsval list \<Rightarrow> string" where
  "jsJoin eng sep xs = intercalate sep (map (\<lambda>x. if nullish x then [] else jsString eng x) xs)"

text \<open>\<^verbatim>\<open>Number(value)\<close>.\<close>

fun jsNumber :: "engine \<Rightarrow> jsval \<Rightarrow> jsnum" where
  "jsNumber eng JUndefined = NaN"
| "jsNumber eng JNull = Fin 0"
| "jsNumber eng (JBool b) = (if b then Fin 1 else Fin 0)"
| "jsNumber eng (JNum n) = n"
| "jsNumber eng (JStr s) = stringToNumber s"
| "jsNumber eng (JArr xs) = stringToNumber (jsString eng (JArr xs))"
| "jsNumber eng (JObj kvs) = NaN"

text \<open>
  Property read \<^verbatim>\<open>o?.[k]\<close>: \<^verbatim>\<open>undefined\<close> on \<^verbatim>\<open>null\<close> and \<^verbatim>\<open>undefined\<close>.
  Every plain read \<^verbatim>\<open>o.k\<close> and \<^verbatim>\<open>o[k]\<close> of the modelled functions has a receiver that
  an earlier test has shown not to be nullish, so this one function serves for both.
  An array or a string answers to a canonical index and to \<^verbatim>\<open>length\<close>.
\<close>

definition arrayIndex :: "string \<Rightarrow> nat option" where
  "arrayIndex k =
     (if k \<noteq> [] \<and> list_all isDigit k \<and> (k = ''0'' \<or> hd k \<noteq> CHR ''0'')
      then Some (digitsVal k) else None)"

fun js_get :: "jsval \<Rightarrow> string \<Rightarrow> jsval" where
  "js_get (JObj kvs) k = (case map_of kvs k of Some v \<Rightarrow> v | None \<Rightarrow> JUndefined)"
| "js_get (JArr xs) k =
     (case arrayIndex k of
        Some i \<Rightarrow> if i < length xs then xs ! i else JUndefined
      | None \<Rightarrow> if k = ''length'' then JNum (Fin (of_nat (length xs))) else JUndefined)"
| "js_get (JStr s) k =
     (case arrayIndex k of
        Some i \<Rightarrow> if i < length s then JStr [s ! i] else JUndefined
      | None \<Rightarrow> if k = ''length'' then JNum (Fin (of_nat (length s))) else JUndefined)"
| "js_get _ k = JUndefined"

text \<open>
  Assignment \<^verbatim>\<open>o[k] = v\<close> to a plain object, on its own properties: an existing
  key keeps its position and a new key comes last. The key \<^verbatim>\<open>__proto__\<close> is the
  exception. Unless the object has an own property of that name, the assignment reaches
  the accessor of \<^verbatim>\<open>Object.prototype\<close>, which replaces the prototype of the object
  (when the value is an object) and adds no own property: \<^verbatim>\<open>Object.keys\<close>,
  \<^verbatim>\<open>Object.entries\<close> and the serialised object stay as they were. The prototype
  itself is not tracked.
\<close>

definition js_set :: "string \<Rightarrow> 'v \<Rightarrow> (string \<times> 'v) list \<Rightarrow> (string \<times> 'v) list" where
  "js_set k v obj =
     (if k = ''__proto__'' \<and> map_of obj k = None then obj else AList.update k v obj)"

text \<open>
  \<^verbatim>\<open>s.split(/[,;]\s*/)\<close>: a comma or semicolon and the white space after it separate
  two segments; \<open>cur\<close> is the segment read so far.
\<close>

function splitCsv :: "string \<Rightarrow> string \<Rightarrow> string list" where
  "splitCsv cur [] = [cur]"
| "splitCsv cur (c # cs) =
     (if c = CHR '','' \<or> c = CHR '';''
      then cur # splitCsv [] (dropWhile isWhiteSpace cs)
      else splitCsv (cur @ [c]) cs)"
  by pat_completeness auto
termination
  by (relation "measure (\<lambda>(cur, s). length s)")
     (auto simp: le_imp_less_Suc length_dropWhile_le)

section \<open>Value codec\<close>

text \<open>
  \<^verbatim>\<open>getNotionPropertyPlainValue(prop)\<close>, the same in both versions of the application
  (\<^verbatim>\<open>!!v\<close> and \<^verbatim>\<open>v\<close> test the same truthiness in the checkbox case). The only
  operation that can throw is \<^verbatim>\<open>.trim()\<close> on a \<^verbatim>\<open>plain_text\<close> that is neither
  nullish nor a string.
\<close>

definition getNotionPropertyPlainValue :: "engine \<Rightarrow> jsval \<Rightarrow> js_error + jsval" where
  "getNotionPropertyPlainValue eng prop =
     (if \<not> truthy prop then Inr JNull
      else
        let type = js_get prop ''type'';
            v = js_get prop (jsString eng type)
        in if nullish v then Inr JNull
           else if type = JStr ''title'' \<or> type = JStr ''rich_text'' then
             (case orElse (js_get (js_get v ''0'') ''plain_text'') (JStr []) of
                JStr s \<Rightarrow> Inr (JStr (jsTrim s))
              | _ \<Rightarrow> Inl TypeError)
           else if type = JStr ''number'' then
             Inr (case v of JNum n \<Rightarrow> v | _ \<Rightarrow> JNum (jsNumber eng v))
           else if type = JStr ''email'' \<or> type = JStr ''url'' \<or> type = JStr ''phone_number'' then
             Inr (orElse v JNull)
           else if type = JStr ''select'' then Inr (orElse (js_get v ''name'') JNull)
           else if type = JStr ''multi_select'' then
             Inr (case v of
                    JArr xs \<Rightarrow> JStr (jsJoin eng '', '' (filter truthy (map (\<lambda>x. js_get x ''name'') xs)))
                  | _ \<Rightarrow> JNull)
           else if type = JStr ''date'' then Inr (orElse (js_get v ''start'') JNull)
           else if type = JStr ''checkbox'' then Inr (JStr (if truthy v then ''true'' else ''false''))
           else if type = JStr ''status'' then Inr (orElse (js_get v ''name'') JNull)
           else Inr JNull)"

text \<open>
  \<^verbatim>\<open>buildNotionPropertyValue(targetType, value, { createMultiFromCSV })\<close>; the result
  \<open>JUndefined\<close> is the source's \<^verbatim>\<open>undefined\<close>. \<open>textRun s\<close> is the object
  \<^verbatim>\<open>{ type: "text", text: { content: s } }\<close> and \<open>nameObj s\<close> is \<^verbatim>\<open>{ name: s }\<close>.
\<close>

definition textRun :: "string \<Rightarrow> jsval" where
  "textRun s = JObj [(''type'', JStr ''text''), (''text'', JObj [(''content'', JStr s)])]"

definition nameObj :: "string \<Rightarrow> jsval" where
  "nameObj s = JObj [(''name'', JStr s)]"

definition truthyValues :: "jsval list" where
  "truthyValues = [JBool True, JStr ''true'', JStr ''1'', JNum (Fin 1), JStr ''yes'', JStr ''y'']"

definition falsyValues :: "jsval list" where
  "falsyValues = [JBool False, JStr ''false'', JStr ''0'', JNum (Fin 0), JStr ''no'', JStr ''n'', JStr []]"

definition buildNotionPropertyValue :: "engine \<Rightarrow> string \<Rightarrow> jsval \<Rightarrow> bool \<Rightarrow> jsval" where
  "buildNotionPropertyValue eng targetType val createMultiFromCSV =
     (if val = JUndefined \<or> val = JNull then JUndefined
      else if targetType = ''title'' then JObj [(''title'', JArr [textRun (jsString eng val)])]
      else if targetType = ''rich_text'' then JObj [(''rich_text'', JArr [textRun (jsString eng val)])]
      else if targetType = ''number'' then
        (let n = jsNumber eng val in if isFinite n then JObj [(''number'', JNum n)] else JUndefined)
      else if targetType = ''email'' then JObj [(''email'', JStr (jsString eng val))]
      else if targetType = ''url'' then JObj [(''url'', JStr (jsString eng val))]
      else if targetType = ''phone_number'' then JObj [(''phone_number'', JStr (jsString eng val))]
      else if targetType = ''select'' then
        JObj [(''select'', if val = JStr [] \<or> nullish val then JNull else nameObj (jsString eng val))]
      else if targetType = ''multi_select'' then
        (case val of
           JArr xs \<Rightarrow> JObj [(''multi_select'', JArr (map (\<lambda>x. nameObj (jsString eng x)) xs))]
         | JStr s \<Rightarrow>
             if createMultiFromCSV
             then JObj [(''multi_select'', JArr (map nameObj (filter (\<lambda>seg. seg \<noteq> []) (splitCsv [] s))))]
             else JObj [(''multi_select'', JArr [])]
         | _ \<Rightarrow> JObj [(''multi_select'', JArr [])])
      else if targetType = ''date'' then
        (case dateISO eng val of
           Some d \<Rightarrow> JObj [(''date'', JObj [(''start'', JStr d)])]
         | None \<Rightarrow> JUndefined)
      else if targetType = ''checkbox'' then
        (if val \<in> set truthyValues then JObj [(''checkbox'', JBool True)]
         else if val \<in> set falsyValues then JObj [(''checkbox'', JBool False)]
         else JUndefined)
      else if targetType = ''status'' then JObj [(''status'', nameObj (jsString eng val))]
      else JObj [(''rich_text'', JArr [textRun (jsString eng val)])])"

section \<open>Data model\<close>

text \<open>
  \<^verbatim>\<open>ExcelRow = Record<string, any>\<close> is an object; a page is an object with an
  \<^verbatim>\<open>id\<close> and a \<^verbatim>\<open>properties\<close> object (type \<^verbatim>\<open>NotionPage\<close> of the second
  version). \<^verbatim>\<open>Map<string, X>\<close> is an association list in insertion order:
  \<^verbatim>\<open>map.set\<close> is \<open>AList.update\<close> (an existing key keeps its position), \<^verbatim>\<open>map.get\<close>
  is \<open>map_of\<close>. \<^verbatim>\<open>Set<string>\<close> is a list in insertion order with \<open>set_add\<close>.
  The objects \<^verbatim>\<open>changes\<close> and \<^verbatim>\<open>updateProps\<close> are lists of own properties,
  written with \<open>js_set\<close>. (An engine lists the keys of an object that look like array
  indices first; no statement below depends on the order of two different keys of an
  object.)
\<close>

type_synonym ExcelRow = "(string \<times> jsval) list"

record NotionPage =
  page_id :: string
  properties :: "(string \<times> jsval) list"

datatype JoinType = JoinLeft | JoinRight | JoinInner | JoinOuter

record Mapping =
  mapping_id :: string
  excelColumn :: string
  notionProperty :: string

record NotionOption =
  opt_id :: "string option"
  opt_name :: string
  opt_color :: "string option"

record NotionPropertyDef =
  prop_name :: string
  prop_type :: string
  prop_options :: "NotionOption list option"

datatype Plan =
    PlanUpdate string ExcelRow NotionPage "(string \<times> jsval) list"
  | PlanCreate string ExcelRow "(string \<times> jsval) list"
  | PlanSkip string "ExcelRow option" "NotionPage option" string

fun plan_key :: "Plan \<Rightarrow> string" where
  "plan_key (PlanUpdate k excel page changes) = k"
| "plan_key (PlanCreate k excel changes) = k"
| "plan_key (PlanSkip k excel page reason) = k"

definition set_add :: "'a \<Rightarrow> 'a list \<Rightarrow> 'a list" where
  "set_add k ks = (if k \<in> set ks then ks else ks @ [k])"

section \<open>Key indexer\<close>



text \<open>
  \<^verbatim>\<open>notionIndex\<close>: the key of a page is the decoded key property, converted with
  \<^verbatim>\<open>String\<close> and trimmed, or the empty string when the decoded value is nullish. The
  decoder may throw, which ends the loop.
\<close>

definition notionKeyVal :: "engine \<Rightarrow> string \<Rightarrow> NotionPage \<Rightarrow> js_error + string" where
  "notionKeyVal eng notionKey pg =
     (case getNotionPropertyPlainValue eng (js_get (JObj (properties pg)) notionKey) of
        Inl e \<Rightarrow> Inl e
      | Inr plain \<Rightarrow> Inr (if \<not> nullish plain then jsTrim (jsString eng plain) else []))"

fun notionIndexLoop ::
  "engine \<Rightarrow> string \<Rightarrow> NotionPage list \<Rightarrow> (string \<times> NotionPage) list
     \<Rightarrow> js_error + (string \<times> NotionPage) list" where
  "notionIndexLoop eng notionKey [] m = Inr m"
| "notionIndexLoop eng notionKey (pg # pgs) m =
     (case notionKeyVal eng notionKey pg of
        Inl e \<Rightarrow> Inl e
      | Inr keyVal \<Rightarrow>
          notionIndexLoop eng notionKey pgs (if keyVal \<noteq> [] then AList.update keyVal pg m else m))"

definition notionIndex ::
  "engine \<Rightarrow> string \<Rightarrow> NotionPage list \<Rightarrow> js_error + (string \<times> NotionPage) list" where
  "notionIndex eng notionKey pages =
     (if notionKey = [] then Inr [] else notionIndexLoop eng notionKey pages [])"

section \<open>Join planner\<close>

text \<open>
  The first block of \<^verbatim>\<open>buildPlannedUpdates\<close>: \<open>leftKeys\<close> and \<open>rightKeys\<close> are
  \<^verbatim>\<open>new Set(index.keys())\<close>, and \<open>keys\<close> is filled according to the join type.
\<close>

definition newSet :: "'a list \<Rightarrow> 'a list" where
  "newSet xs = fold set_add xs []"

definition planKeys :: "JoinType \<Rightarrow> string list \<Rightarrow> string list \<Rightarrow> string list" where
  "planKeys joinType leftKeys rightKeys =
     (case joinType of
        JoinLeft \<Rightarrow> fold set_add leftKeys []
      | JoinRight \<Rightarrow> fold set_add rightKeys []
      | JoinInner \<Rightarrow> fold (\<lambda>k keys. if k \<in> set rightKeys then set_add k keys else keys) leftKeys []
      | JoinOuter \<Rightarrow> fold set_add rightKeys (fold set_add leftKeys []))"

text \<open>
  \<^verbatim>\<open>selectedDbPropDefs\<close> (first version): a map from property name to definition,
  filled in the order of \<^verbatim>\<open>dbProps\<close>. The second version searches \<^verbatim>\<open>dbProps\<close> with
  \<^verbatim>\<open>find\<close> instead.
\<close>

definition selectedDbPropDefs :: "NotionPropertyDef list \<Rightarrow> (string \<times> NotionPropertyDef) list" where
  "selectedDbPropDefs dbProps = fold (\<lambda>p m. AList.update (prop_name p) p m) dbProps []"

definition findDef :: "NotionPropertyDef list \<Rightarrow> string \<Rightarrow> NotionPropertyDef option" where
  "findDef dbProps nm = find (\<lambda>p. prop_name p = nm) dbProps"

definition typeOrRichText :: "NotionPropertyDef option \<Rightarrow> string" where
  "typeOrRichText targetDef = (case targetDef of Some d \<Rightarrow> prop_type d | None \<Rightarrow> ''rich_text'')"

text \<open>
  The loop over the mappings when both the row and the page are present, first version:
  a mapping counts only if its property is named and known to the schema.
\<close>

fun updateChanges ::
  "engine \<Rightarrow> (string \<times> NotionPropertyDef) list \<Rightarrow> bool \<Rightarrow> ExcelRow \<Rightarrow> NotionPage
     \<Rightarrow> Mapping list \<Rightarrow> (string \<times> jsval) list \<Rightarrow> js_error + (string \<times> jsval) list" where
  "updateChanges eng defs onlyUpdateEmpty excelRow page [] changes = Inr changes"
| "updateChanges eng defs onlyUpdateEmpty excelRow page (m # ms) changes =
     (let srcVal = js_get (JObj excelRow) (excelColumn m) in
      if notionProperty m \<noteq> [] \<and> map_of defs (notionProperty m) \<noteq> None then
        (case getNotionPropertyPlainValue eng (js_get (JObj (properties page)) (notionProperty m)) of
           Inl e \<Rightarrow> Inl e
         | Inr existingValue \<Rightarrow>
             if onlyUpdateEmpty \<and> existingValue \<noteq> JNull \<and> existingValue \<noteq> JStr []
             then updateChanges eng defs onlyUpdateEmpty excelRow page ms changes
             else
               (let built = buildNotionPropertyValue eng
                              (prop_type (the (map_of defs (notionProperty m)))) srcVal True
                in updateChanges eng defs onlyUpdateEmpty excelRow page ms
                     (if built \<noteq> JUndefined then js_set (notionProperty m) built changes
                      else changes)))
      else updateChanges eng defs onlyUpdateEmpty excelRow page ms changes)"

text \<open>Second version: an unknown property is written as \<^verbatim>\<open>rich_text\<close>.\<close>

fun updateChanges_v2 ::
  "engine \<Rightarrow> NotionPropertyDef list \<Rightarrow> bool \<Rightarrow> ExcelRow \<Rightarrow> NotionPage
     \<Rightarrow> Mapping list \<Rightarrow> (string \<times> jsval) list \<Rightarrow> js_error + (string \<times> jsval) list" where
  "updateChanges_v2 eng dbProps onlyUpdateEmpty excelRow page [] changes = Inr changes"
| "updateChanges_v2 eng dbProps onlyUpdateEmpty excelRow page (m # ms) changes =
     (let srcVal = js_get (JObj excelRow) (excelColumn m) in
      if notionProperty m \<noteq> [] then
        (let targetDef = findDef dbProps (notionProperty m) in
         case getNotionPropertyPlainValue eng (js_get (JObj (properties page)) (notionProperty m)) of
           Inl e \<Rightarrow> Inl e
         | Inr existingValue \<Rightarrow>
             if onlyUpdateEmpty \<and> existingValue \<noteq> JNull \<and> existingValue \<noteq> JStr []
             then updateChanges_v2 eng dbProps onlyUpdateEmpty excelRow page ms changes
             else
               (let built = buildNotionPropertyValue eng (typeOrRichText targetDef) srcVal True
                in updateChanges_v2 eng dbProps onlyUpdateEmpty excelRow page ms
                     (if built \<noteq> JUndefined then js_set (notionProperty m) built changes
                      else changes)))
      else updateChanges_v2 eng dbProps onlyUpdateEmpty excelRow page ms changes)"

text \<open>
  The loop over the mappings for a row without a page. Both versions run the same code;
  \<open>defOf\<close> is \<^verbatim>\<open>selectedDbPropDefs.get\<close> in the first and the \<^verbatim>\<open>find\<close> in the second.
\<close>

fun createChanges ::
  "engine \<Rightarrow> (string \<Rightarrow> NotionPropertyDef option) \<Rightarrow> ExcelRow
     \<Rightarrow> Mapping list \<Rightarrow> (string \<times> jsval) list \<Rightarrow> (string \<times> jsval) list" where
  "createChanges eng defOf excelRow [] changes = changes"
| "createChanges eng defOf excelRow (m # ms) changes =
     (if notionProperty m = [] then createChanges eng defOf excelRow ms changes
      else
        (let targetDef = defOf (notionProperty m);
             srcVal = js_get (JObj excelRow) (excelColumn m);
             built = buildNotionPropertyValue eng (typeOrRichText targetDef) srcVal True
         in createChanges eng defOf excelRow ms
              (if built \<noteq> JUndefined then js_set (notionProperty m) built changes
               else changes)))"

text \<open>
  The body of \<^verbatim>\<open>keys.forEach\<close>: the plans pushed for one key. A row and a page are
  objects, hence truthy, so \<^verbatim>\<open>excelRow && page\<close> tests that both lookups succeed.
\<close>

definition planForKey ::
  "(ExcelRow \<Rightarrow> NotionPage \<Rightarrow> js_error + (string \<times> jsval) list)
     \<Rightarrow> (ExcelRow \<Rightarrow> (string \<times> jsval) list)
     \<Rightarrow> (string \<times> ExcelRow) list \<Rightarrow> (string \<times> NotionPage) list
     \<Rightarrow> JoinType \<Rightarrow> bool \<Rightarrow> string \<Rightarrow> js_error + Plan list" where
  "planForKey upd crt excelIdx notionIdx joinType allowCreatePages key =
     (case (map_of excelIdx key, map_of notionIdx key) of
        (Some excelRow, Some page) \<Rightarrow>
          (case upd excelRow page of
             Inl e \<Rightarrow> Inl e
           | Inr changes \<Rightarrow>
               if length changes > 0 then Inr [PlanUpdate key excelRow page changes]
               else Inr [PlanSkip key (Some excelRow) (Some page) ''No changes computed''])
      | (Some excelRow, None) \<Rightarrow>
          if (joinType = JoinLeft \<or> joinType = JoinOuter) \<and> allowCreatePages
          then Inr [PlanCreate key excelRow (crt excelRow)]
          else Inr [PlanSkip key (Some excelRow) None ''No matching Notion page'']
      | (None, Some page) \<Rightarrow> Inr [PlanSkip key None (Some page) ''No matching Excel row'']
      | (None, None) \<Rightarrow> Inr [])"

fun plansLoop :: "(string \<Rightarrow> js_error + Plan list) \<Rightarrow> string list \<Rightarrow> Plan list \<Rightarrow> js_error + Plan list" where
  "plansLoop body [] plans = Inr plans"
| "plansLoop body (key # keys) plans =
     (case body key of
        Inl e \<Rightarrow> Inl e
      | Inr new \<Rightarrow> plansLoop body keys (plans @ new))"

definition buildPlannedUpdates ::
  "engine \<Rightarrow> (string \<times> ExcelRow) list \<Rightarrow> (string \<times> NotionPage) list \<Rightarrow> JoinType
     \<Rightarrow> Mapping list \<Rightarrow> NotionPropertyDef list \<Rightarrow> bool \<Rightarrow> bool \<Rightarrow> js_error + Plan list" where
  "buildPlannedUpdates eng excelIdx notionIdx joinType mappings dbProps onlyUpdateEmpty allowCreatePages =
     plansLoop
       (planForKey
          (\<lambda>excelRow page.
             updateChanges eng (selectedDbPropDefs dbProps) onlyUpdateEmpty excelRow page mappings [])
          (\<lambda>excelRow. createChanges eng (map_of (selectedDbPropDefs dbProps)) excelRow mappings [])
          excelIdx notionIdx joinType allowCreatePages)
       (planKeys joinType (newSet (map fst excelIdx)) (newSet (map fst notionIdx))) []"

definition buildPlannedUpdates_v2 ::
  "engine \<Rightarrow> (string \<times> ExcelRow) list \<Rightarrow> (string \<times> NotionPage) list \<Rightarrow> JoinType
     \<Rightarrow> Mapping list \<Rightarrow> NotionPropertyDef list \<Rightarrow> bool \<Rightarrow> bool \<Rightarrow> js_error + Plan list" where
  "buildPlannedUpdates_v2 eng excelIdx notionIdx joinType mappings dbProps onlyUpdateEmpty allowCreatePages =
     plansLoop
       (planForKey
          (\<lambda>excelRow page. updateChanges_v2 eng dbProps onlyUpdateEmpty excelRow page mappings [])
          (\<lambda>excelRow. createChanges eng (findDef dbProps) excelRow mappings [])
          excelIdx notionIdx joinType allowCreatePages)
       (planKeys joinType (newSet (map fst excelIdx)) (newSet (map fst notionIdx))) []"

section \<open>Option reconciler\<close>

text \<open>
  An entry of \<^verbatim>\<open>needed\<close> is a property definition and an option name. The record-store
  client is an interface: \<open>send\<close> answers a mutation with the new store or with the
  message of a rejection, \<open>query\<close> answers \<^verbatim>\<open>queryDatabase\<close>. The payload of a schema
  patch maps a property name to \<^verbatim>\<open>{ [prop.type]: { options } }\<close>.
\<close>

type_synonym Needed = "NotionPropertyDef \<times> string"

datatype Request =
    DatabasesUpdate "(string \<times> string \<times> NotionOption list) list"
  | PagesUpdate string "(string \<times> jsval) list"
  | PagesCreate "(string \<times> jsval) list"

record 's Client =
  send :: "'s \<Rightarrow> Request \<Rightarrow> string + 's"
  query :: "'s \<Rightarrow> string + NotionPage list"

datatype RunStatus = Idle | Running | Done | Error

datatype RunError = Thrown js_error | Rejected string

text \<open>
  The state of the component, with the record store behind the client and the requests
  issued so far. \<open>excelIdx\<close> and \<open>notionIdx\<close> are the two memoised indexes.
\<close>

record 's App =
  notionToken :: string
  databaseId :: string
  useMock :: bool
  dbProps :: "NotionPropertyDef list"
  pages :: "NotionPage list"
  excelIdx :: "(string \<times> ExcelRow) list"
  notionIdx :: "(string \<times> NotionPage) list"
  joinType :: JoinType
  mappings :: "Mapping list"
  onlyUpdateEmpty :: bool
  createMissingSelectOptions :: bool
  allowCreatePages :: bool
  dryRun :: "Plan list option"
  runStatus :: RunStatus
  progress :: int
  runError :: "RunError option"
  store :: 's
  sent :: "Request list"

type_synonym 's Outcome = "(RunError \<times> 's App) + 's App"

definition request :: "'s Client \<Rightarrow> Request \<Rightarrow> 's App \<Rightarrow> 's Outcome" where
  "request client req st =
     (let st' = st\<lparr>sent := sent st @ [req]\<rparr> in
      case send client (store st) req of
        Inl msg \<Rightarrow> Inl (Rejected msg, st')
      | Inr s' \<Rightarrow> Inr (st'\<lparr>store := s'\<rparr>))"

definition currentOptions :: "NotionPropertyDef option \<Rightarrow> NotionOption list" where
  "currentOptions def = (case def of Some d \<Rightarrow> (case prop_options d of Some os \<Rightarrow> os | None \<Rightarrow> []) | None \<Rightarrow> [])"

definition newOption :: "string \<Rightarrow> NotionOption" where
  "newOption nm = \<lparr>opt_id = None, opt_name = nm, opt_color = None\<rparr>"

text \<open>
  \<^verbatim>\<open>grouped\<close>: for each property name, the definition of the first entry with that name
  and the set of the names asked for, in the order of their first occurrence.
\<close>

definition groupNeeded :: "Needed list \<Rightarrow> (string \<times> NotionPropertyDef \<times> string list) list" where
  "groupNeeded needed =
     fold (\<lambda>n grouped.
             let g = (case map_of grouped (prop_name (fst n)) of
                        Some g' \<Rightarrow> g'
                      | None \<Rightarrow> (fst n, []))
             in AList.update (prop_name (fst n)) (fst g, set_add (snd n) (snd g)) grouped)
          needed []"

text \<open>The payload \<^verbatim>\<open>updateProps\<close> built by \<^verbatim>\<open>grouped.forEach\<close>.\<close>

definition buildUpdateProps ::
  "(string \<times> NotionPropertyDef \<times> string list) list \<Rightarrow> (string \<times> string \<times> NotionOption list) list" where
  "buildUpdateProps grouped =
     fold (\<lambda>g updateProps.
             let prop = fst (snd g);
                 names = snd (snd g);
                 existing = set (map opt_name (currentOptions (Some prop)));
                 toAdd = filter (\<lambda>nm. nm \<notin> existing) names
             in if length toAdd > 0
                then js_set (prop_name prop)
                       (prop_type prop, currentOptions (Some prop) @ map newOption toAdd) updateProps
                else updateProps)
          grouped []"

text \<open>\<^verbatim>\<open>ensureSelectOptions\<close>, first version.\<close>

definition ensureSelectOptions :: "'s Client \<Rightarrow> Needed list \<Rightarrow> 's App \<Rightarrow> 's Outcome" where
  "ensureSelectOptions client needed st =
     (if length needed = 0 then Inr st
      else
        let updateProps = buildUpdateProps (groupNeeded needed)
        in if length updateProps > 0 then request client (DatabasesUpdate updateProps) st
           else Inr st)"

text \<open>
  Second version. With the mock backend no request is made: the local schema
  \<^verbatim>\<open>dbProps\<close> receives the new option lists. Each \<^verbatim>\<open>setDbProps\<close> updater rewrites the
  entries of one property name; the list \<open>next\<close> is computed from the schema at the time
  of the call.
\<close>

definition groupNames :: "Needed list \<Rightarrow> (string \<times> string list) list" where
  "groupNames needed =
     fold (\<lambda>n byProp.
             let names = (case map_of byProp (prop_name (fst n)) of Some s \<Rightarrow> s | None \<Rightarrow> [])
             in AList.update (prop_name (fst n)) (set_add (snd n) names) byProp)
          needed []"

definition mockAddOptions ::
  "NotionPropertyDef list \<Rightarrow> (string \<times> string list) list \<Rightarrow> NotionPropertyDef list" where
  "mockAddOptions dbProps0 byProp =
     fold (\<lambda>g prev.
             let propName = fst g;
                 names = snd g;
                 def = findDef dbProps0 propName;
                 existing = set (map opt_name (currentOptions def));
                 toAdd = filter (\<lambda>nm. nm \<notin> existing) names;
                 next = currentOptions def @ map newOption toAdd
             in map (\<lambda>p. if prop_name p = propName then p\<lparr>prop_options := Some next\<rparr> else p) prev)
          byProp dbProps0"

definition ensureSelectOptions_v2 :: "'s Client \<Rightarrow> Needed list \<Rightarrow> 's App \<Rightarrow> 's Outcome" where
  "ensureSelectOptions_v2 client needed st =
     (if length needed = 0 then Inr st
      else if useMock st then Inr (st\<lparr>dbProps := mockAddOptions (dbProps st) (groupNames needed)\<rparr>)
      else
        let updatePayload = buildUpdateProps (groupNeeded needed)
        in if length updatePayload > 0 then request client (DatabasesUpdate updatePayload) st
           else Inr st)"

section \<open>Plan executor\<close>

text \<open>
  The option names referenced by the changes of a plan. \<^verbatim>\<open>needed\<close> is declared to hold
  strings: a name that is not a string has no place in it and is left out here (the
  encoder writes string names only).
\<close>

definition nameEntry :: "NotionPropertyDef \<Rightarrow> jsval \<Rightarrow> bool \<Rightarrow> Needed list" where
  "nameEntry def nm mustBeTruthy =
     (case nm of
        JStr s \<Rightarrow> if mustBeTruthy \<and> s = [] then [] else [(def, s)]
      | _ \<Rightarrow> [])"

definition neededOfChange :: "NotionPropertyDef \<Rightarrow> jsval \<Rightarrow> Needed list" where
  "neededOfChange def val =
     (if prop_type def = ''select'' then nameEntry def (js_get (js_get val ''select'') ''name'') True else [])
     @ (if prop_type def = ''multi_select'' then
          (case js_get val ''multi_select'' of
             JArr opts \<Rightarrow> concat (map (\<lambda>opt. nameEntry def (js_get opt ''name'') False) opts)
           | _ \<Rightarrow> [])
        else [])
     @ (if prop_type def = ''status'' then nameEntry def (js_get (js_get val ''status'') ''name'') True else [])"

definition neededOfPlan :: "(string \<Rightarrow> NotionPropertyDef option) \<Rightarrow> Plan \<Rightarrow> Needed list" where
  "neededOfPlan defOf plan =
     (let entries = (\<lambda>changes.
            concat (map (\<lambda>(propName, val).
                           case defOf propName of
                             None \<Rightarrow> []
                           | Some def \<Rightarrow> neededOfChange def val) changes))
      in case plan of
           PlanUpdate key excel page changes \<Rightarrow> entries changes
         | PlanCreate key excel changes \<Rightarrow> entries changes
         | PlanSkip key excel page reason \<Rightarrow> [])"

definition collectNeeded :: "(string \<Rightarrow> NotionPropertyDef option) \<Rightarrow> Plan list \<Rightarrow> Needed list" where
  "collectNeeded defOf plans = concat (map (neededOfPlan defOf) plans)"

text \<open>
  \<^verbatim>\<open>titlePropName\<close>, and the properties sent for a create plan: the title is filled
  from the key when the schema has a title property that the changes leave unset.
\<close>

definition titlePropName :: "NotionPropertyDef list \<Rightarrow> string option" where
  "titlePropName dps = map_option prop_name (find (\<lambda>p. prop_type p = ''title'') dps)"

definition createProperties ::
  "engine \<Rightarrow> string option \<Rightarrow> string \<Rightarrow> (string \<times> jsval) list \<Rightarrow> (string \<times> jsval) list" where
  "createProperties eng titleProp key changes =
     (case titleProp of
        None \<Rightarrow> changes
      | Some tp \<Rightarrow>
          if tp \<noteq> [] \<and> \<not> truthy (js_get (JObj changes) tp)
          then js_set tp (buildNotionPropertyValue eng ''title'' (JStr key) True) changes
          else changes)"

text \<open>
  The callback given to \<^verbatim>\<open>pMapSerial\<close>, with the local counter \<open>done\<close>:
  \<^verbatim>\<open>done += 1; setProgress(Math.round((done / plans.length) * 100))\<close>. The quotient is
  computed on rationals; when \<open>done\<close> is the number of plans it is exactly 1 for doubles as well.
\<close>

definition runPlan ::
  "engine \<Rightarrow> 's Client \<Rightarrow> string option \<Rightarrow> nat \<Rightarrow> Plan \<Rightarrow> nat \<times> 's App
     \<Rightarrow> (RunError \<times> nat \<times> 's App) + nat \<times> 's App" where
  "runPlan eng client titleProp planCount plan acc =
     (let done = fst acc; st = snd acc;
          dispatched =
            (case plan of
               PlanUpdate key excel page changes \<Rightarrow> request client (PagesUpdate (page_id page) changes) st
             | PlanCreate key excel changes \<Rightarrow>
                 request client (PagesCreate (createProperties eng titleProp key changes)) st
             | PlanSkip key excel page reason \<Rightarrow> Inr st)
      in case dispatched of
           Inl (err, st') \<Rightarrow> Inl (err, done, st')
         | Inr st' \<Rightarrow>
             Inr (done + 1,
                  st'\<lparr>progress := round ((of_nat (done + 1) / of_nat planCount) * (100 :: rat))\<rparr>))"

text \<open>
  \<^verbatim>\<open>pMapSerial\<close>: the items strictly one after the other; a rejection ends the loop.
  The pause between two items changes no state and is left out.
\<close>

fun pMapSerial :: "('a \<Rightarrow> 'b \<Rightarrow> 'e + 'b) \<Rightarrow> 'a list \<Rightarrow> 'b \<Rightarrow> 'e + 'b" where
  "pMapSerial fn [] acc = Inr acc"
| "pMapSerial fn (x # xs) acc =
     (case fn x acc of
        Inl e \<Rightarrow> Inl e
      | Inr acc' \<Rightarrow> pMapSerial fn xs acc')"

text \<open>The plans of the current state, as \<^verbatim>\<open>buildPlannedUpdates()\<close> computes them.\<close>

definition currentPlans :: "engine \<Rightarrow> 's App \<Rightarrow> js_error + Plan list" where
  "currentPlans eng st =
     buildPlannedUpdates eng (excelIdx st) (notionIdx st) (joinType st) (mappings st) (dbProps st)
       (onlyUpdateEmpty st) (allowCreatePages st)"

definition currentPlans_v2 :: "engine \<Rightarrow> 's App \<Rightarrow> js_error + Plan list" where
  "currentPlans_v2 eng st =
     buildPlannedUpdates_v2 eng (excelIdx st) (notionIdx st) (joinType st) (mappings st) (dbProps st)
       (onlyUpdateEmpty st) (allowCreatePages st)"

definition failRun :: "RunError \<Rightarrow> 's App \<Rightarrow> 's App" where
  "failRun err st = st\<lparr>runError := Some err, runStatus := Error\<rparr>"

text \<open>
  \<^verbatim>\<open>onExecute\<close>, first version. The result carries the final value of the local
  counter \<open>done\<close> beside the state.
\<close>

definition onExecute :: "engine \<Rightarrow> 's Client \<Rightarrow> 's App \<Rightarrow> nat \<times> 's App" where
  "onExecute eng client st0 =
     (if notionToken st0 = [] \<or> databaseId st0 = [] then (0, st0)
      else
        let st = st0\<lparr>runStatus := Running, runError := None, progress := 0\<rparr> in
        case (case dryRun st of Some ps \<Rightarrow> Inr ps | None \<Rightarrow> currentPlans eng st) of
          Inl e \<Rightarrow> (0, failRun (Thrown e) st)
        | Inr plans \<Rightarrow>
            (case (if createMissingSelectOptions st
                   then ensureSelectOptions client
                          (collectNeeded (map_of (selectedDbPropDefs (dbProps st))) plans) st
                   else Inr st) of
               Inl (err, st1) \<Rightarrow> (0, failRun err st1)
             | Inr st1 \<Rightarrow>
                 (case pMapSerial (runPlan eng client (titlePropName (dbProps st)) (length plans))
                         plans (0, st1) of
                    Inl (err, done, st2) \<Rightarrow> (done, failRun err st2)
                  | Inr (done, st2) \<Rightarrow> (done, st2\<lparr>runStatus := Done\<rparr>))))"

text \<open>
  Second version: no token is required, the schema is searched with \<^verbatim>\<open>find\<close>, and
  the pages are fetched again after the loop.
\<close>

definition onExecute_v2 :: "engine \<Rightarrow> 's Client \<Rightarrow> 's App \<Rightarrow> nat \<times> 's App" where
  "onExecute_v2 eng client st0 =
     (if databaseId st0 = [] then (0, st0)
      else
        let st = st0\<lparr>runStatus := Running, runError := None, progress := 0\<rparr> in
        case (case dryRun st of Some ps \<Rightarrow> Inr ps | None \<Rightarrow> currentPlans_v2 eng st) of
          Inl e \<Rightarrow> (0, failRun (Thrown e) st)
        | Inr plans \<Rightarrow>
            (case (if createMissingSelectOptions st
                   then ensureSelectOptions_v2 client (collectNeeded (findDef (dbProps st)) plans) st
                   else Inr st) of
               Inl (err, st1) \<Rightarrow> (0, failRun err st1)
             | Inr st1 \<Rightarrow>
                 (case pMapSerial (runPlan eng client (titlePropName (dbProps st)) (length plans))
                         plans (0, st1) of
                    Inl (err, done, st2) \<Rightarrow> (done, failRun err st2)
                  | Inr (done, st2) \<Rightarrow>
                      (case query client (store st2) of
                         Inl msg \<Rightarrow> (done, failRun (Rejected msg) st2)
                       | Inr results \<Rightarrow> (done, st2\<lparr>pages := results, runStatus := Done\<rparr>)))))"

section \<open>Specification vocabulary\<close>

text \<open>
  The first-seen order of a sequence of names, as the specification of the option
  reconciler uses it: every name once, at the place of its first occurrence.
\<close>

fun firstSeenOrder :: "'a list \<Rightarrow> 'a list" where
  "firstSeenOrder [] = []"
| "firstSeenOrder (x # xs) = x # firstSeenOrder (filter (\<lambda>y. y \<noteq> x) xs)"

text \<open>The option names that the entries of \<open>needed\<close> reference for one property name.\<close>

definition referencedNames :: "Needed list \<Rightarrow> string \<Rightarrow> string list" where
  "referencedNames needed pn = map snd (filter (\<lambda>n. prop_name (fst n) = pn) needed)"

text \<open>
  The names of a sequence that are not yet options of a property, and the option list the
  specification asks for: the existing options in their order, followed by the missing
  names in first-seen order.
\<close>

definition missingNames :: "NotionPropertyDef \<Rightarrow> string list \<Rightarrow> string list" where
  "missingNames d names = filter (\<lambda>nm. nm \<notin> set (map opt_name (currentOptions (Some d)))) names"

definition patchedOptions :: "NotionPropertyDef \<Rightarrow> string list \<Rightarrow> NotionOption list" where
  "patchedOptions d names =
     currentOptions (Some d) @ map newOption (missingNames d (firstSeenOrder names))"

text \<open>
  The cells that the mappings read for one property are blank in a row: the property is
  mapped, and every mapping to it reads the empty string.
\<close>

definition blankCells :: "Mapping list \<Rightarrow> string \<Rightarrow> ExcelRow \<Rightarrow> bool" where
  "blankCells ms np row \<longleftrightarrow>
     (\<exists>m \<in> set ms. notionProperty m = np)
     \<and> (\<forall>m \<in> set ms. notionProperty m = np \<longrightarrow> js_get (JObj row) (excelColumn m) = JStr [])"

text \<open>
  A property of a page passes the gate of the update loop,
  \<^verbatim>\<open>if (onlyUpdateEmpty && (existingValue !== null && existingValue !== "")) continue\<close>:
  the switch is off, or the existing value decodes to \<^verbatim>\<open>null\<close> or to the empty
  string.
\<close>

definition passesGate :: "engine \<Rightarrow> bool \<Rightarrow> NotionPage \<Rightarrow> string \<Rightarrow> bool" where
  "passesGate eng oue page np \<longleftrightarrow>
     (oue \<longrightarrow>
        getNotionPropertyPlainValue eng (js_get (JObj (properties page)) np) = Inr JNull
        \<or> getNotionPropertyPlainValue eng (js_get (JObj (properties page)) np) = Inr (JStr []))"

text \<open>A plan that the executor does not dispatch.\<close>

fun isSkip :: "Plan \<Rightarrow> bool" where
  "isSkip (PlanSkip key excel page reason) = True"
| "isSkip _ = False"

text \<open>
  A typed value with its type tag, the form in which the record store holds a property:
  \<^verbatim>\<open>{ type: t, [t]: ... }\<close>. The encoder writes the second field only.
\<close>

definition tagged :: "string \<Rightarrow> jsval \<Rightarrow> jsval" where
  "tagged t enc = (case enc of JObj kvs \<Rightarrow> JObj ((''type'', JStr t) # kvs) | _ \<Rightarrow> enc)"

section \<open>Example inputs\<close>

text \<open>
  An engine for closed examples. No example below prints a fractional number or builds a
  date, so neither field is consulted.
\<close>

definition plainEngine :: engine where
  "plainEngine = \<lparr>numStr = (\<lambda>q. []), dateISO = (\<lambda>v. None)\<rparr>"

text \<open>A client that accepts every request and keeps no store.\<close>

definition acceptAll :: "unit Client" where
  "acceptAll = \<lparr>send = (\<lambda>s r. Inr s), query = (\<lambda>s. Inr [])\<rparr>"

text \<open>
  The schema and the two pages of the mock backend (\<^verbatim>\<open>makeMock\<close>), the schema as
  \<^verbatim>\<open>loadDatabase\<close> of the second version lists it.
\<close>

definition mockDbProps :: "NotionPropertyDef list" where
  "mockDbProps =
     [\<lparr>prop_name = ''Key'', prop_type = ''title'', prop_options = Some []\<rparr>,
      \<lparr>prop_name = ''Status'', prop_type = ''select'',
         prop_options = Some [newOption ''New'', newOption ''Done'']\<rparr>,
      \<lparr>prop_name = ''Tags'', prop_type = ''multi_select'',
         prop_options = Some [newOption ''red'', newOption ''blue'']\<rparr>,
      \<lparr>prop_name = ''Amount'', prop_type = ''number'', prop_options = Some []\<rparr>,
      \<lparr>prop_name = ''Note'', prop_type = ''rich_text'', prop_options = Some []\<rparr>]"

definition plainText :: "string \<Rightarrow> jsval" where
  "plainText s = JObj [(''type'', JStr ''text''), (''text'', JObj [(''content'', JStr s)]),
                       (''plain_text'', JStr s)]"

definition mockPage1 :: NotionPage where
  "mockPage1 =
     \<lparr>page_id = ''p1'',
      properties =
        [(''Key'', JObj [(''type'', JStr ''title''), (''title'', JArr [plainText ''A001''])]),
         (''Status'', JObj [(''type'', JStr ''select''), (''select'', JObj [(''name'', JStr ''New'')])]),
         (''Tags'', JObj [(''type'', JStr ''multi_select''),
                          (''multi_select'', JArr [JObj [(''name'', JStr ''red'')]])]),
         (''Amount'', JObj [(''type'', JStr ''number''), (''number'', JNum (Fin 10))]),
         (''Note'', JObj [(''type'', JStr ''rich_text''), (''rich_text'', JArr [plainText ''hello''])])]\<rparr>"

definition mockPage2 :: NotionPage where
  "mockPage2 =
     \<lparr>page_id = ''p2'',
      properties =
        [(''Key'', JObj [(''type'', JStr ''title''), (''title'', JArr [plainText ''A002''])]),
         (''Status'', JObj [(''type'', JStr ''select''), (''select'', JObj [(''name'', JStr ''Done'')])]),
         (''Tags'', JObj [(''type'', JStr ''multi_select''),
                          (''multi_select'', JArr [JObj [(''name'', JStr ''blue'')]])]),
         (''Amount'', JObj [(''type'', JStr ''number''), (''number'', JNum (Fin 5))]),
         (''Note'', JObj [(''type'', JStr ''rich_text''), (''rich_text'', JArr [])])]\<rparr>"

text \<open>A sheet of three rows; the first has a blank amount, the last repeats the first key.\<close>

definition sheetRow1 :: ExcelRow where
  "sheetRow1 = [(''Key'', JStr ''A001''), (''Amount'', JStr []), (''Tags'', JStr ''red, green'')]"

definition sheetRow2 :: ExcelRow where
  "sheetRow2 = [(''Key'', JStr ''X999''), (''Amount'', JStr ''7''), (''Tags'', JStr ''blue'')]"

definition sheetRow3 :: ExcelRow where
  "sheetRow3 = [(''Key'', JStr '' A001 ''), (''Amount'', JStr ''12''), (''Tags'', JStr [])]"

definition amountMapping :: Mapping where
  "amountMapping = \<lparr>mapping_id = ''m1'', excelColumn = ''Amount'', notionProperty = ''Amount''\<rparr>"

definition tagsMapping :: Mapping where
  "tagsMapping = \<lparr>mapping_id = ''m2'', excelColumn = ''Tags'', notionProperty = ''Tags''\<rparr>"

text \<open>A third page that repeats the key of the first.\<close>

definition mockPage3 :: NotionPage where
  "mockPage3 =
     \<lparr>page_id = ''p3'',
      properties =
        [(''Key'', JObj [(''type'', JStr ''title''), (''title'', JArr [plainText ''A001 ''])]),
         (''Amount'', JObj [(''type'', JStr ''number''), (''number'', JNum (Fin 3))])]\<rparr>"

text \<open>A fourth page, whose amount is not set.\<close>

definition mockPage4 :: NotionPage where
  "mockPage4 =
     \<lparr>page_id = ''p4'',
      properties =
        [(''Key'', JObj [(''type'', JStr ''title''), (''title'', JArr [plainText ''A001''])]),
         (''Amount'', JObj [(''type'', JStr ''number''), (''number'', JNull)])]\<rparr>"

text \<open>
  The two indexes of the sheet \<open>[sheetRow1, sheetRow2, sheetRow3]\<close> and of the pages
  \<open>[mockPage1, mockPage2, mockPage3]\<close> under the key \<open>Key\<close>.
\<close>

definition sheetIndex :: "(string \<times> ExcelRow) list" where
  "sheetIndex = [(''A001'', sheetRow3), (''X999'', sheetRow2)]"

definition pageIndex :: "(string \<times> NotionPage) list" where
  "pageIndex = [(''A001'', mockPage3), (''A002'', mockPage2)]"

text \<open>
  The state of the component after the mock database and the sheet are loaded, with the
  default switches of the second version, and two plan sequences: one references only
  options that exist, the other references new ones.
\<close>

definition mockApp :: "unit App" where
  "mockApp =
     \<lparr>notionToken = ''secret'', databaseId = ''mock-db'', useMock = True,
      dbProps = mockDbProps, pages = [mockPage1, mockPage2, mockPage3],
      excelIdx = sheetIndex, notionIdx = pageIndex, joinType = JoinLeft,
      mappings = [amountMapping, tagsMapping], onlyUpdateEmpty = False,
      createMissingSelectOptions = True, allowCreatePages = False, dryRun = None,
      runStatus = Idle, progress = 0, runError = None, store = (), sent = []\<rparr>"

definition knownPlans :: "Plan list" where
  "knownPlans =
     [PlanCreate ''X999'' sheetRow2 [(''Tags'', JObj [(''multi_select'', JArr [nameObj ''blue''])])]]"

definition tagPlans :: "Plan list" where
  "tagPlans =
     [PlanUpdate ''A001'' sheetRow1 mockPage1
        [(''Tags'', JObj [(''multi_select'', JArr [nameObj ''red'', nameObj ''green''])]),
         (''Status'', JObj [(''select'', nameObj ''Open'')])],
      PlanCreate ''X999'' sheetRow2
        [(''Tags'', JObj [(''multi_select'', JArr [nameObj ''zz'', nameObj ''green'', nameObj ''blue''])])]]"

definition tagPatch :: "(string \<times> string \<times> NotionOption list) list" where
  "tagPatch =
     [(''Tags'', ''multi_select'',
       [newOption ''red'', newOption ''blue'', newOption ''green'', newOption ''zz'']),
      (''Status'', ''select'', [newOption ''New'', newOption ''Done'', newOption ''Open''])]"

text \<open>
  A schema with a property of type \<^verbatim>\<open>status\<close>, two plans that set it (the first to
  a stage that the schema does not list), and the payload these plans call for.
\<close>

definition stageDbProps :: "NotionPropertyDef list" where
  "stageDbProps =
     [\<lparr>prop_name = ''Key'', prop_type = ''title'', prop_options = None\<rparr>,
      \<lparr>prop_name = ''Stage'', prop_type = ''status'', prop_options = Some [newOption ''Todo'']\<rparr>]"

definition stagePlans :: "Plan list" where
  "stagePlans =
     [PlanCreate ''X999'' sheetRow2 [(''Stage'', JObj [(''status'', nameObj ''Doing'')])],
      PlanUpdate ''A001'' sheetRow1 mockPage1 [(''Stage'', JObj [(''status'', nameObj ''Todo'')])]]"

definition stagePatch :: "(string \<times> string \<times> NotionOption list) list" where
  "stagePatch = [(''Stage'', ''status'', [newOption ''Todo'', newOption ''Doing''])]"

text \<open>Two plans that are both skips.\<close>

definition skipPlans :: "Plan list" where
  "skipPlans =
     [PlanSkip ''X999'' (Some sheetRow2) None ''No matching Notion page'',
      PlanSkip ''A002'' None (Some mockPage2) ''No matching Excel row'']"

section \<open>Basic facts\<close>

lemma jsTrim_Nil [simp]: "jsTrim [] = []"
  by (simp add: jsTrim_def)

lemma stringToNumber_Nil [simp]: "stringToNumber [] = Fin 0"
  by (simp add: stringToNumber_def)

lemma arrayIndex_0 [simp]: "arrayIndex ''0'' = Some 0"
  by (simp add: arrayIndex_def isDigit_def digitsVal_def digitVal_def)

lemma map_of_fold_update:
  "map_of (fold (\<lambda>x m. if P x then AList.update (kf x) x m else m) xs acc) k =
     (if filter (\<lambda>x. P x \<and> kf x = k) xs = [] then map_of acc k
      else Some (last (filter (\<lambda>x. P x \<and> kf x = k) xs)))"
  by (induction xs arbitrary: acc) (auto simp: update_conv')

lemma map_of_selectedDbPropDefs:
  "map_of (selectedDbPropDefs dps) nm =
     (if filter (\<lambda>p. prop_name p = nm) dps = [] then None
      else Some (last (filter (\<lambda>p. prop_name p = nm) dps)))"
  using map_of_fold_update[of "\<lambda>p. True" prop_name dps "[]" nm]
  by (simp add: selectedDbPropDefs_def)

lemma selectedDbPropDefs_SomeD:
  "map_of (selectedDbPropDefs dps) nm = Some d \<Longrightarrow> d \<in> set dps \<and> prop_name d = nm"
proof -
  assume a: "map_of (selectedDbPropDefs dps) nm = Some d"
  let ?f = "filter (\<lambda>p. prop_name p = nm) dps"
  from a have ne: "?f \<noteq> []" and d: "d = last ?f"
    by (auto simp: map_of_selectedDbPropDefs split: if_splits)
  from ne have "last ?f \<in> set ?f" by (rule last_in_set)
  with d show ?thesis by auto
qed

lemma findDef_SomeD: "findDef dps nm = Some d \<Longrightarrow> d \<in> set dps \<and> prop_name d = nm"
  by (auto simp: findDef_def find_Some_iff)

lemma findDef_None: "findDef dps nm = None \<longleftrightarrow> nm \<notin> prop_name ` set dps"
  by (auto simp: findDef_def find_None_iff)

lemma js_set_plain: "k \<noteq> ''__proto__'' \<Longrightarrow> js_set k v obj = AList.update k v obj"
  by (simp add: js_set_def)

lemma js_set_proto: "map_of obj ''__proto__'' = None \<Longrightarrow> js_set ''__proto__'' v obj = obj"
  by (simp add: js_set_def)

lemma map_of_js_set:
  "map_of (js_set k v obj) k' =
     (if k' = k \<and> (k \<noteq> ''__proto__'' \<or> map_of obj k \<noteq> None) then Some v else map_of obj k')"
  by (auto simp: js_set_def update_conv')

lemma js_set_keeps_no_proto:
  "map_of obj ''__proto__'' = None \<Longrightarrow> map_of (js_set k v obj) ''__proto__'' = None"
  by (simp add: map_of_js_set)

lemma distinct_js_set: "distinct (map fst obj) \<Longrightarrow> distinct (map fst (js_set k v obj))"
  by (simp add: js_set_def distinct_update)

lemma fold_js_set:
  "map_of acc ''__proto__'' = None \<Longrightarrow>
   fold (\<lambda>x m. if P x then js_set (kf x) (vf x) m else m) xs acc
     = fold (\<lambda>x m. if P x \<and> kf x \<noteq> ''__proto__'' then AList.update (kf x) (vf x) m else m) xs acc"
proof (induction xs arbitrary: acc)
  case Nil
  then show ?case by simp
next
  case (Cons x xs)
  let ?acc' = "if P x then js_set (kf x) (vf x) acc else acc"
  from Cons.prems have np: "map_of ?acc' ''__proto__'' = None"
    by (simp add: js_set_keeps_no_proto)
  have eq: "?acc' = (if P x \<and> kf x \<noteq> ''__proto__'' then AList.update (kf x) (vf x) acc else acc)"
    using Cons.prems by (simp add: js_set_def)
  have "fold (\<lambda>x m. if P x then js_set (kf x) (vf x) m else m) (x # xs) acc
          = fold (\<lambda>x m. if P x then js_set (kf x) (vf x) m else m) xs ?acc'"
    by simp
  also have "\<dots> = fold (\<lambda>x m. if P x \<and> kf x \<noteq> ''__proto__'' then AList.update (kf x) (vf x) m else m)
                       xs ?acc'"
    by (rule Cons.IH[OF np])
  also have "\<dots> = fold (\<lambda>x m. if P x \<and> kf x \<noteq> ''__proto__'' then AList.update (kf x) (vf x) m else m)
                       (x # xs) acc"
    by (simp only: eq fold_simps)
  finally show ?case .
qed

section \<open>Properties of the value codec\<close>

lemma encode_blank_number:
  "buildNotionPropertyValue eng ''number'' (JStr []) csv = JObj [(''number'', JNum (Fin 0))]"
  by (simp add: buildNotionPropertyValue_def isFinite_def)

text \<open>
  C8 (amended). For a property of type title or rich_text, the decoder returns the trimmed
  plain text of the first run; it returns null when the list of runs is absent or null;
  and it returns the empty string, not null, when the list is present and empty.
\<close>

theorem decode_text_run:
  assumes ty: "t = ''title'' \<or> t = ''rich_text''"
      and tag: "map_of kvs ''type'' = Some (JStr t)"
  shows "(\<forall>r rs s. map_of kvs t = Some (JArr (r # rs)) \<and> js_get r ''plain_text'' = JStr s
            \<longrightarrow> getNotionPropertyPlainValue eng (JObj kvs) = Inr (JStr (jsTrim s)))
       \<and> (map_of kvs t = None \<or> map_of kvs t = Some JNull \<or> map_of kvs t = Some JUndefined
            \<longrightarrow> getNotionPropertyPlainValue eng (JObj kvs) = Inr JNull)
       \<and> (map_of kvs t = Some (JArr [])
            \<longrightarrow> getNotionPropertyPlainValue eng (JObj kvs) = Inr (JStr []))"
  using ty tag
  by (auto simp: getNotionPropertyPlainValue_def Let_def orElse_def)

theorem decode_text_run_witness:
  "getNotionPropertyPlainValue plainEngine
     (JObj [(''type'', JStr ''title''), (''title'', JArr [JObj [(''plain_text'', JStr '' A001 '')]])])
     = Inr (JStr ''A001'')
   \<and> getNotionPropertyPlainValue plainEngine (JObj [(''type'', JStr ''rich_text'')]) = Inr JNull
   \<and> getNotionPropertyPlainValue plainEngine
       (JObj [(''type'', JStr ''rich_text''), (''rich_text'', JArr [])]) = Inr (JStr [])"
proof -
  have trim: "jsTrim '' A001 '' = ''A001''"
    by code_simp
  have a: "getNotionPropertyPlainValue plainEngine
             (JObj [(''type'', JStr ''title''), (''title'', JArr [JObj [(''plain_text'', JStr '' A001 '')]])])
           = Inr (JStr (jsTrim '' A001 ''))"
    using decode_text_run
            [where t = "''title''" and eng = plainEngine
               and kvs = "[(''type'', JStr ''title''), (''title'', JArr [JObj [(''plain_text'', JStr '' A001 '')]])]"]
    by simp
  have b: "getNotionPropertyPlainValue plainEngine (JObj [(''type'', JStr ''rich_text'')]) = Inr JNull"
    using decode_text_run
            [where t = "''rich_text''" and eng = plainEngine and kvs = "[(''type'', JStr ''rich_text'')]"]
    by simp
  have c: "getNotionPropertyPlainValue plainEngine
             (JObj [(''type'', JStr ''rich_text''), (''rich_text'', JArr [])]) = Inr (JStr [])"
    using decode_text_run
            [where t = "''rich_text''" and eng = plainEngine
               and kvs = "[(''type'', JStr ''rich_text''), (''rich_text'', JArr [])]"]
    by simp
  from a b c trim show ?thesis by simp
qed

text \<open>
  The Note of the second mock page has an empty list of runs: the decoder returns the
  empty string there, not null.
\<close>

theorem decode_empty_runs_counterexample:
  "js_get (JObj (properties mockPage2)) ''Note'' = JObj [(''type'', JStr ''rich_text''), (''rich_text'', JArr [])]
   \<and> getNotionPropertyPlainValue plainEngine (js_get (JObj (properties mockPage2)) ''Note'') = Inr (JStr [])
   \<and> getNotionPropertyPlainValue plainEngine (js_get (JObj (properties mockPage2)) ''Note'') \<noteq> Inr JNull"
  by (simp add: mockPage2_def getNotionPropertyPlainValue_def Let_def orElse_def)

section \<open>Properties of the key indexer\<close>





lemma notionIndexLoop_decodes:
  "notionIndexLoop eng nk pgs m = Inr idx \<Longrightarrow> \<forall>pg \<in> set pgs. \<exists>kv. notionKeyVal eng nk pg = Inr kv"
  by (induction pgs arbitrary: m) (auto split: sum.splits)

lemma notionIndexLoop_fold:
  "\<forall>pg \<in> set pgs. notionKeyVal eng nk pg = Inr (kf pg) \<Longrightarrow>
     notionIndexLoop eng nk pgs m =
       Inr (fold (\<lambda>pg m. if kf pg \<noteq> [] then AList.update (kf pg) pg m else m) pgs m)"
  by (induction pgs arbitrary: m) auto

lemma notionIndex_lookup:
  assumes "notionIndex eng nk pgs = Inr idx"
  shows "map_of idx k =
     (if nk = [] \<or> k = [] \<or> filter (\<lambda>pg. notionKeyVal eng nk pg = Inr k) pgs = [] then None
      else Some (last (filter (\<lambda>pg. notionKeyVal eng nk pg = Inr k) pgs)))"
proof (cases "nk = []")
  case True
  with assms show ?thesis by (simp add: notionIndex_def)
next
  case False
  define kf where "kf pg = projr (notionKeyVal eng nk pg)" for pg
  from assms False have loop: "notionIndexLoop eng nk pgs [] = Inr idx"
    by (simp add: notionIndex_def)
  from notionIndexLoop_decodes[OF loop]
  have dec: "\<forall>pg \<in> set pgs. notionKeyVal eng nk pg = Inr (kf pg)"
    by (auto simp: kf_def)
  from notionIndexLoop_fold[OF dec, of "[]"] loop
  have idx: "idx = fold (\<lambda>pg m. if kf pg \<noteq> [] then AList.update (kf pg) pg m else m) pgs []"
    by simp
  have flt: "filter (\<lambda>pg. kf pg \<noteq> [] \<and> kf pg = k) pgs
               = (if k = [] then [] else filter (\<lambda>pg. notionKeyVal eng nk pg = Inr k) pgs)"
    using dec by (auto intro!: filter_cong)
  show ?thesis
    using False map_of_fold_update[of "\<lambda>pg. kf pg \<noteq> []" kf pgs "[]" k]
    by (simp add: idx flt)
qed





text \<open>
  C5 (amended). When two pages of the sequence have the same non-empty key, the page index
  keeps the last page with that key: a page at or after the later of the two, and the
  later one itself when no page after it has the key. The earlier page is kept only if it
  occurs again at or after the later one.
\<close>

theorem notion_index_keeps_last_duplicate:
  assumes idx: "notionIndex eng nk (xs @ p # ys @ q # zs) = Inr idx"
      and nk: "nk \<noteq> []" and k: "k \<noteq> []"
      and kp: "notionKeyVal eng nk p = Inr k"
      and kq: "notionKeyVal eng nk q = Inr k"
  shows "(\<exists>r \<in> set (q # zs). map_of idx k = Some r \<and> notionKeyVal eng nk r = Inr k)
       \<and> ((\<forall>pg \<in> set zs. notionKeyVal eng nk pg \<noteq> Inr k) \<longrightarrow> map_of idx k = Some q)
       \<and> (p \<notin> set (q # zs) \<longrightarrow> map_of idx k \<noteq> Some p)"
proof -
  let ?P = "\<lambda>pg. notionKeyVal eng nk pg = Inr k"
  let ?tail = "filter ?P (q # zs)"
  have tail: "?tail = q # filter ?P zs" using kq by simp
  have "filter ?P (xs @ p # ys @ q # zs) = filter ?P (xs @ p # ys) @ ?tail"
    by simp
  moreover have ne: "?tail \<noteq> []" using tail by simp
  ultimately have last_eq: "last (filter ?P (xs @ p # ys @ q # zs)) = last ?tail"
    and all_ne: "filter ?P (xs @ p # ys @ q # zs) \<noteq> []"
    by (simp_all only: last_appendR append_is_Nil_conv, simp_all)
  define r where "r = last ?tail"
  from notionIndex_lookup[OF idx, of k] nk k all_ne last_eq
  have look: "map_of idx k = Some r" by (simp add: r_def)
  from ne have "last ?tail \<in> set ?tail" by (rule last_in_set)
  then have "r \<in> {x \<in> set (q # zs). ?P x}"
    by (simp only: set_filter r_def)
  then have mem: "r \<in> set (q # zs)" and key: "?P r"
    by blast+
  have one: "\<exists>r \<in> set (q # zs). map_of idx k = Some r \<and> notionKeyVal eng nk r = Inr k"
    using look mem key by blast
  have two: "map_of idx k = Some q" if "\<forall>pg \<in> set zs. notionKeyVal eng nk pg \<noteq> Inr k"
  proof -
    from that have "filter ?P zs = []" by (simp add: filter_empty_conv)
    with tail have "r = q" by (simp add: r_def)
    with look show ?thesis by simp
  qed
  have three: "map_of idx k \<noteq> Some p" if "p \<notin> set (q # zs)"
  proof
    assume "map_of idx k = Some p"
    with look have "r = p" by simp
    with mem that show False by simp
  qed
  from one two three show ?thesis by blast
qed

theorem notion_index_keeps_last_duplicate_witness:
  "notionIndex plainEngine ''Key'' ([] @ mockPage1 # [mockPage2] @ mockPage3 # [])
     = Inr [(''A001'', mockPage3), (''A002'', mockPage2)]
   \<and> notionKeyVal plainEngine ''Key'' mockPage1 = Inr ''A001''
   \<and> notionKeyVal plainEngine ''Key'' mockPage3 = Inr ''A001''
   \<and> map_of [(''A001'', mockPage3), (''A002'', mockPage2)] ''A001'' = Some mockPage3"
proof -
  have n: "notionIndex plainEngine ''Key'' ([] @ mockPage1 # [mockPage2] @ mockPage3 # [])
             = Inr [(''A001'', mockPage3), (''A002'', mockPage2)]"
    by code_simp
  have k1: "notionKeyVal plainEngine ''Key'' mockPage1 = Inr ''A001''"
    by code_simp
  have k3: "notionKeyVal plainEngine ''Key'' mockPage3 = Inr ''A001''"
    by code_simp
  have ne: "''Key'' \<noteq> []" "''A001'' \<noteq> []" by simp_all
  from notion_index_keeps_last_duplicate[OF n ne k1 k3]
  have "map_of [(''A001'', mockPage3), (''A002'', mockPage2)] ''A001'' = Some mockPage3"
    by simp
  with n k1 k3 show ?thesis by blast
qed

text \<open>
  Of two pages with the key A001 the index holds the second, so the first write does not
  win.
\<close>

theorem notion_index_first_write_counterexample:
  "notionKeyVal plainEngine ''Key'' mockPage1 = Inr ''A001''
   \<and> notionKeyVal plainEngine ''Key'' mockPage3 = Inr ''A001''
   \<and> notionIndex plainEngine ''Key'' [mockPage1, mockPage3] = Inr [(''A001'', mockPage3)]
   \<and> map_of [(''A001'', mockPage3)] ''A001'' \<noteq> Some mockPage1"
  by code_simp

section \<open>Properties of the join planner\<close>

lemma set_fold_set_add: "set (fold set_add xs acc) = set acc \<union> set xs"
  by (induction xs arbitrary: acc) (auto simp: set_add_def)

lemma distinct_fold_set_add: "distinct acc \<Longrightarrow> distinct (fold set_add xs acc)"
  by (induction xs arbitrary: acc) (auto simp: set_add_def)

lemma set_fold_inner:
  "set (fold (\<lambda>k keys. if k \<in> R then set_add k keys else keys) xs acc) = set acc \<union> (set xs \<inter> R)"
  by (induction xs arbitrary: acc) (auto simp: set_add_def)

lemma distinct_fold_inner:
  "distinct acc \<Longrightarrow> distinct (fold (\<lambda>k keys. if k \<in> R then set_add k keys else keys) xs acc)"
  by (induction xs arbitrary: acc) (auto simp: set_add_def)

lemma set_newSet [simp]: "set (newSet xs) = set xs"
  by (simp add: newSet_def set_fold_set_add)

lemma distinct_planKeys: "distinct (planKeys jt ls rs)"
  by (cases jt) (simp_all add: planKeys_def distinct_fold_set_add distinct_fold_inner)

lemma set_planKeys:
  "set (planKeys jt ls rs) =
     (case jt of JoinLeft \<Rightarrow> set ls | JoinRight \<Rightarrow> set rs
               | JoinInner \<Rightarrow> set ls \<inter> set rs | JoinOuter \<Rightarrow> set ls \<union> set rs)"
  by (cases jt) (simp_all add: planKeys_def set_fold_set_add set_fold_inner)

lemma planKeys_subset: "set (planKeys jt ls rs) \<subseteq> set ls \<union> set rs"
  by (cases jt) (auto simp: set_planKeys)

lemma plansLoop_Inr:
  "plansLoop body keys acc = Inr plans \<Longrightarrow>
     (\<forall>k \<in> set keys. \<exists>ps. body k = Inr ps) \<and> plans = acc @ concat (map (\<lambda>k. projr (body k)) keys)"
proof (induction keys arbitrary: acc)
  case Nil
  then show ?case by simp
next
  case (Cons k keys)
  from Cons.prems obtain new where new: "body k = Inr new"
    and rest: "plansLoop body keys (acc @ new) = Inr plans"
    by (auto split: sum.splits)
  from Cons.IH[OF rest] new show ?case by simp
qed

lemma plansLoop_total:
  "\<forall>k \<in> set keys. \<exists>ps. body k = Inr ps \<Longrightarrow> \<exists>plans. plansLoop body keys acc = Inr plans"
  by (induction keys arbitrary: acc) (auto split: sum.splits)

lemma planForKey_single:
  assumes "planForKey upd crt ei ni jt ac k = Inr ps" and "p \<in> set ps"
  shows "ps = [p] \<and> plan_key p = k"
  using assms
  by (auto simp: planForKey_def split: option.splits sum.splits if_splits)

lemma planForKey_present:
  assumes "planForKey upd crt ei ni jt ac k = Inr ps"
      and "map_of ei k \<noteq> None \<or> map_of ni k \<noteq> None"
  shows "\<exists>p. ps = [p] \<and> plan_key p = k"
  using assms
  by (auto simp: planForKey_def split: option.splits sum.splits if_splits)

lemma plan_in_plans:
  assumes loop: "plansLoop (planForKey upd crt ei ni jt ac) keys [] = Inr plans"
      and mem: "p \<in> set plans"
  shows "plan_key p \<in> set keys \<and> planForKey upd crt ei ni jt ac (plan_key p) = Inr [p]"
proof -
  from plansLoop_Inr[OF loop]
  have dec: "\<forall>k \<in> set keys. \<exists>ps. planForKey upd crt ei ni jt ac k = Inr ps"
    and plans: "plans = concat (map (\<lambda>k. projr (planForKey upd crt ei ni jt ac k)) keys)"
    by simp_all
  from mem plans obtain k where k: "k \<in> set keys"
    and p: "p \<in> set (projr (planForKey upd crt ei ni jt ac k))"
    by auto
  from dec k obtain ps where ps: "planForKey upd crt ei ni jt ac k = Inr ps" by blast
  with p have "p \<in> set ps" by simp
  from planForKey_single[OF ps this] ps k show ?thesis by simp
qed

lemma plan_keys_of_plans:
  assumes loop: "plansLoop (planForKey upd crt ei ni jt ac) keys [] = Inr plans"
      and present: "\<forall>k \<in> set keys. map_of ei k \<noteq> None \<or> map_of ni k \<noteq> None"
  shows "map plan_key plans = keys"
proof -
  from plansLoop_Inr[OF loop]
  have dec: "\<forall>k \<in> set keys. \<exists>ps. planForKey upd crt ei ni jt ac k = Inr ps"
    and plans: "plans = concat (map (\<lambda>k. projr (planForKey upd crt ei ni jt ac k)) keys)"
    by simp_all
  have one: "map plan_key (projr (planForKey upd crt ei ni jt ac k)) = [k]" if "k \<in> set keys" for k
  proof -
    from dec that obtain ps where ps: "planForKey upd crt ei ni jt ac k = Inr ps" by blast
    from planForKey_present[OF ps] present that obtain p where "ps = [p]" "plan_key p = k"
      by blast
    with ps show ?thesis by simp
  qed
  have "map plan_key (concat (map f ks)) = ks"
    if "\<forall>k \<in> set ks. map plan_key (f k) = [k]" for f and ks :: "string list"
    using that by (induction ks) auto
  from this[of keys "\<lambda>k. projr (planForKey upd crt ei ni jt ac k)"] one plans
  show ?thesis by simp
qed

lemma selected_keys_present:
  "k \<in> set (planKeys jt (newSet (map fst ei)) (newSet (map fst ni))) \<Longrightarrow>
     map_of ei k \<noteq> None \<or> map_of ni k \<noteq> None"
  using planKeys_subset[of jt "newSet (map fst ei)" "newSet (map fst ni)"]
  by (auto simp: map_of_eq_None_iff)

lemma updateChanges_total:
  "\<forall>m \<in> set ms. \<exists>v. getNotionPropertyPlainValue eng (js_get (JObj (properties pg)) (notionProperty m)) = Inr v
     \<Longrightarrow> \<exists>ch. updateChanges eng defs oue row pg ms acc = Inr ch"
  by (induction ms arbitrary: acc) (auto simp: Let_def)

lemma updateChanges_v2_total:
  "\<forall>m \<in> set ms. \<exists>v. getNotionPropertyPlainValue eng (js_get (JObj (properties pg)) (notionProperty m)) = Inr v
     \<Longrightarrow> \<exists>ch. updateChanges_v2 eng dps oue row pg ms acc = Inr ch"
  by (induction ms arbitrary: acc) (auto simp: Let_def)

lemma planForKey_total:
  assumes "\<And>r pg. map_of ni k = Some pg \<Longrightarrow> \<exists>ch. upd r pg = Inr ch"
  shows "\<exists>ps. planForKey upd crt ei ni jt ac k = Inr ps"
proof (cases "map_of ei k")
  case None
  then show ?thesis by (simp add: planForKey_def split: option.splits)
next
  case (Some r)
  show ?thesis
  proof (cases "map_of ni k")
    case None
    with Some show ?thesis by (simp add: planForKey_def)
  next
    case (Some pg)
    from assms[OF this, of r] obtain ch where "upd r pg = Inr ch" by blast
    with Some \<open>map_of ei k = Some r\<close> show ?thesis by (simp add: planForKey_def)
  qed
qed

lemma planner_keys:
  assumes "plansLoop (planForKey upd crt ei ni jt ac)
             (planKeys jt (newSet (map fst ei)) (newSet (map fst ni))) [] = Inr plans"
  shows "map plan_key plans = planKeys jt (newSet (map fst ei)) (newSet (map fst ni))"
  using plan_keys_of_plans[OF assms] selected_keys_present by blast

lemma planner_total:
  assumes "\<And>r pg. pg \<in> snd ` set ni \<Longrightarrow> \<exists>ch. upd r pg = Inr ch"
  shows "\<exists>plans. plansLoop (planForKey upd crt ei ni jt ac) keys [] = Inr plans"
proof (rule plansLoop_total, rule ballI)
  fix k
  have "\<exists>ch. upd r pg = Inr ch" if "map_of ni k = Some pg" for r pg
  proof -
    from that have "(k, pg) \<in> set ni" by (rule map_of_SomeD)
    then have "pg \<in> snd ` set ni" by force
    then show ?thesis by (rule assms)
  qed
  then show "\<exists>ps. planForKey upd crt ei ni jt ac k = Inr ps"
    by (rule planForKey_total)
qed

text \<open>
  C1. The keys selected by \<^verbatim>\<open>buildPlannedUpdates\<close> are pairwise different and are the
  keys of the row index for a left join, of the page index for a right join, the keys in
  both for an inner join and the keys in either for an outer join, so their number is the
  cardinality of that set. The plans returned by either version carry exactly these keys,
  one plan per key in the order of selection. Plans are returned whenever the mapped
  properties of the indexed pages decode.
\<close>

theorem one_plan_per_selected_key:
  "distinct (planKeys jt (newSet (map fst ei)) (newSet (map fst ni)))
   \<and> set (planKeys jt (newSet (map fst ei)) (newSet (map fst ni))) =
       (case jt of JoinLeft \<Rightarrow> fst ` set ei | JoinRight \<Rightarrow> fst ` set ni
                 | JoinInner \<Rightarrow> fst ` set ei \<inter> fst ` set ni
                 | JoinOuter \<Rightarrow> fst ` set ei \<union> fst ` set ni)
   \<and> length (planKeys jt (newSet (map fst ei)) (newSet (map fst ni))) =
       card (case jt of JoinLeft \<Rightarrow> fst ` set ei | JoinRight \<Rightarrow> fst ` set ni
                      | JoinInner \<Rightarrow> fst ` set ei \<inter> fst ` set ni
                      | JoinOuter \<Rightarrow> fst ` set ei \<union> fst ` set ni)
   \<and> (\<forall>plans. buildPlannedUpdates eng ei ni jt ms dps oue acp = Inr plans
         \<longrightarrow> map plan_key plans = planKeys jt (newSet (map fst ei)) (newSet (map fst ni)))
   \<and> (\<forall>plans. buildPlannedUpdates_v2 eng ei ni jt ms dps oue acp = Inr plans
         \<longrightarrow> map plan_key plans = planKeys jt (newSet (map fst ei)) (newSet (map fst ni)))
   \<and> ((\<forall>pg \<in> snd ` set ni. \<forall>m \<in> set ms.
          \<exists>v. getNotionPropertyPlainValue eng (js_get (JObj (properties pg)) (notionProperty m)) = Inr v)
         \<longrightarrow> (\<exists>plans. buildPlannedUpdates eng ei ni jt ms dps oue acp = Inr plans)
           \<and> (\<exists>plans. buildPlannedUpdates_v2 eng ei ni jt ms dps oue acp = Inr plans))"
proof -
  let ?keys = "planKeys jt (newSet (map fst ei)) (newSet (map fst ni))"
  let ?U = "case jt of JoinLeft \<Rightarrow> fst ` set ei | JoinRight \<Rightarrow> fst ` set ni
                     | JoinInner \<Rightarrow> fst ` set ei \<inter> fst ` set ni
                     | JoinOuter \<Rightarrow> fst ` set ei \<union> fst ` set ni"
  have d: "distinct ?keys" by (rule distinct_planKeys)
  have s: "set ?keys = ?U"
    by (cases jt) (simp_all add: set_planKeys)
  from d have "card (set ?keys) = length ?keys" by (rule distinct_card)
  with s have c: "length ?keys = card ?U" by simp
  have v1: "map plan_key plans = ?keys"
    if "buildPlannedUpdates eng ei ni jt ms dps oue acp = Inr plans" for plans
    using that unfolding buildPlannedUpdates_def by (rule planner_keys)
  have v2: "map plan_key plans = ?keys"
    if "buildPlannedUpdates_v2 eng ei ni jt ms dps oue acp = Inr plans" for plans
    using that unfolding buildPlannedUpdates_v2_def by (rule planner_keys)
  have t: "(\<exists>plans. buildPlannedUpdates eng ei ni jt ms dps oue acp = Inr plans)
         \<and> (\<exists>plans. buildPlannedUpdates_v2 eng ei ni jt ms dps oue acp = Inr plans)"
    if dec: "\<forall>pg \<in> snd ` set ni. \<forall>m \<in> set ms.
          \<exists>v. getNotionPropertyPlainValue eng (js_get (JObj (properties pg)) (notionProperty m)) = Inr v"
  proof
    show "\<exists>plans. buildPlannedUpdates eng ei ni jt ms dps oue acp = Inr plans"
      unfolding buildPlannedUpdates_def
      by (rule planner_total, rule updateChanges_total) (use dec in blast)
    show "\<exists>plans. buildPlannedUpdates_v2 eng ei ni jt ms dps oue acp = Inr plans"
      unfolding buildPlannedUpdates_v2_def
      by (rule planner_total, rule updateChanges_v2_total) (use dec in blast)
  qed
  from d s c v1 v2 t show ?thesis by blast
qed

theorem one_plan_per_selected_key_witness:
  "planKeys JoinLeft (newSet (map fst sheetIndex)) (newSet (map fst pageIndex)) = [''A001'', ''X999'']
   \<and> planKeys JoinRight (newSet (map fst sheetIndex)) (newSet (map fst pageIndex)) = [''A001'', ''A002'']
   \<and> planKeys JoinInner (newSet (map fst sheetIndex)) (newSet (map fst pageIndex)) = [''A001'']
   \<and> planKeys JoinOuter (newSet (map fst sheetIndex)) (newSet (map fst pageIndex))
        = [''A001'', ''X999'', ''A002'']
   \<and> (\<exists>plans. buildPlannedUpdates plainEngine sheetIndex pageIndex JoinOuter [amountMapping]
                  mockDbProps False False = Inr plans
               \<and> map plan_key plans = [''A001'', ''X999'', ''A002''])
   \<and> (\<exists>plans. buildPlannedUpdates_v2 plainEngine sheetIndex pageIndex JoinInner [amountMapping]
                  mockDbProps False False = Inr plans
               \<and> map plan_key plans = [''A001''])
   \<and> card (fst ` set sheetIndex \<union> fst ` set pageIndex) = 3
   \<and> card (fst ` set sheetIndex \<inter> fst ` set pageIndex) = 1"
proof -
  let ?L = "newSet (map fst sheetIndex)" and ?R = "newSet (map fst pageIndex)"
  have kl: "planKeys JoinLeft ?L ?R = [''A001'', ''X999'']" by code_simp
  have kr: "planKeys JoinRight ?L ?R = [''A001'', ''A002'']" by code_simp
  have ki: "planKeys JoinInner ?L ?R = [''A001'']" by code_simp
  have ko: "planKeys JoinOuter ?L ?R = [''A001'', ''X999'', ''A002'']" by code_simp
  have d3: "getNotionPropertyPlainValue plainEngine (js_get (JObj (properties mockPage3)) ''Amount'')
              = Inr (JNum (Fin 3))"
    by code_simp
  have d2: "getNotionPropertyPlainValue plainEngine (js_get (JObj (properties mockPage2)) ''Amount'')
              = Inr (JNum (Fin 5))"
    by code_simp
  have dec: "\<forall>pg \<in> snd ` set pageIndex. \<forall>m \<in> set [amountMapping].
          \<exists>v. getNotionPropertyPlainValue plainEngine
                 (js_get (JObj (properties pg)) (notionProperty m)) = Inr v"
    using d3 d2 by (simp add: pageIndex_def amountMapping_def del: js_get.simps)
  note outer = one_plan_per_selected_key
                 [where eng = plainEngine and ei = sheetIndex and ni = pageIndex and jt = JoinOuter
                    and ms = "[amountMapping]" and dps = mockDbProps and oue = False and acp = False]
  note inner = one_plan_per_selected_key
                 [where eng = plainEngine and ei = sheetIndex and ni = pageIndex and jt = JoinInner
                    and ms = "[amountMapping]" and dps = mockDbProps and oue = False and acp = False]
  from outer dec obtain po where
    po: "buildPlannedUpdates plainEngine sheetIndex pageIndex JoinOuter [amountMapping]
           mockDbProps False False = Inr po"
    by blast
  with outer have "map plan_key po = planKeys JoinOuter ?L ?R" by blast
  with ko have po_keys: "map plan_key po = [''A001'', ''X999'', ''A002'']" by simp
  from inner dec obtain pi where
    pi: "buildPlannedUpdates_v2 plainEngine sheetIndex pageIndex JoinInner [amountMapping]
           mockDbProps False False = Inr pi"
    by blast
  with inner have "map plan_key pi = planKeys JoinInner ?L ?R" by blast
  with ki have pi_keys: "map plan_key pi = [''A001'']" by simp
  from outer have "length (planKeys JoinOuter ?L ?R) = card (fst ` set sheetIndex \<union> fst ` set pageIndex)"
    by simp
  with ko have co: "card (fst ` set sheetIndex \<union> fst ` set pageIndex) = 3" by simp
  from inner have "length (planKeys JoinInner ?L ?R) = card (fst ` set sheetIndex \<inter> fst ` set pageIndex)"
    by simp
  with ki have ci: "card (fst ` set sheetIndex \<inter> fst ` set pageIndex) = 1" by simp
  have eo: "\<exists>plans. buildPlannedUpdates plainEngine sheetIndex pageIndex JoinOuter [amountMapping]
                  mockDbProps False False = Inr plans
               \<and> map plan_key plans = [''A001'', ''X999'', ''A002'']"
    using po po_keys by (intro exI conjI)
  have ei: "\<exists>plans. buildPlannedUpdates_v2 plainEngine sheetIndex pageIndex JoinInner [amountMapping]
                  mockDbProps False False = Inr plans
               \<and> map plan_key plans = [''A001'']"
    using pi pi_keys by (intro exI conjI)
  show ?thesis
    by (intro conjI) (rule kl kr ki ko eo ei co ci)+
qed

lemma planForKey_both:
  assumes "map_of ei k = Some r" and "map_of ni k = Some pg"
  shows "planForKey upd crt ei ni jt ac k =
           (case upd r pg of
              Inl e \<Rightarrow> Inl e
            | Inr ch \<Rightarrow> Inr [if ch = [] then PlanSkip k (Some r) (Some pg) ''No changes computed''
                              else PlanUpdate k r pg ch])"
  using assms by (simp add: planForKey_def split: sum.splits)

lemma planForKey_row_only:
  assumes "map_of ei k = Some r" and "map_of ni k = None"
  shows "planForKey upd crt ei ni jt ac k =
           Inr [if (jt = JoinLeft \<or> jt = JoinOuter) \<and> ac then PlanCreate k r (crt r)
                else PlanSkip k (Some r) None ''No matching Notion page'']"
  using assms by (simp add: planForKey_def)

lemma planForKey_page_only:
  assumes "map_of ei k = None" and "map_of ni k = Some pg"
  shows "planForKey upd crt ei ni jt ac k = Inr [PlanSkip k None (Some pg) ''No matching Excel row'']"
  using assms by (simp add: planForKey_def)

lemma planForKey_neither:
  assumes "map_of ei k = None" and "map_of ni k = None"
  shows "planForKey upd crt ei ni jt ac k = Inr []"
  using assms by (simp add: planForKey_def)

lemma planner_update_or_skip:
  assumes loop: "plansLoop (planForKey upd crt ei ni jt ac) keys [] = Inr plans"
      and mem: "p \<in> set plans"
      and row: "map_of ei (plan_key p) = Some r" and page: "map_of ni (plan_key p) = Some pg"
  shows "\<exists>ch. upd r pg = Inr ch
            \<and> p = (if ch = [] then PlanSkip (plan_key p) (Some r) (Some pg) ''No changes computed''
                   else PlanUpdate (plan_key p) r pg ch)"
proof -
  from plan_in_plans[OF loop mem]
  have e: "planForKey upd crt ei ni jt ac (plan_key p) = Inr [p]" by simp
  show ?thesis
  proof (cases "upd r pg")
    case (Inl err)
    with e planForKey_both[OF row page, of upd crt jt ac] show ?thesis by simp
  next
    case (Inr ch)
    with e planForKey_both[OF row page, of upd crt jt ac]
    have "p = (if ch = [] then PlanSkip (plan_key p) (Some r) (Some pg) ''No changes computed''
               else PlanUpdate (plan_key p) r pg ch)"
      by (simp only: sum.case sum.inject list.inject)
    with Inr show ?thesis by blast
  qed
qed


lemma planner_update_nonempty:
  assumes loop: "plansLoop (planForKey upd crt ei ni jt ac) keys [] = Inr plans"
      and mem: "PlanUpdate k r pg ch \<in> set plans"
  shows "ch \<noteq> [] \<and> map_of ei k = Some r \<and> map_of ni k = Some pg \<and> upd r pg = Inr ch"
proof -
  from plan_in_plans[OF loop mem]
  have e: "planForKey upd crt ei ni jt ac k = Inr [PlanUpdate k r pg ch]" by simp
  show ?thesis
  proof (cases "map_of ei k")
    case None
    show ?thesis
    proof (cases "map_of ni k")
      case None
      with e planForKey_neither[OF \<open>map_of ei k = None\<close> None, of upd crt jt ac]
      show ?thesis by simp
    next
      case (Some pg')
      with e planForKey_page_only[OF None Some, of upd crt jt ac]
      show ?thesis by simp
    qed
  next
    case (Some r')
    show ?thesis
    proof (cases "map_of ni k")
      case None
      with e planForKey_row_only[OF Some None, of upd crt jt ac]
      show ?thesis by (simp split: if_splits)
    next
      case (Some pg')
      note both = planForKey_both[OF \<open>map_of ei k = Some r'\<close> Some, of upd crt jt ac]
      show ?thesis
      proof (cases "upd r' pg'")
        case (Inl err)
        with e both show ?thesis by simp
      next
        case (Inr ch')
        with e both
        have "(if ch' = [] then PlanSkip k (Some r') (Some pg') ''No changes computed''
               else PlanUpdate k r' pg' ch') = PlanUpdate k r pg ch"
          by (simp only: sum.case sum.inject list.inject)
        then have "ch' \<noteq> [] \<and> r' = r \<and> pg' = pg \<and> ch' = ch"
          by (cases "ch' = []") simp_all
        with Inr Some \<open>map_of ei k = Some r'\<close> show ?thesis by auto
      qed
    qed
  qed
qed

lemma planner_create:
  assumes loop: "plansLoop (planForKey upd crt ei ni jt ac) keys [] = Inr plans"
      and mem: "PlanCreate k r ch \<in> set plans"
  shows "map_of ei k = Some r \<and> map_of ni k = None \<and> (jt = JoinLeft \<or> jt = JoinOuter) \<and> ac
         \<and> ch = crt r"
proof -
  from plan_in_plans[OF loop mem]
  have e: "planForKey upd crt ei ni jt ac k = Inr [PlanCreate k r ch]" by simp
  show ?thesis
  proof (cases "map_of ei k")
    case None
    show ?thesis
    proof (cases "map_of ni k")
      case None
      with e planForKey_neither[OF \<open>map_of ei k = None\<close> None, of upd crt jt ac]
      show ?thesis by simp
    next
      case (Some pg')
      with e planForKey_page_only[OF None Some, of upd crt jt ac]
      show ?thesis by simp
    qed
  next
    case (Some r')
    show ?thesis
    proof (cases "map_of ni k")
      case None
      from e planForKey_row_only[OF Some None, of upd crt jt ac]
      have "(if (jt = JoinLeft \<or> jt = JoinOuter) \<and> ac then PlanCreate k r' (crt r')
             else PlanSkip k (Some r') None ''No matching Notion page'') = PlanCreate k r ch"
        by (simp only: sum.inject list.inject)
      then have "(jt = JoinLeft \<or> jt = JoinOuter) \<and> ac \<and> r' = r \<and> ch = crt r'"
        by (cases "(jt = JoinLeft \<or> jt = JoinOuter) \<and> ac") auto
      with Some None show ?thesis by simp
    next
      case (Some pg')
      note both = planForKey_both[OF \<open>map_of ei k = Some r'\<close> Some, of upd crt jt ac]
      show ?thesis
      proof (cases "upd r' pg'")
        case (Inl err)
        with e both show ?thesis by simp
      next
        case (Inr ch')
        with e both
        have "(if ch' = [] then PlanSkip k (Some r') (Some pg') ''No changes computed''
               else PlanUpdate k r' pg' ch') = PlanCreate k r ch"
          by (simp only: sum.case sum.inject list.inject)
        then show ?thesis by (cases "ch' = []") simp_all
      qed
    qed
  qed
qed

lemma planner_row_only:
  assumes loop: "plansLoop (planForKey upd crt ei ni jt ac) keys [] = Inr plans"
      and mem: "p \<in> set plans"
      and row: "map_of ei (plan_key p) = Some r" and page: "map_of ni (plan_key p) = None"
  shows "p = (if (jt = JoinLeft \<or> jt = JoinOuter) \<and> ac then PlanCreate (plan_key p) r (crt r)
              else PlanSkip (plan_key p) (Some r) None ''No matching Notion page'')"
proof -
  from plan_in_plans[OF loop mem]
  have "planForKey upd crt ei ni jt ac (plan_key p) = Inr [p]" by simp
  with planForKey_row_only[OF row page, of upd crt jt ac] show ?thesis
    by (simp only: sum.inject list.inject)
qed

lemma planner_has_plan:
  assumes loop: "plansLoop (planForKey upd crt ei ni jt ac) keys [] = Inr plans"
      and k: "k \<in> set keys" and present: "map_of ei k \<noteq> None \<or> map_of ni k \<noteq> None"
  shows "\<exists>p \<in> set plans. plan_key p = k"
proof -
  from plansLoop_Inr[OF loop]
  have dec: "\<forall>k \<in> set keys. \<exists>ps. planForKey upd crt ei ni jt ac k = Inr ps"
    and plans: "plans = concat (map (\<lambda>k. projr (planForKey upd crt ei ni jt ac k)) keys)"
    by simp_all
  from dec k obtain ps where ps: "planForKey upd crt ei ni jt ac k = Inr ps" by blast
  from planForKey_present[OF ps present] obtain p where p: "ps = [p]" "plan_key p = k" by blast
  with ps k plans have "p \<in> set plans" by force
  with p show ?thesis by blast
qed

text \<open>
  C2. In the plans of either version, an update plan has a non-empty \<open>changes\<close>; and the
  plan of a key with both a row and a page is the update with the staged changes when
  there are some, and otherwise the skip with the reason \<^verbatim>\<open>No changes computed\<close>
  (the literal of the source for the spec's "no changes computed").
\<close>

theorem update_plans_have_changes:
  "(\<forall>plans. buildPlannedUpdates eng ei ni jt ms dps oue acp = Inr plans \<longrightarrow>
      (\<forall>k r pg ch. PlanUpdate k r pg ch \<in> set plans \<longrightarrow> ch \<noteq> [])
    \<and> (\<forall>p \<in> set plans. \<forall>r pg.
          map_of ei (plan_key p) = Some r \<and> map_of ni (plan_key p) = Some pg \<longrightarrow>
          (\<exists>ch. updateChanges eng (selectedDbPropDefs dps) oue r pg ms [] = Inr ch
              \<and> p = (if ch = [] then PlanSkip (plan_key p) (Some r) (Some pg) ''No changes computed''
                     else PlanUpdate (plan_key p) r pg ch))))
   \<and> (\<forall>plans. buildPlannedUpdates_v2 eng ei ni jt ms dps oue acp = Inr plans \<longrightarrow>
      (\<forall>k r pg ch. PlanUpdate k r pg ch \<in> set plans \<longrightarrow> ch \<noteq> [])
    \<and> (\<forall>p \<in> set plans. \<forall>r pg.
          map_of ei (plan_key p) = Some r \<and> map_of ni (plan_key p) = Some pg \<longrightarrow>
          (\<exists>ch. updateChanges_v2 eng dps oue r pg ms [] = Inr ch
              \<and> p = (if ch = [] then PlanSkip (plan_key p) (Some r) (Some pg) ''No changes computed''
                     else PlanUpdate (plan_key p) r pg ch))))"
proof (intro conjI allI impI ballI)
  fix plans k r pg ch
  assume "buildPlannedUpdates eng ei ni jt ms dps oue acp = Inr plans"
     and m: "PlanUpdate k r pg ch \<in> set plans"
  then have "plansLoop (planForKey
          (\<lambda>excelRow page.
             updateChanges eng (selectedDbPropDefs dps) oue excelRow page ms [])
          (\<lambda>excelRow. createChanges eng (map_of (selectedDbPropDefs dps)) excelRow ms [])
          ei ni jt acp)
       (planKeys jt (newSet (map fst ei)) (newSet (map fst ni))) [] = Inr plans"
    by (simp only: buildPlannedUpdates_def)
  from planner_update_nonempty[OF this m] show "ch \<noteq> []" by (rule conjunct1)
next
  fix plans p r pg
  assume "buildPlannedUpdates eng ei ni jt ms dps oue acp = Inr plans" and m: "p \<in> set plans"
     and b: "map_of ei (plan_key p) = Some r \<and> map_of ni (plan_key p) = Some pg"
  then have "plansLoop (planForKey
          (\<lambda>excelRow page.
             updateChanges eng (selectedDbPropDefs dps) oue excelRow page ms [])
          (\<lambda>excelRow. createChanges eng (map_of (selectedDbPropDefs dps)) excelRow ms [])
          ei ni jt acp)
       (planKeys jt (newSet (map fst ei)) (newSet (map fst ni))) [] = Inr plans"
    by (simp only: buildPlannedUpdates_def)
  from planner_update_or_skip[OF this m conjunct1[OF b] conjunct2[OF b]]
  show "\<exists>ch. updateChanges eng (selectedDbPropDefs dps) oue r pg ms [] = Inr ch
              \<and> p = (if ch = [] then PlanSkip (plan_key p) (Some r) (Some pg) ''No changes computed''
                     else PlanUpdate (plan_key p) r pg ch)" .
next
  fix plans k r pg ch
  assume "buildPlannedUpdates_v2 eng ei ni jt ms dps oue acp = Inr plans"
     and m: "PlanUpdate k r pg ch \<in> set plans"
  then have "plansLoop (planForKey
          (\<lambda>excelRow page. updateChanges_v2 eng dps oue excelRow page ms [])
          (\<lambda>excelRow. createChanges eng (findDef dps) excelRow ms [])
          ei ni jt acp)
       (planKeys jt (newSet (map fst ei)) (newSet (map fst ni))) [] = Inr plans"
    by (simp only: buildPlannedUpdates_v2_def)
  from planner_update_nonempty[OF this m] show "ch \<noteq> []" by (rule conjunct1)
next
  fix plans p r pg
  assume "buildPlannedUpdates_v2 eng ei ni jt ms dps oue acp = Inr plans" and m: "p \<in> set plans"
     and b: "map_of ei (plan_key p) = Some r \<and> map_of ni (plan_key p) = Some pg"
  then have "plansLoop (planForKey
          (\<lambda>excelRow page. updateChanges_v2 eng dps oue excelRow page ms [])
          (\<lambda>excelRow. createChanges eng (findDef dps) excelRow ms [])
          ei ni jt acp)
       (planKeys jt (newSet (map fst ei)) (newSet (map fst ni))) [] = Inr plans"
    by (simp only: buildPlannedUpdates_v2_def)
  from planner_update_or_skip[OF this m conjunct1[OF b] conjunct2[OF b]]
  show "\<exists>ch. updateChanges_v2 eng dps oue r pg ms [] = Inr ch
              \<and> p = (if ch = [] then PlanSkip (plan_key p) (Some r) (Some pg) ''No changes computed''
                     else PlanUpdate (plan_key p) r pg ch)" .
qed

lemma mkNum_small: "\<bar>q\<bar> < 10 ^ 300 \<Longrightarrow> mkNum q = Fin q"
proof -
  have "(10::rat) ^ 300 \<le> 2 ^ 1024 - 2 ^ 970" by simp
  then show "\<bar>q\<bar> < 10 ^ 300 \<Longrightarrow> mkNum q = Fin q"
    unfolding mkNum_def by (auto simp: abs_less_iff)
qed

lemmas number_eval =
  stringToNumber_def jsTrim_def isWhiteSpace_def parseNonDecimal_def parseUnsignedDecimal_def
  isDigit_def digitsVal_def digitVal_def parseExponent_def pow10_def mkNum_small

lemma encode_number_12:
  "buildNotionPropertyValue eng ''number'' (JStr ''12'') True = JObj [(''number'', JNum (Fin 12))]"
  by (simp add: buildNotionPropertyValue_def number_eval isFinite_def)

theorem update_plans_have_changes_witness:
  "buildPlannedUpdates plainEngine sheetIndex pageIndex JoinInner [amountMapping] mockDbProps False False
     = Inr [PlanUpdate ''A001'' sheetRow3 mockPage3 [(''Amount'', JObj [(''number'', JNum (Fin 12))])]]
   \<and> [(''Amount'', JObj [(''number'', JNum (Fin 12))])] \<noteq> []
   \<and> buildPlannedUpdates_v2 plainEngine sheetIndex pageIndex JoinInner [amountMapping] mockDbProps True False
     = Inr [PlanSkip ''A001'' (Some sheetRow3) (Some mockPage3) ''No changes computed'']
   \<and> map_of sheetIndex ''A001'' = Some sheetRow3
   \<and> map_of pageIndex ''A001'' = Some mockPage3
   \<and> updateChanges_v2 plainEngine mockDbProps True sheetRow3 mockPage3 [amountMapping] [] = Inr []"
proof -
  have r: "map_of sheetIndex ''A001'' = Some sheetRow3" by code_simp
  have pg: "map_of pageIndex ''A001'' = Some mockPage3" by code_simp
  have keys: "planKeys JoinInner (newSet (map fst sheetIndex)) (newSet (map fst pageIndex)) = [''A001'']"
    by code_simp
  have d: "map_of (selectedDbPropDefs mockDbProps) ''Amount''
             = Some \<lparr>prop_name = ''Amount'', prop_type = ''number'', prop_options = Some []\<rparr>"
    by code_simp
  have c: "js_get (JObj sheetRow3) ''Amount'' = JStr ''12''" by code_simp
  have x: "getNotionPropertyPlainValue plainEngine (js_get (JObj (properties mockPage3)) ''Amount'')
             = Inr (JNum (Fin 3))"
    by code_simp
  have u: "updateChanges plainEngine (selectedDbPropDefs mockDbProps) False sheetRow3 mockPage3
             [amountMapping] [] = Inr [(''Amount'', JObj [(''number'', JNum (Fin 12))])]"
    using d c x encode_number_12[of plainEngine]
    by (simp add: amountMapping_def js_set_def del: js_get.simps)
  have a1: "buildPlannedUpdates plainEngine sheetIndex pageIndex JoinInner [amountMapping] mockDbProps False False
     = Inr [PlanUpdate ''A001'' sheetRow3 mockPage3 [(''Amount'', JObj [(''number'', JNum (Fin 12))])]]"
    unfolding buildPlannedUpdates_def keys
    by (simp add: planForKey_both[OF r pg] u del: updateChanges.simps)
  have a2: "buildPlannedUpdates_v2 plainEngine sheetIndex pageIndex JoinInner [amountMapping] mockDbProps True False
     = Inr [PlanSkip ''A001'' (Some sheetRow3) (Some mockPage3) ''No changes computed'']"
    by code_simp
  note t1 = update_plans_have_changes
              [where eng = plainEngine and ei = sheetIndex and ni = pageIndex and jt = JoinInner
                 and ms = "[amountMapping]" and dps = mockDbProps and oue = False and acp = False]
  note t2 = update_plans_have_changes
              [where eng = plainEngine and ei = sheetIndex and ni = pageIndex and jt = JoinInner
                 and ms = "[amountMapping]" and dps = mockDbProps and oue = True and acp = False]
  have m1: "PlanUpdate ''A001'' sheetRow3 mockPage3 [(''Amount'', JObj [(''number'', JNum (Fin 12))])]
              \<in> set [PlanUpdate ''A001'' sheetRow3 mockPage3 [(''Amount'', JObj [(''number'', JNum (Fin 12))])]]"
    by simp
  from t1 a1 m1 have b1: "[(''Amount'', JObj [(''number'', JNum (Fin 12))])] \<noteq> []"
    by blast
  let ?skip = "PlanSkip ''A001'' (Some sheetRow3) (Some mockPage3) ''No changes computed''"
  have m2: "?skip \<in> set [?skip]" by simp
  have k2: "map_of sheetIndex (plan_key ?skip) = Some sheetRow3 \<and> map_of pageIndex (plan_key ?skip) = Some mockPage3"
    using r pg by simp
  from t2 a2 m2 k2 obtain ch where
    ch: "updateChanges_v2 plainEngine mockDbProps True sheetRow3 mockPage3 [amountMapping] [] = Inr ch"
    and p: "?skip = (if ch = [] then PlanSkip (plan_key ?skip) (Some sheetRow3) (Some mockPage3) ''No changes computed''
                     else PlanUpdate (plan_key ?skip) sheetRow3 mockPage3 ch)"
    by blast
  from p have "ch = []" by (cases "ch = []") simp_all
  with ch have b2: "updateChanges_v2 plainEngine mockDbProps True sheetRow3 mockPage3 [amountMapping] [] = Inr []"
    by simp
  show ?thesis
    by (intro conjI) (rule a1 b1 a2 r pg b2)+
qed

text \<open>
  C3. In the plans of either version, a create plan belongs to a key that has a row and no
  page, the join type is left or outer, and page creation is allowed. When it is not
  allowed there is no create plan under any join type, and every selected key with a row
  and no page has the skip plan with the reason \<^verbatim>\<open>No matching Notion page\<close> (the literal
  of the source for the spec's "no matching record").
\<close>

theorem create_plans_guarded:
  "(\<forall>plans. buildPlannedUpdates eng ei ni jt ms dps oue acp = Inr plans \<longrightarrow>
      (\<forall>k r ch. PlanCreate k r ch \<in> set plans \<longrightarrow>
          map_of ei k = Some r \<and> map_of ni k = None \<and> (jt = JoinLeft \<or> jt = JoinOuter) \<and> acp)
    \<and> (\<not> acp \<longrightarrow>
          (\<forall>k r ch. PlanCreate k r ch \<notin> set plans)
        \<and> (\<forall>k \<in> set (planKeys jt (newSet (map fst ei)) (newSet (map fst ni))). \<forall>r.
              map_of ei k = Some r \<and> map_of ni k = None \<longrightarrow>
              PlanSkip k (Some r) None ''No matching Notion page'' \<in> set plans)))
   \<and> (\<forall>plans. buildPlannedUpdates_v2 eng ei ni jt ms dps oue acp = Inr plans \<longrightarrow>
      (\<forall>k r ch. PlanCreate k r ch \<in> set plans \<longrightarrow>
          map_of ei k = Some r \<and> map_of ni k = None \<and> (jt = JoinLeft \<or> jt = JoinOuter) \<and> acp)
    \<and> (\<not> acp \<longrightarrow>
          (\<forall>k r ch. PlanCreate k r ch \<notin> set plans)
        \<and> (\<forall>k \<in> set (planKeys jt (newSet (map fst ei)) (newSet (map fst ni))). \<forall>r.
              map_of ei k = Some r \<and> map_of ni k = None \<longrightarrow>
              PlanSkip k (Some r) None ''No matching Notion page'' \<in> set plans)))"
proof -
  have core:
    "(\<forall>k r ch. PlanCreate k r ch \<in> set plans \<longrightarrow>
          map_of ei k = Some r \<and> map_of ni k = None \<and> (jt = JoinLeft \<or> jt = JoinOuter) \<and> acp)
    \<and> (\<not> acp \<longrightarrow>
          (\<forall>k r ch. PlanCreate k r ch \<notin> set plans)
        \<and> (\<forall>k \<in> set keys. \<forall>r.
              map_of ei k = Some r \<and> map_of ni k = None \<longrightarrow>
              PlanSkip k (Some r) None ''No matching Notion page'' \<in> set plans))"
    if loop: "plansLoop (planForKey upd crt ei ni jt acp) keys [] = Inr plans"
    for upd crt keys plans
  proof -
    have a: "map_of ei k = Some r \<and> map_of ni k = None \<and> (jt = JoinLeft \<or> jt = JoinOuter) \<and> acp"
      if "PlanCreate k r ch \<in> set plans" for k r ch
      using planner_create[OF loop that] by blast
    have b: "PlanSkip k (Some r) None ''No matching Notion page'' \<in> set plans"
      if "\<not> acp" and k: "k \<in> set keys" and row: "map_of ei k = Some r" and page: "map_of ni k = None"
      for k r
    proof -
      from row have "map_of ei k \<noteq> None \<or> map_of ni k \<noteq> None" by simp
      from planner_has_plan[OF loop k this] obtain p where p: "p \<in> set plans" "plan_key p = k"
        by blast
      from planner_row_only[OF loop p(1), of r] row page p(2) \<open>\<not> acp\<close>
      have "p = PlanSkip k (Some r) None ''No matching Notion page''" by simp
      with p(1) show ?thesis by simp
    qed
    from a b show ?thesis by blast
  qed
  show ?thesis
    unfolding buildPlannedUpdates_def buildPlannedUpdates_v2_def
    by (rule conjI; rule allI; rule impI; erule core)
qed

theorem create_plans_guarded_witness:
  "buildPlannedUpdates plainEngine sheetIndex pageIndex JoinLeft [tagsMapping] mockDbProps False False
     = Inr [PlanUpdate ''A001'' sheetRow3 mockPage3 [(''Tags'', JObj [(''multi_select'', JArr [])])],
            PlanSkip ''X999'' (Some sheetRow2) None ''No matching Notion page'']
   \<and> buildPlannedUpdates_v2 plainEngine sheetIndex pageIndex JoinLeft [tagsMapping] mockDbProps False True
     = Inr [PlanUpdate ''A001'' sheetRow3 mockPage3 [(''Tags'', JObj [(''multi_select'', JArr [])])],
            PlanCreate ''X999'' sheetRow2
              [(''Tags'', JObj [(''multi_select'', JArr [JObj [(''name'', JStr ''blue'')]])])]]
   \<and> map_of sheetIndex ''X999'' = Some sheetRow2
   \<and> map_of pageIndex ''X999'' = None
   \<and> PlanSkip ''X999'' (Some sheetRow2) None ''No matching Notion page''
       \<in> set [PlanUpdate ''A001'' sheetRow3 mockPage3 [(''Tags'', JObj [(''multi_select'', JArr [])])],
               PlanSkip ''X999'' (Some sheetRow2) None ''No matching Notion page'']"
proof -
  let ?upd = "PlanUpdate ''A001'' sheetRow3 mockPage3 [(''Tags'', JObj [(''multi_select'', JArr [])])]"
  let ?skip = "PlanSkip ''X999'' (Some sheetRow2) None ''No matching Notion page''"
  let ?create = "PlanCreate ''X999'' sheetRow2
                   [(''Tags'', JObj [(''multi_select'', JArr [JObj [(''name'', JStr ''blue'')]])])]"
  have a1: "buildPlannedUpdates plainEngine sheetIndex pageIndex JoinLeft [tagsMapping] mockDbProps False False
              = Inr [?upd, ?skip]"
    by code_simp
  have a2: "buildPlannedUpdates_v2 plainEngine sheetIndex pageIndex JoinLeft [tagsMapping] mockDbProps False True
              = Inr [?upd, ?create]"
    by code_simp
  have keys: "planKeys JoinLeft (newSet (map fst sheetIndex)) (newSet (map fst pageIndex)) = [''A001'', ''X999'']"
    by code_simp
  have r: "map_of sheetIndex ''X999'' = Some sheetRow2" by code_simp
  have n: "map_of pageIndex ''X999'' = None" by code_simp
  note t1 = create_plans_guarded
              [where eng = plainEngine and ei = sheetIndex and ni = pageIndex and jt = JoinLeft
                 and ms = "[tagsMapping]" and dps = mockDbProps and oue = False and acp = False]
  note t2 = create_plans_guarded
              [where eng = plainEngine and ei = sheetIndex and ni = pageIndex and jt = JoinLeft
                 and ms = "[tagsMapping]" and dps = mockDbProps and oue = False and acp = True]
  have k: "''X999'' \<in> set (planKeys JoinLeft (newSet (map fst sheetIndex)) (newSet (map fst pageIndex)))"
    unfolding keys by simp
  from t1 a1 k r n have b1: "?skip \<in> set [?upd, ?skip]"
    by blast
  have m: "?create \<in> set [?upd, ?create]" by simp
  from t2 a2 m have b2: "map_of sheetIndex ''X999'' = Some sheetRow2 \<and> map_of pageIndex ''X999'' = None"
    by blast
  show ?thesis
    by (intro conjI) (rule a1 a2 conjunct1[OF b2] conjunct2[OF b2] b1)+
qed

section \<open>A blank cell for a number property\<close>

lemma updateChanges_blank:
  assumes run: "updateChanges eng defs oue row page ms acc = Inr ch"
      and blank: "\<forall>m \<in> set ms. notionProperty m = np \<longrightarrow> js_get (JObj row) (excelColumn m) = JStr []"
      and d: "map_of defs np = Some d" and ty: "prop_type d = ''number''"
      and ne: "np \<noteq> []" and pr: "np \<noteq> ''__proto__''"
      and gate: "oue \<longrightarrow>
                   getNotionPropertyPlainValue eng (js_get (JObj (properties page)) np) = Inr JNull
                   \<or> getNotionPropertyPlainValue eng (js_get (JObj (properties page)) np) = Inr (JStr [])"
  shows "map_of ch np = (if \<exists>m \<in> set ms. notionProperty m = np
                         then Some (JObj [(''number'', JNum (Fin 0))]) else map_of acc np)"
  using run blank
proof (induction ms arbitrary: acc)
  case Nil
  then show ?case by simp
next
  case (Cons m ms)
  from Cons.prems(2)
  have rest: "\<forall>m \<in> set ms. notionProperty m = np \<longrightarrow> js_get (JObj row) (excelColumn m) = JStr []"
    by simp
  show ?case
  proof (cases "notionProperty m = np")
    case True
    with Cons.prems(2) have cell: "js_get (JObj row) (excelColumn m) = JStr []" by simp
    from Cons.prems(1) True d ne obtain ex where
      ex: "getNotionPropertyPlainValue eng (js_get (JObj (properties page)) np) = Inr ex"
      by (cases "getNotionPropertyPlainValue eng (js_get (JObj (properties page)) np)")
         (simp_all add: Let_def del: js_get.simps)
    with gate have pass: "\<not> (oue \<and> ex \<noteq> JNull \<and> ex \<noteq> JStr [])" by auto
    from Cons.prems(1) True d ne ty ex pass cell have
      "updateChanges eng defs oue row page ms
         (js_set np (JObj [(''number'', JNum (Fin 0))]) acc) = Inr ch"
      by (simp add: Let_def encode_blank_number del: js_get.simps)
    from Cons.IH[OF this rest] pr True show ?thesis
      by (simp add: map_of_js_set)
  next
    case False
    have "\<exists>acc'. updateChanges eng defs oue row page ms acc' = Inr ch \<and> map_of acc' np = map_of acc np"
    proof (cases "notionProperty m \<noteq> [] \<and> map_of defs (notionProperty m) \<noteq> None")
      case skip: False
      with Cons.prems(1) have "updateChanges eng defs oue row page ms acc = Inr ch"
        by (auto simp: Let_def simp del: js_get.simps)
      then show ?thesis by blast
    next
      case known: True
      from Cons.prems(1) known obtain ex where
        ex: "getNotionPropertyPlainValue eng (js_get (JObj (properties page)) (notionProperty m)) = Inr ex"
        by (cases "getNotionPropertyPlainValue eng (js_get (JObj (properties page)) (notionProperty m))")
           (simp_all add: Let_def del: js_get.simps)
      let ?built = "buildNotionPropertyValue eng
                      (prop_type (the (map_of defs (notionProperty m))))
                      (js_get (JObj row) (excelColumn m)) True"
      let ?acc' = "if oue \<and> ex \<noteq> JNull \<and> ex \<noteq> JStr [] then acc
                   else if ?built \<noteq> JUndefined then js_set (notionProperty m) ?built acc else acc"
      from Cons.prems(1) known ex have "updateChanges eng defs oue row page ms ?acc' = Inr ch"
        by (auto simp: Let_def simp del: js_get.simps split: if_splits)
      moreover from False have "map_of ?acc' np = map_of acc np"
        by (simp add: map_of_js_set)
      ultimately show ?thesis by blast
    qed
    then obtain acc' where
      step: "updateChanges eng defs oue row page ms acc' = Inr ch"
      and same: "map_of acc' np = map_of acc np"
      by blast
    from Cons.IH[OF step rest] False same show ?thesis
      by simp
  qed
qed

lemma updateChanges_v2_blank:
  assumes run: "updateChanges_v2 eng dps oue row page ms acc = Inr ch"
      and blank: "\<forall>m \<in> set ms. notionProperty m = np \<longrightarrow> js_get (JObj row) (excelColumn m) = JStr []"
      and d: "findDef dps np = Some d" and ty: "prop_type d = ''number''"
      and ne: "np \<noteq> []" and pr: "np \<noteq> ''__proto__''"
      and gate: "oue \<longrightarrow>
                   getNotionPropertyPlainValue eng (js_get (JObj (properties page)) np) = Inr JNull
                   \<or> getNotionPropertyPlainValue eng (js_get (JObj (properties page)) np) = Inr (JStr [])"
  shows "map_of ch np = (if \<exists>m \<in> set ms. notionProperty m = np
                         then Some (JObj [(''number'', JNum (Fin 0))]) else map_of acc np)"
  using run blank
proof (induction ms arbitrary: acc)
  case Nil
  then show ?case by simp
next
  case (Cons m ms)
  from Cons.prems(2)
  have rest: "\<forall>m \<in> set ms. notionProperty m = np \<longrightarrow> js_get (JObj row) (excelColumn m) = JStr []"
    by simp
  show ?case
  proof (cases "notionProperty m = np")
    case True
    with Cons.prems(2) have cell: "js_get (JObj row) (excelColumn m) = JStr []" by simp
    from Cons.prems(1) True ne obtain ex where
      ex: "getNotionPropertyPlainValue eng (js_get (JObj (properties page)) np) = Inr ex"
      by (cases "getNotionPropertyPlainValue eng (js_get (JObj (properties page)) np)")
         (simp_all add: Let_def del: js_get.simps)
    with gate have pass: "\<not> (oue \<and> ex \<noteq> JNull \<and> ex \<noteq> JStr [])" by auto
    from Cons.prems(1) True d ne ty ex pass cell have
      "updateChanges_v2 eng dps oue row page ms
         (js_set np (JObj [(''number'', JNum (Fin 0))]) acc) = Inr ch"
      by (simp add: Let_def encode_blank_number typeOrRichText_def del: js_get.simps)
    from Cons.IH[OF this rest] pr True show ?thesis
      by (simp add: map_of_js_set)
  next
    case False
    have "\<exists>acc'. updateChanges_v2 eng dps oue row page ms acc' = Inr ch \<and> map_of acc' np = map_of acc np"
    proof (cases "notionProperty m \<noteq> []")
      case skip: False
      with Cons.prems(1) have "updateChanges_v2 eng dps oue row page ms acc = Inr ch"
        by (simp add: Let_def del: js_get.simps)
      then show ?thesis by blast
    next
      case known: True
      from Cons.prems(1) known obtain ex where
        ex: "getNotionPropertyPlainValue eng (js_get (JObj (properties page)) (notionProperty m)) = Inr ex"
        by (cases "getNotionPropertyPlainValue eng (js_get (JObj (properties page)) (notionProperty m))")
           (simp_all add: Let_def del: js_get.simps)
      let ?built = "buildNotionPropertyValue eng
                      (typeOrRichText (findDef dps (notionProperty m)))
                      (js_get (JObj row) (excelColumn m)) True"
      let ?acc' = "if oue \<and> ex \<noteq> JNull \<and> ex \<noteq> JStr [] then acc
                   else if ?built \<noteq> JUndefined then js_set (notionProperty m) ?built acc else acc"
      from Cons.prems(1) known ex have "updateChanges_v2 eng dps oue row page ms ?acc' = Inr ch"
        by (auto simp: Let_def simp del: js_get.simps split: if_splits)
      moreover from False have "map_of ?acc' np = map_of acc np"
        by (simp add: map_of_js_set)
      ultimately show ?thesis by blast
    qed
    then obtain acc' where
      step: "updateChanges_v2 eng dps oue row page ms acc' = Inr ch"
      and same: "map_of acc' np = map_of acc np"
      by blast
    from Cons.IH[OF step rest] False same show ?thesis
      by simp
  qed
qed

lemma createChanges_blank:
  assumes blank: "\<forall>m \<in> set ms. notionProperty m = np \<longrightarrow> js_get (JObj row) (excelColumn m) = JStr []"
      and d: "defOf np = Some d" and ty: "prop_type d = ''number''"
      and ne: "np \<noteq> []" and pr: "np \<noteq> ''__proto__''"
  shows "map_of (createChanges eng defOf row ms acc) np =
           (if \<exists>m \<in> set ms. notionProperty m = np
            then Some (JObj [(''number'', JNum (Fin 0))]) else map_of acc np)"
  using blank
proof (induction ms arbitrary: acc)
  case Nil
  then show ?case by simp
next
  case (Cons m ms)
  from Cons.prems
  have rest: "\<forall>m \<in> set ms. notionProperty m = np \<longrightarrow> js_get (JObj row) (excelColumn m) = JStr []"
    by simp
  note IH = Cons.IH[OF rest]
  show ?case
  proof (cases "notionProperty m = np")
    case True
    with Cons.prems have cell: "js_get (JObj row) (excelColumn m) = JStr []" by simp
    from True d ne ty cell have
      "createChanges eng defOf row (m # ms) acc =
         createChanges eng defOf row ms (js_set np (JObj [(''number'', JNum (Fin 0))]) acc)"
      by (simp add: Let_def encode_blank_number typeOrRichText_def del: js_get.simps)
    with IH[of "js_set np (JObj [(''number'', JNum (Fin 0))]) acc"] pr True show ?thesis
      by (simp add: map_of_js_set del: createChanges.simps)
  next
    case False
    let ?built = "buildNotionPropertyValue eng
                    (typeOrRichText (defOf (notionProperty m)))
                    (js_get (JObj row) (excelColumn m)) True"
    let ?acc' = "if notionProperty m = [] then acc
                 else if ?built \<noteq> JUndefined then js_set (notionProperty m) ?built acc else acc"
    have "createChanges eng defOf row (m # ms) acc = createChanges eng defOf row ms ?acc'"
      by (simp add: Let_def del: js_get.simps)
    moreover from False have "map_of ?acc' np = map_of acc np"
      by (simp add: map_of_js_set)
    ultimately show ?thesis
      using IH[of ?acc'] False by (simp del: createChanges.simps)
  qed
qed

lemma planner_blank:
  assumes loop: "plansLoop (planForKey upd crt ei ni jt ac) keys [] = Inr plans"
      and U: "\<And>r pg ch. upd r pg = Inr ch \<Longrightarrow> B r \<Longrightarrow> G pg \<Longrightarrow> map_of ch np = Some z"
      and C: "\<And>r. B r \<Longrightarrow> map_of (crt r) np = Some z"
  shows "(\<forall>k r pg ch. PlanUpdate k r pg ch \<in> set plans \<and> B r \<and> G pg \<longrightarrow> map_of ch np = Some z)
       \<and> (\<forall>k r ch. PlanCreate k r ch \<in> set plans \<and> B r \<longrightarrow> map_of ch np = Some z)
       \<and> (\<forall>k \<in> set keys. \<forall>r pg.
             map_of ei k = Some r \<and> map_of ni k = Some pg \<and> B r \<and> G pg
             \<longrightarrow> (\<exists>ch. PlanUpdate k r pg ch \<in> set plans \<and> map_of ch np = Some z))"
proof (intro conjI allI ballI impI)
  fix k r pg ch
  assume h: "PlanUpdate k r pg ch \<in> set plans \<and> B r \<and> G pg"
  then have "upd r pg = Inr ch"
    using planner_update_nonempty[OF loop, of k r pg ch] by blast
  with h show "map_of ch np = Some z" using U by blast
next
  fix k r ch
  assume h: "PlanCreate k r ch \<in> set plans \<and> B r"
  then have "ch = crt r"
    using planner_create[OF loop, of k r ch] by blast
  with h show "map_of ch np = Some z" using C by blast
next
  fix k r pg
  assume k: "k \<in> set keys"
     and h: "map_of ei k = Some r \<and> map_of ni k = Some pg \<and> B r \<and> G pg"
  from h have present: "map_of ei k \<noteq> None \<or> map_of ni k \<noteq> None" by simp
  from planner_has_plan[OF loop k present] obtain p where p: "p \<in> set plans" "plan_key p = k"
    by blast
  from h p(2) have row: "map_of ei (plan_key p) = Some r" and page: "map_of ni (plan_key p) = Some pg"
    by simp_all
  from planner_update_or_skip[OF loop p(1) row page] obtain ch where
    ch: "upd r pg = Inr ch"
    and pe: "p = (if ch = [] then PlanSkip (plan_key p) (Some r) (Some pg) ''No changes computed''
                  else PlanUpdate (plan_key p) r pg ch)"
    by blast
  from ch h have z: "map_of ch np = Some z" using U by blast
  then have "ch \<noteq> []" by auto
  with pe p(2) have "p = PlanUpdate k r pg ch" by simp
  with p(1) z show "\<exists>ch. PlanUpdate k r pg ch \<in> set plans \<and> map_of ch np = Some z"
    by blast
qed

text \<open>
  C9. A blank cell is the empty string. \<^verbatim>\<open>Number("")\<close> is 0, which is finite, so the
  encoder returns the typed value \<^verbatim>\<open>{ number: 0 }\<close> for a number property, not
  \<^verbatim>\<open>undefined\<close>. Consequently the planner stages the write of 0 wherever it stages a
  value at all. When the mappings that target a number property read blank cells of the
  row, the changes of the update loop (both versions) and of the create loop (both ways
  of finding the definition) hold \<^verbatim>\<open>{ number: 0 }\<close> for that property; so do the
  changes of every update plan and create plan of such a row; and a selected key with
  such a row and with a page has the update plan, not the skip. In an update the switch
  \<^verbatim>\<open>onlyUpdateEmpty\<close> is a gate of its own, before the encoder: with the switch on,
  the property must be empty on the page (decoded value \<^verbatim>\<open>null\<close> or \<^verbatim>\<open>""\<close>)
  to be written at all, whatever the cell holds. A property named \<^verbatim>\<open>__proto__\<close> is
  left aside: an assignment under that name stages nothing, whatever the value.
\<close>

theorem blank_cell_number_stages_zero:
  "buildNotionPropertyValue eng ''number'' (JStr []) csv = JObj [(''number'', JNum (Fin 0))]
   \<and> buildNotionPropertyValue eng ''number'' (JStr []) csv \<noteq> JUndefined
   \<and> jsNumber eng (JStr []) = Fin 0
   \<and> isFinite (jsNumber eng (JStr []))
   \<and> (np \<noteq> [] \<and> np \<noteq> ''__proto__'' \<and> blankCells ms np row
      \<longrightarrow>
        (\<forall>d ch. map_of (selectedDbPropDefs dps) np = Some d \<and> prop_type d = ''number''
                \<and> passesGate eng oue page np
                \<and> updateChanges eng (selectedDbPropDefs dps) oue row page ms [] = Inr ch
           \<longrightarrow> map_of ch np = Some (JObj [(''number'', JNum (Fin 0))]))
      \<and> (\<forall>d ch. findDef dps np = Some d \<and> prop_type d = ''number''
                \<and> passesGate eng oue page np
                \<and> updateChanges_v2 eng dps oue row page ms [] = Inr ch
           \<longrightarrow> map_of ch np = Some (JObj [(''number'', JNum (Fin 0))]))
      \<and> (\<forall>d. map_of (selectedDbPropDefs dps) np = Some d \<and> prop_type d = ''number''
           \<longrightarrow> map_of (createChanges eng (map_of (selectedDbPropDefs dps)) row ms []) np
                 = Some (JObj [(''number'', JNum (Fin 0))]))
      \<and> (\<forall>d. findDef dps np = Some d \<and> prop_type d = ''number''
           \<longrightarrow> map_of (createChanges eng (findDef dps) row ms []) np
                 = Some (JObj [(''number'', JNum (Fin 0))])))
   \<and> (\<forall>plans d.
         buildPlannedUpdates eng ei ni jt ms dps oue acp = Inr plans
         \<and> np \<noteq> [] \<and> np \<noteq> ''__proto__''
         \<and> map_of (selectedDbPropDefs dps) np = Some d \<and> prop_type d = ''number''
       \<longrightarrow>
         (\<forall>k r pg ch. PlanUpdate k r pg ch \<in> set plans \<and> blankCells ms np r \<and> passesGate eng oue pg np
            \<longrightarrow> map_of ch np = Some (JObj [(''number'', JNum (Fin 0))]))
       \<and> (\<forall>k r ch. PlanCreate k r ch \<in> set plans \<and> blankCells ms np r
            \<longrightarrow> map_of ch np = Some (JObj [(''number'', JNum (Fin 0))]))
       \<and> (\<forall>k \<in> set (planKeys jt (newSet (map fst ei)) (newSet (map fst ni))). \<forall>r pg.
             map_of ei k = Some r \<and> map_of ni k = Some pg
             \<and> blankCells ms np r \<and> passesGate eng oue pg np
             \<longrightarrow> (\<exists>ch. PlanUpdate k r pg ch \<in> set plans
                       \<and> map_of ch np = Some (JObj [(''number'', JNum (Fin 0))]))))
   \<and> (\<forall>plans d.
         buildPlannedUpdates_v2 eng ei ni jt ms dps oue acp = Inr plans
         \<and> np \<noteq> [] \<and> np \<noteq> ''__proto__''
         \<and> findDef dps np = Some d \<and> prop_type d = ''number''
       \<longrightarrow>
         (\<forall>k r pg ch. PlanUpdate k r pg ch \<in> set plans \<and> blankCells ms np r \<and> passesGate eng oue pg np
            \<longrightarrow> map_of ch np = Some (JObj [(''number'', JNum (Fin 0))]))
       \<and> (\<forall>k r ch. PlanCreate k r ch \<in> set plans \<and> blankCells ms np r
            \<longrightarrow> map_of ch np = Some (JObj [(''number'', JNum (Fin 0))]))
       \<and> (\<forall>k \<in> set (planKeys jt (newSet (map fst ei)) (newSet (map fst ni))). \<forall>r pg.
             map_of ei k = Some r \<and> map_of ni k = Some pg
             \<and> blankCells ms np r \<and> passesGate eng oue pg np
             \<longrightarrow> (\<exists>ch. PlanUpdate k r pg ch \<in> set plans
                       \<and> map_of ch np = Some (JObj [(''number'', JNum (Fin 0))]))))"
proof -
  let ?zero = "JObj [(''number'', JNum (Fin 0))]"
  have enc: "buildNotionPropertyValue eng ''number'' (JStr []) csv = ?zero"
    by (rule encode_blank_number)
  have def: "buildNotionPropertyValue eng ''number'' (JStr []) csv \<noteq> JUndefined"
    by (simp add: enc)
  have num: "jsNumber eng (JStr []) = Fin 0" by simp
  have fin: "isFinite (jsNumber eng (JStr []))" by (simp add: isFinite_def)
  have v1: "map_of ch np = Some ?zero"
    if "np \<noteq> []" "np \<noteq> ''__proto__''" "blankCells ms np r"
       "map_of (selectedDbPropDefs dps) np = Some d" "prop_type d = ''number''"
       "passesGate eng oue pg np"
       "updateChanges eng (selectedDbPropDefs dps) oue r pg ms [] = Inr ch" for d ch r pg
  proof -
    from that(3) have ex: "\<exists>m \<in> set ms. notionProperty m = np"
      and all: "\<forall>m \<in> set ms. notionProperty m = np \<longrightarrow> js_get (JObj r) (excelColumn m) = JStr []"
      by (simp_all add: blankCells_def del: js_get.simps)
    from that(6) have gate: "oue \<longrightarrow>
        getNotionPropertyPlainValue eng (js_get (JObj (properties pg)) np) = Inr JNull
        \<or> getNotionPropertyPlainValue eng (js_get (JObj (properties pg)) np) = Inr (JStr [])"
      by (simp add: passesGate_def del: js_get.simps)
    from updateChanges_blank[OF that(7) all that(4) that(5) that(1) that(2) gate] ex
    show ?thesis by simp
  qed
  have v2: "map_of ch np = Some ?zero"
    if "np \<noteq> []" "np \<noteq> ''__proto__''" "blankCells ms np r"
       "findDef dps np = Some d" "prop_type d = ''number''"
       "passesGate eng oue pg np"
       "updateChanges_v2 eng dps oue r pg ms [] = Inr ch" for d ch r pg
  proof -
    from that(3) have ex: "\<exists>m \<in> set ms. notionProperty m = np"
      and all: "\<forall>m \<in> set ms. notionProperty m = np \<longrightarrow> js_get (JObj r) (excelColumn m) = JStr []"
      by (simp_all add: blankCells_def del: js_get.simps)
    from that(6) have gate: "oue \<longrightarrow>
        getNotionPropertyPlainValue eng (js_get (JObj (properties pg)) np) = Inr JNull
        \<or> getNotionPropertyPlainValue eng (js_get (JObj (properties pg)) np) = Inr (JStr [])"
      by (simp add: passesGate_def del: js_get.simps)
    from updateChanges_v2_blank[OF that(7) all that(4) that(5) that(1) that(2) gate] ex
    show ?thesis by simp
  qed
  have c: "map_of (createChanges eng defOf r ms []) np = Some ?zero"
    if "np \<noteq> []" "np \<noteq> ''__proto__''" "blankCells ms np r"
       "defOf np = Some d" "prop_type d = ''number''" for d defOf r
  proof -
    from that(3) have ex: "\<exists>m \<in> set ms. notionProperty m = np"
      and all: "\<forall>m \<in> set ms. notionProperty m = np \<longrightarrow> js_get (JObj r) (excelColumn m) = JStr []"
      by (simp_all add: blankCells_def del: js_get.simps)
    from createChanges_blank[where defOf = defOf and np = np and d = d and eng = eng and acc = "[]",
            OF all that(4) that(5) that(1) that(2)] ex
    show ?thesis by simp
  qed
  have staged:
    "np \<noteq> [] \<and> np \<noteq> ''__proto__'' \<and> blankCells ms np row
     \<longrightarrow>
     (\<forall>d ch. map_of (selectedDbPropDefs dps) np = Some d \<and> prop_type d = ''number''
              \<and> passesGate eng oue page np
              \<and> updateChanges eng (selectedDbPropDefs dps) oue row page ms [] = Inr ch
         \<longrightarrow> map_of ch np = Some ?zero)
     \<and> (\<forall>d ch. findDef dps np = Some d \<and> prop_type d = ''number''
              \<and> passesGate eng oue page np
              \<and> updateChanges_v2 eng dps oue row page ms [] = Inr ch
         \<longrightarrow> map_of ch np = Some ?zero)
     \<and> (\<forall>d. map_of (selectedDbPropDefs dps) np = Some d \<and> prop_type d = ''number''
         \<longrightarrow> map_of (createChanges eng (map_of (selectedDbPropDefs dps)) row ms []) np = Some ?zero)
     \<and> (\<forall>d. findDef dps np = Some d \<and> prop_type d = ''number''
         \<longrightarrow> map_of (createChanges eng (findDef dps) row ms []) np = Some ?zero)"
  proof (rule impI)
    assume h: "np \<noteq> [] \<and> np \<noteq> ''__proto__'' \<and> blankCells ms np row"
    have u1: "map_of ch np = Some ?zero"
      if "map_of (selectedDbPropDefs dps) np = Some d \<and> prop_type d = ''number''
              \<and> passesGate eng oue page np
              \<and> updateChanges eng (selectedDbPropDefs dps) oue row page ms [] = Inr ch" for d ch
      using h that v1[of row d page ch] by blast
    have u2: "map_of ch np = Some ?zero"
      if "findDef dps np = Some d \<and> prop_type d = ''number''
              \<and> passesGate eng oue page np
              \<and> updateChanges_v2 eng dps oue row page ms [] = Inr ch" for d ch
      using h that v2[of row d page ch] by blast
    have c1: "map_of (createChanges eng (map_of (selectedDbPropDefs dps)) row ms []) np = Some ?zero"
      if "map_of (selectedDbPropDefs dps) np = Some d \<and> prop_type d = ''number''" for d
      using h that c[of row "map_of (selectedDbPropDefs dps)" d] by blast
    have c2: "map_of (createChanges eng (findDef dps) row ms []) np = Some ?zero"
      if "findDef dps np = Some d \<and> prop_type d = ''number''" for d
      using h that c[of row "findDef dps" d] by blast
    show "(\<forall>d ch. map_of (selectedDbPropDefs dps) np = Some d \<and> prop_type d = ''number''
              \<and> passesGate eng oue page np
              \<and> updateChanges eng (selectedDbPropDefs dps) oue row page ms [] = Inr ch
         \<longrightarrow> map_of ch np = Some ?zero)
     \<and> (\<forall>d ch. findDef dps np = Some d \<and> prop_type d = ''number''
              \<and> passesGate eng oue page np
              \<and> updateChanges_v2 eng dps oue row page ms [] = Inr ch
         \<longrightarrow> map_of ch np = Some ?zero)
     \<and> (\<forall>d. map_of (selectedDbPropDefs dps) np = Some d \<and> prop_type d = ''number''
         \<longrightarrow> map_of (createChanges eng (map_of (selectedDbPropDefs dps)) row ms []) np = Some ?zero)
     \<and> (\<forall>d. findDef dps np = Some d \<and> prop_type d = ''number''
         \<longrightarrow> map_of (createChanges eng (findDef dps) row ms []) np = Some ?zero)"
      by (intro conjI allI impI) (erule u1 u2 c1 c2)+
  qed
  have p1: "\<forall>plans d.
         buildPlannedUpdates eng ei ni jt ms dps oue acp = Inr plans
         \<and> np \<noteq> [] \<and> np \<noteq> ''__proto__''
         \<and> map_of (selectedDbPropDefs dps) np = Some d \<and> prop_type d = ''number''
       \<longrightarrow>
         (\<forall>k r pg ch. PlanUpdate k r pg ch \<in> set plans \<and> blankCells ms np r \<and> passesGate eng oue pg np
            \<longrightarrow> map_of ch np = Some ?zero)
       \<and> (\<forall>k r ch. PlanCreate k r ch \<in> set plans \<and> blankCells ms np r
            \<longrightarrow> map_of ch np = Some ?zero)
       \<and> (\<forall>k \<in> set (planKeys jt (newSet (map fst ei)) (newSet (map fst ni))). \<forall>r pg.
             map_of ei k = Some r \<and> map_of ni k = Some pg
             \<and> blankCells ms np r \<and> passesGate eng oue pg np
             \<longrightarrow> (\<exists>ch. PlanUpdate k r pg ch \<in> set plans \<and> map_of ch np = Some ?zero))"
  proof (intro allI, rule impI)
    fix plans d
    assume h: "buildPlannedUpdates eng ei ni jt ms dps oue acp = Inr plans
         \<and> np \<noteq> [] \<and> np \<noteq> ''__proto__''
         \<and> map_of (selectedDbPropDefs dps) np = Some d \<and> prop_type d = ''number''"
    then have loop: "plansLoop
       (planForKey
          (\<lambda>excelRow page. updateChanges eng (selectedDbPropDefs dps) oue excelRow page ms [])
          (\<lambda>excelRow. createChanges eng (map_of (selectedDbPropDefs dps)) excelRow ms [])
          ei ni jt acp)
       (planKeys jt (newSet (map fst ei)) (newSet (map fst ni))) [] = Inr plans"
      by (simp only: buildPlannedUpdates_def)
    show "(\<forall>k r pg ch. PlanUpdate k r pg ch \<in> set plans \<and> blankCells ms np r \<and> passesGate eng oue pg np
            \<longrightarrow> map_of ch np = Some ?zero)
       \<and> (\<forall>k r ch. PlanCreate k r ch \<in> set plans \<and> blankCells ms np r
            \<longrightarrow> map_of ch np = Some ?zero)
       \<and> (\<forall>k \<in> set (planKeys jt (newSet (map fst ei)) (newSet (map fst ni))). \<forall>r pg.
             map_of ei k = Some r \<and> map_of ni k = Some pg
             \<and> blankCells ms np r \<and> passesGate eng oue pg np
             \<longrightarrow> (\<exists>ch. PlanUpdate k r pg ch \<in> set plans \<and> map_of ch np = Some ?zero))"
    proof (rule planner_blank[OF loop])
      fix r pg ch
      assume "updateChanges eng (selectedDbPropDefs dps) oue r pg ms [] = Inr ch"
         and "blankCells ms np r" and "passesGate eng oue pg np"
      with h show "map_of ch np = Some ?zero" using v1[of r d pg ch] by blast
    next
      fix r
      assume "blankCells ms np r"
      with h show "map_of (createChanges eng (map_of (selectedDbPropDefs dps)) r ms []) np = Some ?zero"
        using c[of r "map_of (selectedDbPropDefs dps)" d] by blast
    qed
  qed
  have p2: "\<forall>plans d.
         buildPlannedUpdates_v2 eng ei ni jt ms dps oue acp = Inr plans
         \<and> np \<noteq> [] \<and> np \<noteq> ''__proto__''
         \<and> findDef dps np = Some d \<and> prop_type d = ''number''
       \<longrightarrow>
         (\<forall>k r pg ch. PlanUpdate k r pg ch \<in> set plans \<and> blankCells ms np r \<and> passesGate eng oue pg np
            \<longrightarrow> map_of ch np = Some ?zero)
       \<and> (\<forall>k r ch. PlanCreate k r ch \<in> set plans \<and> blankCells ms np r
            \<longrightarrow> map_of ch np = Some ?zero)
       \<and> (\<forall>k \<in> set (planKeys jt (newSet (map fst ei)) (newSet (map fst ni))). \<forall>r pg.
             map_of ei k = Some r \<and> map_of ni k = Some pg
             \<and> blankCells ms np r \<and> passesGate eng oue pg np
             \<longrightarrow> (\<exists>ch. PlanUpdate k r pg ch \<in> set plans \<and> map_of ch np = Some ?zero))"
  proof (intro allI, rule impI)
    fix plans d
    assume h: "buildPlannedUpdates_v2 eng ei ni jt ms dps oue acp = Inr plans
         \<and> np \<noteq> [] \<and> np \<noteq> ''__proto__''
         \<and> findDef dps np = Some d \<and> prop_type d = ''number''"
    then have loop: "plansLoop
       (planForKey
          (\<lambda>excelRow page. updateChanges_v2 eng dps oue excelRow page ms [])
          (\<lambda>excelRow. createChanges eng (findDef dps) excelRow ms [])
          ei ni jt acp)
       (planKeys jt (newSet (map fst ei)) (newSet (map fst ni))) [] = Inr plans"
      by (simp only: buildPlannedUpdates_v2_def)
    show "(\<forall>k r pg ch. PlanUpdate k r pg ch \<in> set plans \<and> blankCells ms np r \<and> passesGate eng oue pg np
            \<longrightarrow> map_of ch np = Some ?zero)
       \<and> (\<forall>k r ch. PlanCreate k r ch \<in> set plans \<and> blankCells ms np r
            \<longrightarrow> map_of ch np = Some ?zero)
       \<and> (\<forall>k \<in> set (planKeys jt (newSet (map fst ei)) (newSet (map fst ni))). \<forall>r pg.
             map_of ei k = Some r \<and> map_of ni k = Some pg
             \<and> blankCells ms np r \<and> passesGate eng oue pg np
             \<longrightarrow> (\<exists>ch. PlanUpdate k r pg ch \<in> set plans \<and> map_of ch np = Some ?zero))"
    proof (rule planner_blank[OF loop])
      fix r pg ch
      assume "updateChanges_v2 eng dps oue r pg ms [] = Inr ch"
         and "blankCells ms np r" and "passesGate eng oue pg np"
      with h show "map_of ch np = Some ?zero" using v2[of r d pg ch] by blast
    next
      fix r
      assume "blankCells ms np r"
      with h show "map_of (createChanges eng (findDef dps) r ms []) np = Some ?zero"
        using c[of r "findDef dps" d] by blast
    qed
  qed
  show ?thesis
    by (intro conjI) (rule enc def num fin staged p1 p2)+
qed

theorem blank_cell_number_stages_zero_witness:
  "blankCells [amountMapping] ''Amount'' sheetRow1
   \<and> map_option prop_type (map_of (selectedDbPropDefs mockDbProps) ''Amount'') = Some ''number''
   \<and> map_option prop_type (findDef mockDbProps ''Amount'') = Some ''number''
   \<and> passesGate plainEngine False mockPage1 ''Amount''
   \<and> updateChanges plainEngine (selectedDbPropDefs mockDbProps) False sheetRow1 mockPage1
        [amountMapping] [] = Inr [(''Amount'', JObj [(''number'', JNum (Fin 0))])]
   \<and> updateChanges_v2 plainEngine mockDbProps False sheetRow1 mockPage1
        [amountMapping] [] = Inr [(''Amount'', JObj [(''number'', JNum (Fin 0))])]
   \<and> map_of [(''Amount'', JObj [(''number'', JNum (Fin 0))])] ''Amount''
        = Some (JObj [(''number'', JNum (Fin 0))])
   \<and> getNotionPropertyPlainValue plainEngine (js_get (JObj (properties mockPage4)) ''Amount'')
        = Inr JNull
   \<and> passesGate plainEngine True mockPage4 ''Amount''
   \<and> updateChanges plainEngine (selectedDbPropDefs mockDbProps) True sheetRow1 mockPage4
        [amountMapping] [] = Inr [(''Amount'', JObj [(''number'', JNum (Fin 0))])]
   \<and> updateChanges_v2 plainEngine mockDbProps True sheetRow1 mockPage4
        [amountMapping] [] = Inr [(''Amount'', JObj [(''number'', JNum (Fin 0))])]
   \<and> map_of (createChanges plainEngine (map_of (selectedDbPropDefs mockDbProps)) sheetRow1
                 [amountMapping] []) ''Amount''
        = Some (JObj [(''number'', JNum (Fin 0))])
   \<and> map_of (createChanges plainEngine (findDef mockDbProps) sheetRow1 [amountMapping] []) ''Amount''
        = Some (JObj [(''number'', JNum (Fin 0))])
   \<and> createChanges plainEngine (findDef mockDbProps) sheetRow1 [amountMapping] []
        = [(''Amount'', JObj [(''number'', JNum (Fin 0))])]
   \<and> buildPlannedUpdates plainEngine [(''A001'', sheetRow1)] [(''A001'', mockPage4)] JoinInner
        [amountMapping] mockDbProps True False
        = Inr [PlanUpdate ''A001'' sheetRow1 mockPage4 [(''Amount'', JObj [(''number'', JNum (Fin 0))])]]
   \<and> (\<exists>ch. PlanUpdate ''A001'' sheetRow1 mockPage4 ch
               \<in> set [PlanUpdate ''A001'' sheetRow1 mockPage4
                         [(''Amount'', JObj [(''number'', JNum (Fin 0))])]]
             \<and> map_of ch ''Amount'' = Some (JObj [(''number'', JNum (Fin 0))]))
   \<and> buildPlannedUpdates_v2 plainEngine [(''A001'', sheetRow1)] [] JoinLeft
        [amountMapping] mockDbProps True True
        = Inr [PlanCreate ''A001'' sheetRow1 [(''Amount'', JObj [(''number'', JNum (Fin 0))])]]"
proof -
  let ?zero = "JObj [(''number'', JNum (Fin 0))]"
  let ?amount = "\<lparr>prop_name = ''Amount'', prop_type = ''number'', prop_options = Some []\<rparr>"
  have m: "notionProperty amountMapping = ''Amount''" "excelColumn amountMapping = ''Amount''"
    by (simp_all add: amountMapping_def)
  have cell: "js_get (JObj sheetRow1) ''Amount'' = JStr []"
    by code_simp
  have bl: "blankCells [amountMapping] ''Amount'' sheetRow1"
    unfolding blankCells_def using cell by (simp add: m del: js_get.simps)
  have d1: "map_of (selectedDbPropDefs mockDbProps) ''Amount'' = Some ?amount"
    by code_simp
  have d2: "findDef mockDbProps ''Amount'' = Some ?amount"
    by code_simp
  have g1: "passesGate plainEngine False mockPage1 ''Amount''"
    by (simp add: passesGate_def)
  have u1: "updateChanges plainEngine (selectedDbPropDefs mockDbProps) False sheetRow1 mockPage1
              [amountMapping] [] = Inr [(''Amount'', ?zero)]"
    by code_simp
  have u2: "updateChanges_v2 plainEngine mockDbProps False sheetRow1 mockPage1
              [amountMapping] [] = Inr [(''Amount'', ?zero)]"
    by code_simp
  have x4: "getNotionPropertyPlainValue plainEngine (js_get (JObj (properties mockPage4)) ''Amount'')
              = Inr JNull"
    by code_simp
  have g4: "passesGate plainEngine True mockPage4 ''Amount''"
    unfolding passesGate_def using x4 by blast
  have u3: "updateChanges plainEngine (selectedDbPropDefs mockDbProps) True sheetRow1 mockPage4
              [amountMapping] [] = Inr [(''Amount'', ?zero)]"
    by code_simp
  have u4: "updateChanges_v2 plainEngine mockDbProps True sheetRow1 mockPage4
              [amountMapping] [] = Inr [(''Amount'', ?zero)]"
    by code_simp
  have cr: "createChanges plainEngine (findDef mockDbProps) sheetRow1 [amountMapping] []
              = [(''Amount'', ?zero)]"
    by code_simp
  have b1: "buildPlannedUpdates plainEngine [(''A001'', sheetRow1)] [(''A001'', mockPage4)] JoinInner
              [amountMapping] mockDbProps True False
              = Inr [PlanUpdate ''A001'' sheetRow1 mockPage4 [(''Amount'', ?zero)]]"
    by code_simp
  have b2: "buildPlannedUpdates_v2 plainEngine [(''A001'', sheetRow1)] [] JoinLeft
              [amountMapping] mockDbProps True True
              = Inr [PlanCreate ''A001'' sheetRow1 [(''Amount'', ?zero)]]"
    by code_simp
  have ks: "''A001'' \<in> set (planKeys JoinInner (newSet (map fst [(''A001'', sheetRow1)]))
                                (newSet (map fst [(''A001'', mockPage4)])))"
    by code_simp
  have r1: "map_of [(''A001'', sheetRow1)] ''A001'' = Some sheetRow1" by simp
  have r2: "map_of [(''A001'', mockPage4)] ''A001'' = Some mockPage4" by simp
  have ty: "prop_type ?amount = ''number''"
    by simp
  have ne: "''Amount'' \<noteq> []" by simp
  have np: "''Amount'' \<noteq> ''__proto__''" by simp
  note t1 = blank_cell_number_stages_zero
         [where eng = plainEngine and np = "''Amount''" and ms = "[amountMapping]"
            and row = sheetRow1 and dps = mockDbProps and page = mockPage1 and oue = False]
  note t2 = blank_cell_number_stages_zero
         [where eng = plainEngine and np = "''Amount''" and ms = "[amountMapping]"
            and row = sheetRow1 and dps = mockDbProps and page = mockPage4 and oue = True
            and ei = "[(''A001'', sheetRow1)]" and ni = "[(''A001'', mockPage4)]"
            and jt = JoinInner and acp = False]
  note hyp = conjI[OF ne conjI[OF np bl]]
  note s1 = t1[THEN conjunct2, THEN conjunct2, THEN conjunct2, THEN conjunct2, THEN conjunct1,
               THEN mp, OF hyp]
  note s2 = t2[THEN conjunct2, THEN conjunct2, THEN conjunct2, THEN conjunct2, THEN conjunct1,
               THEN mp, OF hyp]
  have c: "map_of [(''Amount'', ?zero)] ''Amount'' = Some ?zero"
    by (rule s1[THEN conjunct1, THEN spec, THEN spec, THEN mp,
                OF conjI[OF d1 conjI[OF ty conjI[OF g1 u1]]]])
  have k1: "map_of (createChanges plainEngine (map_of (selectedDbPropDefs mockDbProps)) sheetRow1
                      [amountMapping] []) ''Amount'' = Some ?zero"
    by (rule s2[THEN conjunct2, THEN conjunct2, THEN conjunct1, THEN spec, THEN mp,
                OF conjI[OF d1 ty]])
  have k2: "map_of (createChanges plainEngine (findDef mockDbProps) sheetRow1 [amountMapping] [])
              ''Amount'' = Some ?zero"
    by (rule s2[THEN conjunct2, THEN conjunct2, THEN conjunct2, THEN spec, THEN mp,
                OF conjI[OF d2 ty]])
  note p1 = t2[THEN conjunct2, THEN conjunct2, THEN conjunct2, THEN conjunct2, THEN conjunct2,
               THEN conjunct1, THEN spec, THEN spec, THEN mp,
               OF conjI[OF b1 conjI[OF ne conjI[OF np conjI[OF d1 ty]]]]]
  note p1c = p1[THEN conjunct2, THEN conjunct2, THEN bspec, OF ks, THEN spec, THEN spec, THEN mp,
                OF conjI[OF r1 conjI[OF r2 conjI[OF bl g4]]]]
  have pl: "\<exists>ch. PlanUpdate ''A001'' sheetRow1 mockPage4 ch
                 \<in> set [PlanUpdate ''A001'' sheetRow1 mockPage4 [(''Amount'', ?zero)]]
               \<and> map_of ch ''Amount'' = Some ?zero"
    by (rule p1c)
  have t1': "map_option prop_type (map_of (selectedDbPropDefs mockDbProps) ''Amount'') = Some ''number''"
    by (simp add: d1)
  have t2': "map_option prop_type (findDef mockDbProps ''Amount'') = Some ''number''"
    by (simp add: d2)
  show ?thesis
    by (intro conjI) (rule bl t1' t2' g1 u1 u2 c x4 g4 u3 u4 k1 k2 cr b1 pl b2)+
qed

section \<open>Properties of the option reconciler\<close>

lemma fold_set_add_firstSeen:
  "distinct acc \<Longrightarrow> fold set_add xs acc = acc @ firstSeenOrder (filter (\<lambda>x. x \<notin> set acc) xs)"
proof (induction xs arbitrary: acc)
  case Nil
  then show ?case by simp
next
  case (Cons x xs)
  show ?case
  proof (cases "x \<in> set acc")
    case True
    with Cons show ?thesis by (simp add: set_add_def)
  next
    case False
    have f: "filter (\<lambda>y. y \<noteq> x) (filter (\<lambda>y. y \<notin> set acc) xs) = filter (\<lambda>y. y \<notin> set (acc @ [x])) xs"
      by (induction xs) auto
    from False Cons.prems have "distinct (acc @ [x])" by simp
    from Cons.IH[OF this] False f show ?thesis by (simp add: set_add_def)
  qed
qed

lemma newSet_firstSeen: "newSet xs = firstSeenOrder xs"
  using fold_set_add_firstSeen[of "[]" xs] by (simp add: newSet_def)

lemma newSet_snoc: "newSet (xs @ [x]) = set_add x (newSet xs)"
  by (simp add: newSet_def)

lemma set_firstSeenOrder [simp]: "set (firstSeenOrder xs) = set xs"
  using set_newSet[of xs] by (simp add: newSet_firstSeen)

lemma distinct_firstSeenOrder [simp]: "distinct (firstSeenOrder xs)"
  using distinct_fold_set_add[of "[]" xs] by (simp add: newSet_firstSeen[symmetric] newSet_def)

lemma groupNeeded_snoc:
  "groupNeeded (needed @ [n]) =
     (let grouped = groupNeeded needed;
          g = (case map_of grouped (prop_name (fst n)) of Some g' \<Rightarrow> g' | None \<Rightarrow> (fst n, []))
      in AList.update (prop_name (fst n)) (fst g, set_add (snd n) (snd g)) grouped)"
  by (simp add: groupNeeded_def Let_def)

lemma referencedNames_snoc:
  "referencedNames (needed @ [n]) pn =
     (if prop_name (fst n) = pn then referencedNames needed pn @ [snd n] else referencedNames needed pn)"
  by (simp add: referencedNames_def)

lemma referencedNames_Nil_iff:
  "referencedNames needed pn = [] \<longleftrightarrow> filter (\<lambda>n. prop_name (fst n) = pn) needed = []"
  by (simp add: referencedNames_def)

lemma map_of_groupNeeded:
  "map_of (groupNeeded needed) pn =
     (if referencedNames needed pn = [] then None
      else Some (fst (hd (filter (\<lambda>n. prop_name (fst n) = pn) needed)),
                 newSet (referencedNames needed pn)))"
proof (induction needed rule: rev_induct)
  case Nil
  then show ?case by (simp add: groupNeeded_def referencedNames_def)
next
  case (snoc n needed)
  show ?case
  proof (cases "prop_name (fst n) = pn")
    case False
    with snoc show ?thesis
      by (simp add: groupNeeded_snoc Let_def update_conv' referencedNames_snoc)
  next
    case True
    show ?thesis
    proof (cases "referencedNames needed pn = []")
      case e: True
      then have "filter (\<lambda>n. prop_name (fst n) = pn) needed = []"
        by (simp add: referencedNames_Nil_iff)
      with snoc True e show ?thesis
        by (simp add: groupNeeded_snoc Let_def update_conv' referencedNames_snoc newSet_def)
    next
      case ne: False
      then have "filter (\<lambda>n. prop_name (fst n) = pn) needed \<noteq> []"
        by (simp add: referencedNames_Nil_iff)
      with snoc True ne show ?thesis
        by (simp add: groupNeeded_snoc Let_def update_conv' referencedNames_snoc newSet_snoc)
    qed
  qed
qed

lemma distinct_groupNeeded: "distinct (map fst (groupNeeded needed))"
  by (induction needed rule: rev_induct)
     (simp_all add: groupNeeded_snoc Let_def distinct_update, simp add: groupNeeded_def)

lemma map_of_fold_update_val:
  "map_of (fold (\<lambda>x m. if P x then AList.update (kf x) (vf x) m else m) xs acc) k =
     (if filter (\<lambda>x. P x \<and> kf x = k) xs = [] then map_of acc k
      else Some (vf (last (filter (\<lambda>x. P x \<and> kf x = k) xs))))"
  by (induction xs arbitrary: acc) (auto simp: update_conv')

lemma distinct_fold_update_val:
  "distinct (map fst acc) \<Longrightarrow>
     distinct (map fst (fold (\<lambda>x m. if P x then AList.update (kf x) (vf x) m else m) xs acc))"
  by (induction xs arbitrary: acc) (auto simp: distinct_update)

lemma fold_update_none:
  "\<forall>x \<in> set xs. \<not> P x \<Longrightarrow> fold (\<lambda>x m. if P x then AList.update (kf x) (vf x) m else m) xs acc = acc"
  by (induction xs arbitrary: acc) auto

lemma filter_key_distinct:
  "distinct (map fst al) \<Longrightarrow>
     filter (\<lambda>g. fst g = k) al = (case map_of al k of None \<Rightarrow> [] | Some v \<Rightarrow> [(k, v)])"
proof (induction al)
  case Nil
  then show ?case by simp
next
  case (Cons a al)
  obtain k' v' where a: "a = (k', v')" by (cases a)
  show ?case
  proof (cases "k' = k")
    case True
    with Cons.prems a have "k \<notin> fst ` set al" by auto
    then have "filter (\<lambda>g. fst g = k) al = []"
      by (auto simp: filter_empty_conv)
    with True a show ?thesis by simp
  next
    case False
    with Cons a show ?thesis by simp
  qed
qed

lemma buildUpdateProps_js_set:
  "buildUpdateProps grouped =
     fold (\<lambda>g m. if missingNames (fst (snd g)) (snd (snd g)) \<noteq> []
                  then js_set (prop_name (fst (snd g)))
                         (prop_type (fst (snd g)),
                          currentOptions (Some (fst (snd g)))
                            @ map newOption (missingNames (fst (snd g)) (snd (snd g)))) m
                  else m) grouped []"
  unfolding buildUpdateProps_def Let_def missingNames_def by simp

lemma buildUpdateProps_fold:
  "buildUpdateProps grouped =
     fold (\<lambda>g m. if missingNames (fst (snd g)) (snd (snd g)) \<noteq> []
                     \<and> prop_name (fst (snd g)) \<noteq> ''__proto__''
                  then AList.update (prop_name (fst (snd g)))
                         (prop_type (fst (snd g)),
                          currentOptions (Some (fst (snd g)))
                            @ map newOption (missingNames (fst (snd g)) (snd (snd g)))) m
                  else m) grouped []"
  unfolding buildUpdateProps_js_set by (rule fold_js_set) simp

lemma map_of_buildUpdateProps:
  assumes cons: "\<forall>n \<in> set needed. defOf (prop_name (fst n)) = Some (fst n)"
  shows "map_of (buildUpdateProps (groupNeeded needed)) pn =
     (case defOf pn of
        None \<Rightarrow> None
      | Some d \<Rightarrow>
          if pn = ''__proto__'' \<or> missingNames d (firstSeenOrder (referencedNames needed pn)) = []
          then None
          else Some (prop_type d,
                     currentOptions (Some d)
                       @ map newOption (missingNames d (firstSeenOrder (referencedNames needed pn)))))"
proof -
  let ?G = "groupNeeded needed"
  let ?P = "\<lambda>g. missingNames (fst (snd g)) (snd (snd g)) \<noteq> []
                 \<and> prop_name (fst (snd g)) \<noteq> ''__proto__''"
  let ?kf = "\<lambda>g. prop_name (fst (snd g))"
  let ?vf = "\<lambda>g. (prop_type (fst (snd g)),
                    currentOptions (Some (fst (snd g)))
                      @ map newOption (missingNames (fst (snd g)) (snd (snd g))))"
  let ?F = "filter (\<lambda>n. prop_name (fst n) = pn) needed"
  have entry: "fst g = ?kf g" if "g \<in> set ?G" for g
  proof -
    obtain k d names where g: "g = (k, d, names)" by (cases g)
    from that g distinct_groupNeeded[of needed] have "map_of ?G k = Some (d, names)" by simp
    then have ne: "referencedNames needed k \<noteq> []"
      and d: "d = fst (hd (filter (\<lambda>n. prop_name (fst n) = k) needed))"
      by (auto simp: map_of_groupNeeded split: if_splits)
    from ne have "filter (\<lambda>n. prop_name (fst n) = k) needed \<noteq> []"
      by (simp add: referencedNames_Nil_iff)
    then have "hd (filter (\<lambda>n. prop_name (fst n) = k) needed)
                 \<in> set (filter (\<lambda>n. prop_name (fst n) = k) needed)"
      by (rule hd_in_set)
    with d have "prop_name d = k" by auto
    with g show ?thesis by simp
  qed
  have flt: "filter (\<lambda>g. ?P g \<and> ?kf g = pn) ?G = filter ?P (filter (\<lambda>g. fst g = pn) ?G)"
    using entry by (auto intro!: filter_cong)
  note sel = filter_key_distinct[OF distinct_groupNeeded, of pn needed]
  show ?thesis
  proof (cases "referencedNames needed pn = []")
    case True
    then have "map_of ?G pn = None" by (simp add: map_of_groupNeeded)
    with sel flt have "filter (\<lambda>g. ?P g \<and> ?kf g = pn) ?G = []" by simp
    with map_of_fold_update_val[of ?P ?kf ?vf ?G "[]" pn]
    have "map_of (buildUpdateProps ?G) pn = None"
      by (simp add: buildUpdateProps_fold)
    moreover from True have "missingNames d (firstSeenOrder (referencedNames needed pn)) = []" for d
      by (simp add: missingNames_def)
    ultimately show ?thesis by (simp split: option.splits)
  next
    case False
    then have ne: "?F \<noteq> []" by (simp add: referencedNames_Nil_iff)
    then have "hd ?F \<in> set ?F" by (rule hd_in_set)
    then have h: "hd ?F \<in> set needed" "prop_name (fst (hd ?F)) = pn" by auto
    with cons have d: "defOf pn = Some (fst (hd ?F))" by auto
    let ?d = "fst (hd ?F)"
    let ?names = "firstSeenOrder (referencedNames needed pn)"
    from False have g: "map_of ?G pn = Some (?d, ?names)"
      by (simp add: map_of_groupNeeded newSet_firstSeen)
    with sel flt have f: "filter (\<lambda>g. ?P g \<and> ?kf g = pn) ?G = filter ?P [(pn, ?d, ?names)]"
      by simp
    show ?thesis
    proof (cases "pn = ''__proto__'' \<or> missingNames ?d ?names = []")
      case True
      with f h(2) have "filter (\<lambda>g. ?P g \<and> ?kf g = pn) ?G = []" by auto
      with map_of_fold_update_val[of ?P ?kf ?vf ?G "[]" pn]
      have "map_of (buildUpdateProps ?G) pn = None"
        by (simp add: buildUpdateProps_fold)
      with d True show ?thesis by auto
    next
      case False
      with f h(2) have "filter (\<lambda>g. ?P g \<and> ?kf g = pn) ?G = [(pn, ?d, ?names)]" by simp
      with map_of_fold_update_val[of ?P ?kf ?vf ?G "[]" pn]
      have "map_of (buildUpdateProps ?G) pn = Some (?vf (pn, ?d, ?names))"
        by (simp add: buildUpdateProps_fold)
      with d False show ?thesis by simp
    qed
  qed
qed

lemma distinct_buildUpdateProps: "distinct (map fst (buildUpdateProps grouped))"
  using distinct_fold_update_val[of "[]"] by (simp add: buildUpdateProps_fold)

lemma buildUpdateProps_empty:
  assumes "\<forall>n \<in> set needed. snd n \<in> set (map opt_name (currentOptions (Some (fst n))))"
      and cons: "\<forall>n \<in> set needed. defOf (prop_name (fst n)) = Some (fst n)"
  shows "buildUpdateProps (groupNeeded needed) = []"
proof -
  have "map_of (buildUpdateProps (groupNeeded needed)) pn = None" for pn
  proof (cases "defOf pn")
    case None
    then show ?thesis by (simp add: map_of_buildUpdateProps[OF cons])
  next
    case (Some d)
    have "nm \<in> set (map opt_name (currentOptions (Some d)))"
      if "nm \<in> set (referencedNames needed pn)" for nm
    proof -
      from that obtain n where n: "n \<in> set needed" "prop_name (fst n) = pn" "snd n = nm"
        by (auto simp: referencedNames_def)
      with cons Some have "fst n = d" by auto
      with assms(1) n show ?thesis by auto
    qed
    then have "missingNames d (firstSeenOrder (referencedNames needed pn)) = []"
      by (auto simp: missingNames_def filter_empty_conv)
    with Some show ?thesis by (simp add: map_of_buildUpdateProps[OF cons])
  qed
  then have "fst ` set (buildUpdateProps (groupNeeded needed)) = {}"
    by (metis map_of_eq_None_iff equals0I)
  then show ?thesis by simp
qed

lemma payload_entry:
  assumes cons: "\<forall>n \<in> set needed. defOf (prop_name (fst n)) = Some (fst n)"
      and mem: "(pn, ty, opts) \<in> set (buildUpdateProps (groupNeeded needed))"
  shows "\<exists>d. defOf pn = Some d \<and> ty = prop_type d
            \<and> missingNames d (firstSeenOrder (referencedNames needed pn)) \<noteq> []
            \<and> opts = patchedOptions d (referencedNames needed pn)"
proof -
  from mem distinct_buildUpdateProps[of "groupNeeded needed"]
  have "map_of (buildUpdateProps (groupNeeded needed)) pn = Some (ty, opts)" by simp
  then show ?thesis
    by (auto simp: map_of_buildUpdateProps[OF cons] patchedOptions_def split: option.splits if_splits)
qed

lemma payload_complete:
  assumes cons: "\<forall>n \<in> set needed. defOf (prop_name (fst n)) = Some (fst n)"
      and d: "defOf pn = Some d" and pr: "pn \<noteq> ''__proto__''"
      and mis: "missingNames d (firstSeenOrder (referencedNames needed pn)) \<noteq> []"
  shows "(pn, prop_type d, patchedOptions d (referencedNames needed pn))
           \<in> set (buildUpdateProps (groupNeeded needed))"
proof -
  from d pr mis
  have "map_of (buildUpdateProps (groupNeeded needed)) pn
          = Some (prop_type d, patchedOptions d (referencedNames needed pn))"
    by (simp add: map_of_buildUpdateProps[OF cons] patchedOptions_def)
  then show ?thesis by (rule map_of_SomeD)
qed

lemma payload_no_proto:
  "(''__proto__'', v) \<notin> set (buildUpdateProps grouped)"
proof
  assume "(''__proto__'', v) \<in> set (buildUpdateProps grouped)"
  with distinct_buildUpdateProps[of grouped]
  have "map_of (buildUpdateProps grouped) ''__proto__'' = Some v" by simp
  moreover have "map_of (buildUpdateProps grouped) ''__proto__'' = None"
    using map_of_fold_update_val
            [of "\<lambda>g. missingNames (fst (snd g)) (snd (snd g)) \<noteq> []
                      \<and> prop_name (fst (snd g)) \<noteq> ''__proto__''"
                "\<lambda>g. prop_name (fst (snd g))" _ grouped "[]" "''__proto__''"]
    by (simp add: buildUpdateProps_fold)
  ultimately show False by simp
qed

lemma nameEntry_def_eq: "n \<in> set (nameEntry d nm b) \<Longrightarrow> fst n = d"
  by (cases nm) (auto simp: nameEntry_def split: if_splits)

lemma in_set_if_Nil: "x \<in> set (if c then xs else []) \<Longrightarrow> x \<in> set xs"
  by (cases c) simp_all

lemma neededOfChange_def_eq:
  assumes "n \<in> set (neededOfChange d val)"
  shows "fst n = d"
proof -
  let ?A = "nameEntry d (js_get (js_get val ''select'') ''name'') True"
  let ?C = "nameEntry d (js_get (js_get val ''status'') ''name'') True"
  let ?B = "case js_get val ''multi_select'' of
              JArr opts \<Rightarrow> concat (map (\<lambda>opt. nameEntry d (js_get opt ''name'') False) opts)
            | _ \<Rightarrow> []"
  from assms
  have "n \<in> set ((if prop_type d = ''select'' then ?A else [])
                 @ (if prop_type d = ''multi_select'' then ?B else [])
                 @ (if prop_type d = ''status'' then ?C else []))"
    by (simp only: neededOfChange_def)
  then have "n \<in> set ?A \<or> n \<in> set ?B \<or> n \<in> set ?C"
    by (simp only: set_append Un_iff) (blast dest: in_set_if_Nil)
  moreover have "fst n = d" if "n \<in> set ?B"
  proof (cases "js_get val ''multi_select''")
    case (JArr opts)
    with that obtain opt where "n \<in> set (nameEntry d (js_get opt ''name'') False)"
      by auto
    then show ?thesis by (rule nameEntry_def_eq)
  qed (use that in simp_all)
  ultimately show ?thesis
    using nameEntry_def_eq by blast
qed

lemma neededOfPlan_entry:
  assumes "n \<in> set (neededOfPlan defOf plan)"
  shows "\<exists>pn d val. defOf pn = Some d \<and> n \<in> set (neededOfChange d val)"
proof -
  have ch: "\<exists>pn d val. defOf pn = Some d \<and> n \<in> set (neededOfChange d val)"
    if "n \<in> set (concat (map (\<lambda>(propName, val).
                           case defOf propName of
                             None \<Rightarrow> []
                           | Some def \<Rightarrow> neededOfChange def val) changes))" for changes
  proof -
    from that obtain pn val where "(pn, val) \<in> set changes"
      and n: "n \<in> set (case defOf pn of None \<Rightarrow> [] | Some def \<Rightarrow> neededOfChange def val)"
      by auto
    from n obtain d where "defOf pn = Some d" "n \<in> set (neededOfChange d val)"
      by (cases "defOf pn") auto
    then show ?thesis by blast
  qed
  show ?thesis
  proof (cases plan)
    case (PlanUpdate k excel page changes)
    with assms show ?thesis
      by (intro ch[of changes]) (simp only: neededOfPlan_def Let_def Plan.case)
  next
    case (PlanCreate k excel changes)
    with assms show ?thesis
      by (intro ch[of changes]) (simp only: neededOfPlan_def Let_def Plan.case)
  next
    case (PlanSkip k excel page reason)
    with assms show ?thesis by (simp add: neededOfPlan_def)
  qed
qed

lemma collectNeeded_cons:
  assumes names: "\<And>pn d. defOf pn = Some d \<Longrightarrow> prop_name d = pn"
  shows "\<forall>n \<in> set (collectNeeded defOf plans). defOf (prop_name (fst n)) = Some (fst n)"
proof
  fix n assume "n \<in> set (collectNeeded defOf plans)"
  then obtain plan where "n \<in> set (neededOfPlan defOf plan)"
    by (auto simp: collectNeeded_def)
  from neededOfPlan_entry[OF this]
  obtain pn val d where d: "defOf pn = Some d" and n: "n \<in> set (neededOfChange d val)"
    by blast
  from neededOfChange_def_eq[OF n] names[OF d] d
  show "defOf (prop_name (fst n)) = Some (fst n)" by simp
qed

lemma groupNames_snoc:
  "groupNames (needed @ [n]) =
     (let byProp = groupNames needed;
          names = (case map_of byProp (prop_name (fst n)) of Some s \<Rightarrow> s | None \<Rightarrow> [])
      in AList.update (prop_name (fst n)) (set_add (snd n) names) byProp)"
  by (simp add: groupNames_def Let_def)

lemma map_of_groupNames:
  "map_of (groupNames needed) pn =
     (if referencedNames needed pn = [] then None else Some (newSet (referencedNames needed pn)))"
proof (induction needed rule: rev_induct)
  case Nil
  then show ?case by (simp add: groupNames_def referencedNames_def)
next
  case (snoc n needed)
  show ?case
  proof (cases "prop_name (fst n) = pn")
    case False
    with snoc show ?thesis
      by (simp add: groupNames_snoc Let_def update_conv' referencedNames_snoc)
  next
    case True
    with snoc show ?thesis
      by (cases "referencedNames needed pn = []")
         (simp_all add: groupNames_snoc Let_def update_conv' referencedNames_snoc newSet_snoc,
          simp add: newSet_def)
  qed
qed

lemma distinct_groupNames: "distinct (map fst (groupNames needed))"
  by (induction needed rule: rev_induct)
     (simp_all add: groupNames_snoc Let_def distinct_update, simp add: groupNames_def)

lemma mock_fold:
  fixes prev :: "NotionPropertyDef list"
  assumes "distinct (map fst byProp)"
  shows "fold (\<lambda>g prev. map (\<lambda>p. if prop_name p = fst g then p\<lparr>prop_options := Some (nxt g)\<rparr> else p) prev)
              byProp prev
         = map (\<lambda>p. case find (\<lambda>g. fst g = prop_name p) byProp of
                       None \<Rightarrow> p
                     | Some g \<Rightarrow> p\<lparr>prop_options := Some (nxt g)\<rparr>) prev"
  using assms
proof (induction byProp arbitrary: prev)
  case Nil
  then show ?case by simp
next
  case (Cons g gs)
  from Cons.prems have d: "distinct (map fst gs)" and g: "fst g \<notin> fst ` set gs" by auto
  from g have none: "find (\<lambda>g'. fst g' = fst g) gs = None"
    by (auto simp: find_None_iff image_iff)
  let ?step = "\<lambda>p. if prop_name p = fst g then p\<lparr>prop_options := Some (nxt g)\<rparr> else p"
  let ?F = "\<lambda>gs p. case find (\<lambda>g. fst g = prop_name p) gs of
                       None \<Rightarrow> p
                     | Some g \<Rightarrow> p\<lparr>prop_options := Some (nxt g)\<rparr>"
  have pt: "?F gs (?step p) = ?F (g # gs) p" for p :: NotionPropertyDef
  proof (cases "prop_name p = fst g")
    case True
    then show ?thesis by (simp add: none)
  next
    case False
    then have "fst g \<noteq> prop_name p" by simp
    with False show ?thesis by simp
  qed
  have "fold (\<lambda>g prev. map (\<lambda>p. if prop_name p = fst g then p\<lparr>prop_options := Some (nxt g)\<rparr> else p) prev)
              (g # gs) prev
        = map (?F gs) (map ?step prev)"
    by (simp add: Cons.IH[OF d])
  also have "\<dots> = map (?F (g # gs)) prev"
    by (simp only: map_map o_def pt)
  finally show ?case .
qed

lemma find_fst_map_of:
  "find (\<lambda>g. fst g = k) al = map_option (\<lambda>v. (k, v)) (map_of al k)"
  by (induction al) auto

lemma mockAddOptions_map:
  assumes "distinct (map fst byProp)"
  shows "mockAddOptions dps0 byProp =
     map (\<lambda>p. case map_of byProp (prop_name p) of
                 None \<Rightarrow> p
               | Some names \<Rightarrow>
                   p\<lparr>prop_options :=
                       Some (currentOptions (findDef dps0 (prop_name p))
                             @ map newOption
                                 (filter (\<lambda>nm. nm \<notin> set (map opt_name
                                            (currentOptions (findDef dps0 (prop_name p))))) names))\<rparr>)
         dps0"
proof -
  let ?nxt = "\<lambda>g. currentOptions (findDef dps0 (fst g))
                   @ map newOption
                       (filter (\<lambda>nm. nm \<notin> set (map opt_name (currentOptions (findDef dps0 (fst g)))))
                          (snd g))"
  have "mockAddOptions dps0 byProp =
          fold (\<lambda>g prev. map (\<lambda>p. if prop_name p = fst g then p\<lparr>prop_options := Some (?nxt g)\<rparr> else p) prev)
               byProp dps0"
    unfolding mockAddOptions_def Let_def by simp
  also have "\<dots> = map (\<lambda>p. case find (\<lambda>g. fst g = prop_name p) byProp of
                               None \<Rightarrow> p
                             | Some g \<Rightarrow> p\<lparr>prop_options := Some (?nxt g)\<rparr>) dps0"
    by (rule mock_fold[OF assms])
  also have "\<dots> = map (\<lambda>p. case map_of byProp (prop_name p) of
                 None \<Rightarrow> p
               | Some names \<Rightarrow>
                   p\<lparr>prop_options :=
                       Some (currentOptions (findDef dps0 (prop_name p))
                             @ map newOption
                                 (filter (\<lambda>nm. nm \<notin> set (map opt_name
                                            (currentOptions (findDef dps0 (prop_name p))))) names))\<rparr>)
         dps0"
    by (rule map_cong) (auto simp: find_fst_map_of split: option.splits)
  finally show ?thesis .
qed

lemma mock_result:
  "mockAddOptions dps (groupNames needed) =
     map (\<lambda>p. case findDef dps (prop_name p) of
                 None \<Rightarrow> p
               | Some d \<Rightarrow>
                   if referencedNames needed (prop_name p) = [] then p
                   else p\<lparr>prop_options := Some (patchedOptions d (referencedNames needed (prop_name p)))\<rparr>)
         dps"
proof -
  have "(case map_of (groupNames needed) (prop_name p) of
           None \<Rightarrow> p
         | Some names \<Rightarrow>
             p\<lparr>prop_options :=
                 Some (currentOptions (findDef dps (prop_name p))
                       @ map newOption
                           (filter (\<lambda>nm. nm \<notin> set (map opt_name
                                      (currentOptions (findDef dps (prop_name p))))) names))\<rparr>)
        = (case findDef dps (prop_name p) of
             None \<Rightarrow> p
           | Some d \<Rightarrow>
               if referencedNames needed (prop_name p) = [] then p
               else p\<lparr>prop_options := Some (patchedOptions d (referencedNames needed (prop_name p)))\<rparr>)"
    if "p \<in> set dps" for p
  proof -
    from that have "findDef dps (prop_name p) \<noteq> None"
      by (simp add: findDef_None)
    then obtain d where d: "findDef dps (prop_name p) = Some d" by blast
    show ?thesis
      by (simp add: d map_of_groupNames newSet_firstSeen patchedOptions_def missingNames_def)
  qed
  then show ?thesis
    by (simp add: mockAddOptions_map[OF distinct_groupNames] cong: map_cong)
qed

lemma ensureSelectOptions_payload:
  "ensureSelectOptions client needed st =
     (if buildUpdateProps (groupNeeded needed) = [] then Inr st
      else request client (DatabasesUpdate (buildUpdateProps (groupNeeded needed))) st)"
  by (cases needed) (simp_all add: ensureSelectOptions_def Let_def groupNeeded_def buildUpdateProps_def)

lemma ensureSelectOptions_v2_payload:
  "\<not> useMock st \<Longrightarrow>
   ensureSelectOptions_v2 client needed st =
     (if buildUpdateProps (groupNeeded needed) = [] then Inr st
      else request client (DatabasesUpdate (buildUpdateProps (groupNeeded needed))) st)"
  by (cases needed) (simp_all add: ensureSelectOptions_v2_def Let_def groupNeeded_def buildUpdateProps_def)

lemma ensureSelectOptions_v2_mock:
  "useMock st \<Longrightarrow>
   ensureSelectOptions_v2 client needed st =
     Inr (st\<lparr>dbProps := mockAddOptions (dbProps st) (groupNames needed)\<rparr>)"
proof (cases needed)
  case Nil
  have "mockAddOptions (dbProps st) (groupNames []) = dbProps st"
    by (simp add: mockAddOptions_def groupNames_def)
  with Nil show ?thesis by (simp add: ensureSelectOptions_v2_def)
next
  case (Cons n ns)
  assume "useMock st"
  with Cons show ?thesis by (simp add: ensureSelectOptions_v2_def)
qed

text \<open>
  C7. The option pre-pass of the executor, on the names that the plans reference. When
  every referenced name is already an option of its property, no request is made and the
  state is unchanged. A request carries the payload of \<^verbatim>\<open>ensureSelectOptions\<close>. The
  payload has one entry for each property of the schema with at least one missing name,
  and no other entry; the option list of an entry is the existing list of that property,
  in its order, followed by the missing names in first-seen order. (The payload is an
  object written by assignment, so that no entry can be named \<^verbatim>\<open>__proto__\<close>.) With
  the mock backend of the second version no request is made, and the local schema
  receives the same lists.
\<close>

theorem option_patch_appends_missing:
  "((\<forall>n \<in> set (collectNeeded (map_of (selectedDbPropDefs dps)) plans).
        snd n \<in> set (map opt_name (currentOptions (Some (fst n)))))
      \<longrightarrow> ensureSelectOptions client (collectNeeded (map_of (selectedDbPropDefs dps)) plans) st = Inr st)
   \<and> ensureSelectOptions client (collectNeeded (map_of (selectedDbPropDefs dps)) plans) st =
       (if buildUpdateProps (groupNeeded (collectNeeded (map_of (selectedDbPropDefs dps)) plans)) = []
        then Inr st
        else request client
               (DatabasesUpdate
                  (buildUpdateProps (groupNeeded (collectNeeded (map_of (selectedDbPropDefs dps)) plans))))
               st)
   \<and> (\<forall>pn ty opts.
         (pn, ty, opts) \<in> set (buildUpdateProps
                                 (groupNeeded (collectNeeded (map_of (selectedDbPropDefs dps)) plans)))
         \<longrightarrow> (\<exists>d. map_of (selectedDbPropDefs dps) pn = Some d \<and> ty = prop_type d
                  \<and> missingNames d (firstSeenOrder
                        (referencedNames (collectNeeded (map_of (selectedDbPropDefs dps)) plans) pn)) \<noteq> []
                  \<and> opts = patchedOptions d
                        (referencedNames (collectNeeded (map_of (selectedDbPropDefs dps)) plans) pn)))
   \<and> (\<forall>pn d.
         map_of (selectedDbPropDefs dps) pn = Some d \<and> pn \<noteq> ''__proto__''
         \<and> missingNames d (firstSeenOrder
               (referencedNames (collectNeeded (map_of (selectedDbPropDefs dps)) plans) pn)) \<noteq> []
         \<longrightarrow> (pn, prop_type d,
                patchedOptions d
                  (referencedNames (collectNeeded (map_of (selectedDbPropDefs dps)) plans) pn))
               \<in> set (buildUpdateProps
                         (groupNeeded (collectNeeded (map_of (selectedDbPropDefs dps)) plans))))
   \<and> distinct (map fst (buildUpdateProps
                           (groupNeeded (collectNeeded (map_of (selectedDbPropDefs dps)) plans))))
   \<and> ''__proto__'' \<notin> fst ` set (buildUpdateProps
                           (groupNeeded (collectNeeded (map_of (selectedDbPropDefs dps)) plans)))
   \<and> ((\<forall>n \<in> set (collectNeeded (findDef (dbProps st)) plans).
          snd n \<in> set (map opt_name (currentOptions (Some (fst n))))) \<and> \<not> useMock st
        \<longrightarrow> ensureSelectOptions_v2 client (collectNeeded (findDef (dbProps st)) plans) st = Inr st)
   \<and> (\<not> useMock st \<longrightarrow>
        ensureSelectOptions_v2 client (collectNeeded (findDef (dbProps st)) plans) st =
          (if buildUpdateProps (groupNeeded (collectNeeded (findDef (dbProps st)) plans)) = []
           then Inr st
           else request client
                  (DatabasesUpdate
                     (buildUpdateProps (groupNeeded (collectNeeded (findDef (dbProps st)) plans))))
                  st))
   \<and> (\<forall>pn ty opts.
         (pn, ty, opts) \<in> set (buildUpdateProps (groupNeeded (collectNeeded (findDef (dbProps st)) plans)))
         \<longrightarrow> (\<exists>d. findDef (dbProps st) pn = Some d \<and> ty = prop_type d
                  \<and> missingNames d (firstSeenOrder
                        (referencedNames (collectNeeded (findDef (dbProps st)) plans) pn)) \<noteq> []
                  \<and> opts = patchedOptions d
                        (referencedNames (collectNeeded (findDef (dbProps st)) plans) pn)))
   \<and> (\<forall>pn d.
         findDef (dbProps st) pn = Some d \<and> pn \<noteq> ''__proto__''
         \<and> missingNames d (firstSeenOrder
               (referencedNames (collectNeeded (findDef (dbProps st)) plans) pn)) \<noteq> []
         \<longrightarrow> (pn, prop_type d,
                patchedOptions d (referencedNames (collectNeeded (findDef (dbProps st)) plans) pn))
               \<in> set (buildUpdateProps (groupNeeded (collectNeeded (findDef (dbProps st)) plans))))
   \<and> distinct (map fst (buildUpdateProps (groupNeeded (collectNeeded (findDef (dbProps st)) plans))))
   \<and> ''__proto__'' \<notin> fst ` set (buildUpdateProps
                           (groupNeeded (collectNeeded (findDef (dbProps st)) plans)))
   \<and> (useMock st \<longrightarrow>
        ensureSelectOptions_v2 client (collectNeeded (findDef (dbProps st)) plans) st =
          Inr (st\<lparr>dbProps :=
                 map (\<lambda>p. case findDef (dbProps st) (prop_name p) of
                             None \<Rightarrow> p
                           | Some d \<Rightarrow>
                               if referencedNames (collectNeeded (findDef (dbProps st)) plans)
                                    (prop_name p) = []
                               then p
                               else p\<lparr>prop_options :=
                                        Some (patchedOptions d
                                               (referencedNames
                                                  (collectNeeded (findDef (dbProps st)) plans)
                                                  (prop_name p)))\<rparr>)
                     (dbProps st)\<rparr>))"
proof -
  let ?n1 = "collectNeeded (map_of (selectedDbPropDefs dps)) plans"
  let ?n2 = "collectNeeded (findDef (dbProps st)) plans"
  have c1: "\<forall>n \<in> set ?n1. map_of (selectedDbPropDefs dps) (prop_name (fst n)) = Some (fst n)"
    by (rule collectNeeded_cons) (simp add: selectedDbPropDefs_SomeD)
  have c2: "\<forall>n \<in> set ?n2. findDef (dbProps st) (prop_name (fst n)) = Some (fst n)"
    by (rule collectNeeded_cons) (simp add: findDef_SomeD)
  have a1: "ensureSelectOptions client ?n1 st = Inr st"
    if "\<forall>n \<in> set ?n1. snd n \<in> set (map opt_name (currentOptions (Some (fst n))))"
    using buildUpdateProps_empty[OF that c1] by (simp add: ensureSelectOptions_payload)
  have a2: "ensureSelectOptions_v2 client ?n2 st = Inr st"
    if "\<forall>n \<in> set ?n2. snd n \<in> set (map opt_name (currentOptions (Some (fst n))))" "\<not> useMock st"
    using buildUpdateProps_empty[OF that(1) c2] that(2) by (simp add: ensureSelectOptions_v2_payload)
  note b1 = ensureSelectOptions_payload[of client ?n1 st]
  note b2 = ensureSelectOptions_v2_payload[of st client ?n2]
  note e1 = payload_entry[OF c1]
  note e2 = payload_entry[OF c2]
  have f1: "(pn, prop_type d, patchedOptions d (referencedNames ?n1 pn))
              \<in> set (buildUpdateProps (groupNeeded ?n1))"
    if "map_of (selectedDbPropDefs dps) pn = Some d \<and> pn \<noteq> ''__proto__''
        \<and> missingNames d (firstSeenOrder (referencedNames ?n1 pn)) \<noteq> []" for pn d
    using that payload_complete[OF c1, of pn d] by blast
  have f2: "(pn, prop_type d, patchedOptions d (referencedNames ?n2 pn))
              \<in> set (buildUpdateProps (groupNeeded ?n2))"
    if "findDef (dbProps st) pn = Some d \<and> pn \<noteq> ''__proto__''
        \<and> missingNames d (firstSeenOrder (referencedNames ?n2 pn)) \<noteq> []" for pn d
    using that payload_complete[OF c2, of pn d] by blast
  note g1 = distinct_buildUpdateProps[of "groupNeeded ?n1"]
  note g2 = distinct_buildUpdateProps[of "groupNeeded ?n2"]
  have h1: "''__proto__'' \<notin> fst ` set (buildUpdateProps (groupNeeded ?n1))"
    using payload_no_proto[of _ "groupNeeded ?n1"] by force
  have h2: "''__proto__'' \<notin> fst ` set (buildUpdateProps (groupNeeded ?n2))"
    using payload_no_proto[of _ "groupNeeded ?n2"] by force
  have m: "ensureSelectOptions_v2 client ?n2 st =
          Inr (st\<lparr>dbProps :=
                 map (\<lambda>p. case findDef (dbProps st) (prop_name p) of
                             None \<Rightarrow> p
                           | Some d \<Rightarrow>
                               if referencedNames ?n2 (prop_name p) = [] then p
                               else p\<lparr>prop_options :=
                                        Some (patchedOptions d (referencedNames ?n2 (prop_name p)))\<rparr>)
                     (dbProps st)\<rparr>)"
    if "useMock st"
    using ensureSelectOptions_v2_mock[OF that, of client ?n2] by (simp only: mock_result)
  show ?thesis
  proof (intro conjI)
    show "(\<forall>n \<in> set ?n1. snd n \<in> set (map opt_name (currentOptions (Some (fst n)))))
            \<longrightarrow> ensureSelectOptions client ?n1 st = Inr st"
      using a1 by blast
    show "(\<forall>n \<in> set ?n2. snd n \<in> set (map opt_name (currentOptions (Some (fst n))))) \<and> \<not> useMock st
            \<longrightarrow> ensureSelectOptions_v2 client ?n2 st = Inr st"
      using a2 by blast
    show "\<forall>pn ty opts.
            (pn, ty, opts) \<in> set (buildUpdateProps (groupNeeded ?n1))
            \<longrightarrow> (\<exists>d. map_of (selectedDbPropDefs dps) pn = Some d \<and> ty = prop_type d
                     \<and> missingNames d (firstSeenOrder (referencedNames ?n1 pn)) \<noteq> []
                     \<and> opts = patchedOptions d (referencedNames ?n1 pn))"
      using e1 by blast
    show "\<forall>pn ty opts.
            (pn, ty, opts) \<in> set (buildUpdateProps (groupNeeded ?n2))
            \<longrightarrow> (\<exists>d. findDef (dbProps st) pn = Some d \<and> ty = prop_type d
                     \<and> missingNames d (firstSeenOrder (referencedNames ?n2 pn)) \<noteq> []
                     \<and> opts = patchedOptions d (referencedNames ?n2 pn))"
      using e2 by blast
    show "\<forall>pn d.
            map_of (selectedDbPropDefs dps) pn = Some d \<and> pn \<noteq> ''__proto__''
            \<and> missingNames d (firstSeenOrder (referencedNames ?n1 pn)) \<noteq> []
            \<longrightarrow> (pn, prop_type d, patchedOptions d (referencedNames ?n1 pn))
                  \<in> set (buildUpdateProps (groupNeeded ?n1))"
      by (intro allI impI) (erule f1)
    show "\<forall>pn d.
            findDef (dbProps st) pn = Some d \<and> pn \<noteq> ''__proto__''
            \<and> missingNames d (firstSeenOrder (referencedNames ?n2 pn)) \<noteq> []
            \<longrightarrow> (pn, prop_type d, patchedOptions d (referencedNames ?n2 pn))
                  \<in> set (buildUpdateProps (groupNeeded ?n2))"
      by (intro allI impI) (erule f2)
    show "\<not> useMock st \<longrightarrow>
            ensureSelectOptions_v2 client ?n2 st =
              (if buildUpdateProps (groupNeeded ?n2) = [] then Inr st
               else request client (DatabasesUpdate (buildUpdateProps (groupNeeded ?n2))) st)"
      using b2 by blast
    show "useMock st \<longrightarrow>
        ensureSelectOptions_v2 client ?n2 st =
          Inr (st\<lparr>dbProps :=
                 map (\<lambda>p. case findDef (dbProps st) (prop_name p) of
                             None \<Rightarrow> p
                           | Some d \<Rightarrow>
                               if referencedNames ?n2 (prop_name p) = [] then p
                               else p\<lparr>prop_options :=
                                        Some (patchedOptions d (referencedNames ?n2 (prop_name p)))\<rparr>)
                     (dbProps st)\<rparr>)"
      using m by blast
  qed (rule b1 g1 g2 h1 h2)+
qed

theorem option_patch_appends_missing_witness:
  "ensureSelectOptions acceptAll (collectNeeded (map_of (selectedDbPropDefs mockDbProps)) knownPlans)
      (mockApp\<lparr>useMock := False\<rparr>) = Inr (mockApp\<lparr>useMock := False\<rparr>)
   \<and> buildUpdateProps (groupNeeded (collectNeeded (map_of (selectedDbPropDefs mockDbProps)) tagPlans))
       = tagPatch
   \<and> ensureSelectOptions acceptAll (collectNeeded (map_of (selectedDbPropDefs mockDbProps)) tagPlans)
        (mockApp\<lparr>useMock := False\<rparr>)
       = request acceptAll (DatabasesUpdate tagPatch) (mockApp\<lparr>useMock := False\<rparr>)
   \<and> (\<exists>d. map_of (selectedDbPropDefs mockDbProps) ''Tags'' = Some d
          \<and> [newOption ''red'', newOption ''blue'', newOption ''green'', newOption ''zz'']
              = patchedOptions d
                  (referencedNames (collectNeeded (map_of (selectedDbPropDefs mockDbProps)) tagPlans)
                     ''Tags''))
   \<and> ensureSelectOptions_v2 acceptAll (collectNeeded (findDef (dbProps mockApp)) knownPlans) mockApp
       = Inr mockApp
   \<and> (''Status'', ''select'', [newOption ''New'', newOption ''Done'', newOption ''Open''])
        \<in> set (buildUpdateProps
                  (groupNeeded (collectNeeded (map_of (selectedDbPropDefs mockDbProps)) tagPlans)))
   \<and> referencedNames (collectNeeded (map_of (selectedDbPropDefs stageDbProps)) stagePlans) ''Stage''
       = [''Doing'', ''Todo'']
   \<and> (''Stage'', ''status'', [newOption ''Todo'', newOption ''Doing''])
        \<in> set (buildUpdateProps
                  (groupNeeded (collectNeeded (map_of (selectedDbPropDefs stageDbProps)) stagePlans)))
   \<and> buildUpdateProps (groupNeeded (collectNeeded (map_of (selectedDbPropDefs stageDbProps)) stagePlans))
       = stagePatch
   \<and> ensureSelectOptions_v2 acceptAll
        (collectNeeded (findDef (dbProps (mockApp\<lparr>useMock := False\<rparr>))) tagPlans)
        (mockApp\<lparr>useMock := False\<rparr>)
       = request acceptAll (DatabasesUpdate tagPatch) (mockApp\<lparr>useMock := False\<rparr>)"
proof -
  let ?st = "mockApp\<lparr>useMock := False\<rparr>"
  let ?defs = "map_of (selectedDbPropDefs mockDbProps)"
  let ?sdefs = "map_of (selectedDbPropDefs stageDbProps)"
  let ?stage = "\<lparr>prop_name = ''Stage'', prop_type = ''status'', prop_options = Some [newOption ''Todo'']\<rparr>"
  let ?status = "\<lparr>prop_name = ''Status'', prop_type = ''select'',
                   prop_options = Some [newOption ''New'', newOption ''Done'']\<rparr>"
  note t1 = option_patch_appends_missing
              [where dps = mockDbProps and plans = knownPlans and client = acceptAll and st = ?st]
  note t2 = option_patch_appends_missing
              [where dps = mockDbProps and plans = tagPlans and client = acceptAll and st = ?st]
  note t3 = option_patch_appends_missing
              [where dps = mockDbProps and plans = knownPlans and client = acceptAll and st = mockApp]
  note t4 = option_patch_appends_missing
              [where dps = stageDbProps and plans = stagePlans and client = acceptAll and st = ?st]
  have known: "collectNeeded ?defs knownPlans
                 = [(\<lparr>prop_name = ''Tags'', prop_type = ''multi_select'',
                      prop_options = Some [newOption ''red'', newOption ''blue'']\<rparr>, ''blue'')]"
    by code_simp
  have ex: "\<forall>n \<in> set (collectNeeded ?defs knownPlans).
              snd n \<in> set (map opt_name (currentOptions (Some (fst n))))"
    unfolding known by (simp add: currentOptions_def newOption_def)
  from t1 ex have a: "ensureSelectOptions acceptAll (collectNeeded ?defs knownPlans) ?st = Inr ?st"
    by blast
  have p: "buildUpdateProps (groupNeeded (collectNeeded ?defs tagPlans)) = tagPatch"
    by code_simp
  have ne: "tagPatch \<noteq> []" by (simp add: tagPatch_def)
  from t2 have "ensureSelectOptions acceptAll (collectNeeded ?defs tagPlans) ?st =
       (if buildUpdateProps (groupNeeded (collectNeeded ?defs tagPlans)) = []
        then Inr ?st
        else request acceptAll
               (DatabasesUpdate (buildUpdateProps (groupNeeded (collectNeeded ?defs tagPlans)))) ?st)"
    by blast
  with p ne have b: "ensureSelectOptions acceptAll (collectNeeded ?defs tagPlans) ?st
                       = request acceptAll (DatabasesUpdate tagPatch) ?st"
    by simp
  have mem: "(''Tags'', ''multi_select'',
              [newOption ''red'', newOption ''blue'', newOption ''green'', newOption ''zz''])
               \<in> set (buildUpdateProps (groupNeeded (collectNeeded ?defs tagPlans)))"
    unfolding p by (simp add: tagPatch_def)
  from t2 mem have c: "\<exists>d. ?defs ''Tags'' = Some d
          \<and> [newOption ''red'', newOption ''blue'', newOption ''green'', newOption ''zz'']
              = patchedOptions d (referencedNames (collectNeeded ?defs tagPlans) ''Tags'')"
    by blast
  have mock: "useMock mockApp" by (simp add: mockApp_def)
  have dbp: "dbProps mockApp = mockDbProps" by (simp add: mockApp_def)
  have known2: "collectNeeded (findDef (dbProps mockApp)) knownPlans
                 = [(\<lparr>prop_name = ''Tags'', prop_type = ''multi_select'',
                      prop_options = Some [newOption ''red'', newOption ''blue'']\<rparr>, ''blue'')]"
    by code_simp
  have same: "map (\<lambda>p. case findDef (dbProps mockApp) (prop_name p) of
                             None \<Rightarrow> p
                           | Some d \<Rightarrow>
                               if referencedNames (collectNeeded (findDef (dbProps mockApp)) knownPlans)
                                    (prop_name p) = []
                               then p
                               else p\<lparr>prop_options :=
                                        Some (patchedOptions d
                                               (referencedNames
                                                  (collectNeeded (findDef (dbProps mockApp)) knownPlans)
                                                  (prop_name p)))\<rparr>)
                     (dbProps mockApp) = dbProps mockApp"
    unfolding known2 dbp by code_simp
  from t3 mock have "ensureSelectOptions_v2 acceptAll (collectNeeded (findDef (dbProps mockApp)) knownPlans) mockApp =
          Inr (mockApp\<lparr>dbProps :=
                 map (\<lambda>p. case findDef (dbProps mockApp) (prop_name p) of
                             None \<Rightarrow> p
                           | Some d \<Rightarrow>
                               if referencedNames (collectNeeded (findDef (dbProps mockApp)) knownPlans)
                                    (prop_name p) = []
                               then p
                               else p\<lparr>prop_options :=
                                        Some (patchedOptions d
                                               (referencedNames
                                                  (collectNeeded (findDef (dbProps mockApp)) knownPlans)
                                                  (prop_name p)))\<rparr>)
                     (dbProps mockApp)\<rparr>)"
    by blast
  then have d: "ensureSelectOptions_v2 acceptAll (collectNeeded (findDef (dbProps mockApp)) knownPlans) mockApp
                  = Inr mockApp"
    unfolding same by simp
  have sd: "?defs ''Status'' = Some ?status" by code_simp
  have sr: "referencedNames (collectNeeded ?defs tagPlans) ''Status'' = [''Open'']" by code_simp
  have sm: "missingNames ?status (firstSeenOrder [''Open'']) \<noteq> []" by code_simp
  have sp: "patchedOptions ?status [''Open''] = [newOption ''New'', newOption ''Done'', newOption ''Open'']"
    by code_simp
  have snp: "''Status'' \<noteq> ''__proto__''" by simp
  have sm': "missingNames ?status
                (firstSeenOrder (referencedNames (collectNeeded ?defs tagPlans) ''Status'')) \<noteq> []"
    unfolding sr by (rule sm)
  from t2 sd snp sm'
  have "(''Status'', prop_type ?status,
         patchedOptions ?status (referencedNames (collectNeeded ?defs tagPlans) ''Status''))
          \<in> set (buildUpdateProps (groupNeeded (collectNeeded ?defs tagPlans)))"
    by blast
  then have e: "(''Status'', ''select'', [newOption ''New'', newOption ''Done'', newOption ''Open''])
                  \<in> set (buildUpdateProps (groupNeeded (collectNeeded ?defs tagPlans)))"
    by (simp only: sr sp NotionPropertyDef.simps)
  have gd: "?sdefs ''Stage'' = Some ?stage" by code_simp
  have gr: "referencedNames (collectNeeded ?sdefs stagePlans) ''Stage'' = [''Doing'', ''Todo'']"
    by code_simp
  have gm: "missingNames ?stage (firstSeenOrder [''Doing'', ''Todo'']) \<noteq> []" by code_simp
  have gp: "patchedOptions ?stage [''Doing'', ''Todo''] = [newOption ''Todo'', newOption ''Doing'']"
    by code_simp
  have gnp: "''Stage'' \<noteq> ''__proto__''" by simp
  have gm': "missingNames ?stage
                (firstSeenOrder (referencedNames (collectNeeded ?sdefs stagePlans) ''Stage'')) \<noteq> []"
    unfolding gr by (rule gm)
  from t4 gd gnp gm'
  have "(''Stage'', prop_type ?stage,
         patchedOptions ?stage (referencedNames (collectNeeded ?sdefs stagePlans) ''Stage''))
          \<in> set (buildUpdateProps (groupNeeded (collectNeeded ?sdefs stagePlans)))"
    by blast
  then have f: "(''Stage'', ''status'', [newOption ''Todo'', newOption ''Doing''])
                  \<in> set (buildUpdateProps (groupNeeded (collectNeeded ?sdefs stagePlans)))"
    by (simp only: gr gp NotionPropertyDef.simps)
  have g: "buildUpdateProps (groupNeeded (collectNeeded ?sdefs stagePlans)) = stagePatch"
    by code_simp
  have real: "\<not> useMock ?st" by simp
  have dbp2: "dbProps ?st = mockDbProps" by (simp add: mockApp_def)
  have p2: "buildUpdateProps (groupNeeded (collectNeeded (findDef mockDbProps) tagPlans)) = tagPatch"
    by code_simp
  from t2 real have "ensureSelectOptions_v2 acceptAll (collectNeeded (findDef (dbProps ?st)) tagPlans) ?st =
          (if buildUpdateProps (groupNeeded (collectNeeded (findDef (dbProps ?st)) tagPlans)) = []
           then Inr ?st
           else request acceptAll
                  (DatabasesUpdate
                     (buildUpdateProps (groupNeeded (collectNeeded (findDef (dbProps ?st)) tagPlans))))
                  ?st)"
    by blast
  with p2 ne have h: "ensureSelectOptions_v2 acceptAll (collectNeeded (findDef (dbProps ?st)) tagPlans) ?st
                       = request acceptAll (DatabasesUpdate tagPatch) ?st"
    by (simp only: dbp2 if_False)
  show ?thesis
    by (intro conjI) (rule a p b c d e gr f g h)+
qed

section \<open>Properties of the plan executor\<close>

lemma runPlan_Inr:
  "runPlan eng client tp n plan (d, st) = Inr (d', st') \<Longrightarrow>
     d' = d + 1 \<and> progress st' = round ((of_nat d' / of_nat n) * (100 :: rat))"
  by (auto simp: runPlan_def Let_def split: Plan.splits sum.splits prod.splits)

lemma runPlan_skip:
  "isSkip plan \<Longrightarrow>
     runPlan eng client tp n plan (d, st) =
       Inr (d + 1, st\<lparr>progress := round ((of_nat (d + 1) / of_nat n) * (100 :: rat))\<rparr>)"
  by (cases plan) (simp_all add: runPlan_def)

lemma loop_counts:
  "pMapSerial (runPlan eng client tp n) plans (d, st) = Inr (d', st') \<Longrightarrow>
     d' = d + length plans
     \<and> (plans \<noteq> [] \<longrightarrow> progress st' = round ((of_nat d' / of_nat n) * (100 :: rat)))"
proof (induction plans arbitrary: d st)
  case Nil
  then show ?case by simp
next
  case (Cons plan plans)
  from Cons.prems obtain d1 st1 where
    step: "runPlan eng client tp n plan (d, st) = Inr (d1, st1)"
    and rest: "pMapSerial (runPlan eng client tp n) plans (d1, st1) = Inr (d', st')"
    by (auto split: sum.splits)
  from runPlan_Inr[OF step] have d1: "d1 = d + 1"
    and p1: "progress st1 = round ((of_nat d1 / of_nat n) * (100 :: rat))" by simp_all
  from Cons.IH[OF rest] have d': "d' = d1 + length plans"
    and p': "plans \<noteq> [] \<longrightarrow> progress st' = round ((of_nat d' / of_nat n) * (100 :: rat))"
    by simp_all
  show ?case
  proof (cases "plans = []")
    case True
    with rest have "d' = d1" "st' = st1" by simp_all
    with d1 p1 True show ?thesis by simp
  next
    case False
    with d' d1 p' show ?thesis by simp
  qed
qed

lemma loop_all_skips:
  "\<forall>p \<in> set plans. isSkip p \<Longrightarrow>
     pMapSerial (runPlan eng client tp n) plans (d, st) =
       Inr (d + length plans,
            if plans = [] then st
            else st\<lparr>progress := round ((of_nat (d + length plans) / of_nat n) * (100 :: rat))\<rparr>)"
proof (induction plans arbitrary: d st)
  case Nil
  then show ?case by simp
next
  case (Cons plan plans)
  then have skip: "isSkip plan" and rest: "\<forall>p \<in> set plans. isSkip p" by simp_all
  let ?st1 = "st\<lparr>progress := round ((of_nat (d + 1) / of_nat n) * (100 :: rat))\<rparr>"
  have unfold: "pMapSerial (runPlan eng client tp n) (plan # plans) (d, st)
                  = pMapSerial (runPlan eng client tp n) plans (d + 1, ?st1)"
    by (simp only: pMapSerial.simps runPlan_skip[OF skip] sum.case)
  show ?case
  proof (cases "plans = []")
    case True
    with unfold show ?thesis by simp
  next
    case False
    have "d + 1 + length plans = d + length (plan # plans)" by simp
    with Cons.IH[OF rest, of "d + 1" ?st1] False unfold show ?thesis
      by (simp only: if_False list.distinct) simp
  qed
qed

lemma full_progress: "n > 0 \<Longrightarrow> round ((of_nat n / of_nat n) * (100 :: rat)) = 100"
  by simp

lemma neededOfPlan_skip: "isSkip p \<Longrightarrow> neededOfPlan defOf p = []"
  by (cases p) (simp_all add: neededOfPlan_def)

lemma collectNeeded_skips: "\<forall>p \<in> set plans. isSkip p \<Longrightarrow> collectNeeded defOf plans = []"
  by (induction plans) (simp_all add: collectNeeded_def neededOfPlan_skip)

lemma onExecute_done:
  assumes plans: "dryRun st = Some plans"
      and guard: "notionToken st \<noteq> []" "databaseId st \<noteq> []"
      and fin: "runStatus (snd (onExecute eng client st)) = Done"
  shows "fst (onExecute eng client st) = length plans
       \<and> (plans \<noteq> [] \<longrightarrow> progress (snd (onExecute eng client st)) = 100)"
proof -
  let ?st0 = "st\<lparr>runStatus := Running, runError := None, progress := 0\<rparr>"
  let ?pre = "if createMissingSelectOptions ?st0
              then ensureSelectOptions client
                     (collectNeeded (map_of (selectedDbPropDefs (dbProps ?st0))) plans) ?st0
              else Inr ?st0"
  let ?fn = "runPlan eng client (titlePropName (dbProps ?st0)) (length plans)"
  show ?thesis
  proof (cases ?pre)
    case (Inl e)
    with plans guard fin show ?thesis
      by (simp add: onExecute_def Let_def failRun_def split: prod.splits)
  next
    case pre: (Inr st1)
    show ?thesis
    proof (cases "pMapSerial ?fn plans (0, st1)")
      case (Inl e)
      with plans guard fin pre show ?thesis
        by (simp add: onExecute_def Let_def failRun_def split: prod.splits)
    next
      case (Inr r)
      obtain d st2 where r: "r = (d, st2)" by (cases r)
      from Inr r have "pMapSerial ?fn plans (0, st1) = Inr (d, st2)" by simp
      note lc = loop_counts[OF this]
      from lc have dl: "d = length plans" by simp
      from lc
      have pr: "plans \<noteq> [] \<longrightarrow> progress st2 = round ((of_nat d / of_nat (length plans)) * (100 :: rat))"
        by (rule conjunct2)
      have "plans \<noteq> [] \<longrightarrow> progress st2 = 100"
      proof
        assume "plans \<noteq> []"
        then have "length plans > 0" by simp
        from pr \<open>plans \<noteq> []\<close>
        have "progress st2 = round ((of_nat d / of_nat (length plans)) * (100 :: rat))"
          by blast
        with full_progress[OF \<open>length plans > 0\<close>] dl show "progress st2 = 100"
          by simp
      qed
      note this dl
      with plans guard pre Inr r show ?thesis
        by (simp add: onExecute_def Let_def)
    qed
  qed
qed

lemma onExecute_v2_done:
  assumes plans: "dryRun st = Some plans"
      and guard: "databaseId st \<noteq> []"
      and fin: "runStatus (snd (onExecute_v2 eng client st)) = Done"
  shows "fst (onExecute_v2 eng client st) = length plans
       \<and> (plans \<noteq> [] \<longrightarrow> progress (snd (onExecute_v2 eng client st)) = 100)"
proof -
  let ?st0 = "st\<lparr>runStatus := Running, runError := None, progress := 0\<rparr>"
  let ?pre = "if createMissingSelectOptions ?st0
              then ensureSelectOptions_v2 client (collectNeeded (findDef (dbProps ?st0)) plans) ?st0
              else Inr ?st0"
  let ?fn = "runPlan eng client (titlePropName (dbProps ?st0)) (length plans)"
  show ?thesis
  proof (cases ?pre)
    case (Inl e)
    with plans guard fin show ?thesis
      by (simp add: onExecute_v2_def Let_def failRun_def split: prod.splits)
  next
    case pre: (Inr st1)
    show ?thesis
    proof (cases "pMapSerial ?fn plans (0, st1)")
      case (Inl e)
      with plans guard fin pre show ?thesis
        by (simp add: onExecute_v2_def Let_def failRun_def split: prod.splits)
    next
      case (Inr r)
      obtain d st2 where r: "r = (d, st2)" by (cases r)
      from Inr r have "pMapSerial ?fn plans (0, st1) = Inr (d, st2)" by simp
      note lc = loop_counts[OF this]
      from lc have dl: "d = length plans" by simp
      from lc
      have pr: "plans \<noteq> [] \<longrightarrow> progress st2 = round ((of_nat d / of_nat (length plans)) * (100 :: rat))"
        by (rule conjunct2)
      have "plans \<noteq> [] \<longrightarrow> progress st2 = 100"
      proof
        assume "plans \<noteq> []"
        then have "length plans > 0" by simp
        from pr \<open>plans \<noteq> []\<close>
        have "progress st2 = round ((of_nat d / of_nat (length plans)) * (100 :: rat))"
          by blast
        with full_progress[OF \<open>length plans > 0\<close>] dl show "progress st2 = 100"
          by simp
      qed
      note this dl
      with plans guard pre Inr r show ?thesis
        by (cases "query client (store st2)") (simp_all add: onExecute_v2_def Let_def failRun_def)
    qed
  qed
qed

lemma onExecute_skips:
  assumes skips: "\<forall>p \<in> set plans. isSkip p" and ne: "plans \<noteq> []"
      and plans: "dryRun st = Some plans"
      and guard: "notionToken st \<noteq> []" "databaseId st \<noteq> []"
  shows "onExecute eng client st
           = (length plans, st\<lparr>runStatus := Done, runError := None, progress := 100\<rparr>)"
proof -
  let ?st0 = "st\<lparr>runStatus := Running, runError := None, progress := 0\<rparr>"
  have pre: "ensureSelectOptions client (collectNeeded defOf plans) ?st0 = Inr ?st0" for defOf
    by (simp add: collectNeeded_skips[OF skips] ensureSelectOptions_def)
  from ne have n: "length plans > 0" by simp
  have loop: "pMapSerial (runPlan eng client tp (length plans)) plans (0, ?st0)
                = Inr (length plans, ?st0\<lparr>progress := 100\<rparr>)" for tp
    using loop_all_skips[OF skips, of eng client tp "length plans" 0 ?st0] ne full_progress[OF n]
    by (simp only: add_0 if_False)
  from plans guard show ?thesis
    by (simp add: onExecute_def Let_def pre loop)
qed

lemma onExecute_v2_skips:
  assumes skips: "\<forall>p \<in> set plans. isSkip p" and ne: "plans \<noteq> []"
      and plans: "dryRun st = Some plans"
      and guard: "databaseId st \<noteq> []"
  shows "fst (onExecute_v2 eng client st) = length plans
       \<and> progress (snd (onExecute_v2 eng client st)) = 100
       \<and> sent (snd (onExecute_v2 eng client st)) = sent st"
proof -
  let ?st0 = "st\<lparr>runStatus := Running, runError := None, progress := 0\<rparr>"
  have pre: "ensureSelectOptions_v2 client (collectNeeded defOf plans) ?st0 = Inr ?st0" for defOf
    by (simp add: collectNeeded_skips[OF skips] ensureSelectOptions_v2_def)
  from ne have n: "length plans > 0" by simp
  have loop: "pMapSerial (runPlan eng client tp (length plans)) plans (0, ?st0)
                = Inr (length plans, ?st0\<lparr>progress := 100\<rparr>)" for tp
    using loop_all_skips[OF skips, of eng client tp "length plans" 0 ?st0] ne full_progress[OF n]
    by (simp only: add_0 if_False)
  from plans guard show ?thesis
    by (cases "query client (store st)") (simp_all add: onExecute_v2_def Let_def pre loop failRun_def)
qed

text \<open>
  C10. The counter \<open>done\<close> grows by one for every plan, skips included: a loop that ends
  normally has counted all plans, and for a non-empty plan sequence the progress it
  reports last is 100. A sequence of skips ends normally without any request, so
  \<^verbatim>\<open>onExecute\<close> of either version ends with the count of all plans and progress 100.
\<close>

theorem progress_reaches_100:
  "(\<forall>d st'. pMapSerial (runPlan eng client tp (length plans)) plans (0, st) = Inr (d, st')
       \<longrightarrow> d = length plans \<and> (plans \<noteq> [] \<longrightarrow> progress st' = 100))
   \<and> ((\<forall>p \<in> set plans. isSkip p) \<and> plans \<noteq> []
       \<longrightarrow> pMapSerial (runPlan eng client tp (length plans)) plans (0, st)
             = Inr (length plans, st\<lparr>progress := 100\<rparr>))
   \<and> ((\<forall>p \<in> set plans. isSkip p) \<and> plans \<noteq> [] \<and> dryRun st = Some plans
        \<and> notionToken st \<noteq> [] \<and> databaseId st \<noteq> []
       \<longrightarrow> onExecute eng client st
             = (length plans, st\<lparr>runStatus := Done, runError := None, progress := 100\<rparr>))
   \<and> ((\<forall>p \<in> set plans. isSkip p) \<and> plans \<noteq> [] \<and> dryRun st = Some plans \<and> databaseId st \<noteq> []
       \<longrightarrow> fst (onExecute_v2 eng client st) = length plans
           \<and> progress (snd (onExecute_v2 eng client st)) = 100
           \<and> sent (snd (onExecute_v2 eng client st)) = sent st)
   \<and> (dryRun st = Some plans \<and> notionToken st \<noteq> [] \<and> databaseId st \<noteq> []
        \<and> runStatus (snd (onExecute eng client st)) = Done
       \<longrightarrow> fst (onExecute eng client st) = length plans
           \<and> (plans \<noteq> [] \<longrightarrow> progress (snd (onExecute eng client st)) = 100))
   \<and> (dryRun st = Some plans \<and> databaseId st \<noteq> []
        \<and> runStatus (snd (onExecute_v2 eng client st)) = Done
       \<longrightarrow> fst (onExecute_v2 eng client st) = length plans
           \<and> (plans \<noteq> [] \<longrightarrow> progress (snd (onExecute_v2 eng client st)) = 100))"
proof -
  have a: "d = length plans \<and> (plans \<noteq> [] \<longrightarrow> progress st' = 100)"
    if loop: "pMapSerial (runPlan eng client tp (length plans)) plans (0, st) = Inr (d, st')"
    for d st'
  proof -
    note lc = loop_counts[OF loop]
    from lc have dl: "d = length plans" by simp
    have "progress st' = 100" if ne: "plans \<noteq> []"
    proof -
      from lc ne
      have "progress st' = round ((of_nat d / of_nat (length plans)) * (100 :: rat))"
        by blast
      moreover from ne have "length plans > 0" by simp
      ultimately show ?thesis using dl full_progress by simp
    qed
    with dl show ?thesis by blast
  qed
  have b: "pMapSerial (runPlan eng client tp (length plans)) plans (0, st)
             = Inr (length plans, st\<lparr>progress := 100\<rparr>)"
    if skips: "\<forall>p \<in> set plans. isSkip p" and ne: "plans \<noteq> []"
  proof -
    from ne have n: "length plans > 0" by simp
    from loop_all_skips[OF skips, of eng client tp "length plans" 0 st] ne full_progress[OF n]
    show ?thesis by (simp only: add_0 if_False)
  qed
  note c = onExecute_skips[of plans st eng client]
  note d = onExecute_v2_skips[of plans st eng client]
  note e = onExecute_done[of st plans eng client]
  note f = onExecute_v2_done[of st plans eng client]
  show ?thesis
    by (intro conjI allI impI) (use a b c d e f in blast)+
qed

theorem progress_reaches_100_witness:
  "onExecute plainEngine acceptAll (mockApp\<lparr>dryRun := Some skipPlans\<rparr>)
     = (2, mockApp\<lparr>dryRun := Some skipPlans, runStatus := Done, runError := None, progress := 100\<rparr>)
   \<and> sent (snd (onExecute plainEngine acceptAll (mockApp\<lparr>dryRun := Some skipPlans\<rparr>))) = []
   \<and> fst (onExecute_v2 plainEngine acceptAll (mockApp\<lparr>dryRun := Some skipPlans\<rparr>)) = 2
   \<and> progress (snd (onExecute_v2 plainEngine acceptAll (mockApp\<lparr>dryRun := Some skipPlans\<rparr>))) = 100
   \<and> sent (snd (onExecute_v2 plainEngine acceptAll (mockApp\<lparr>dryRun := Some skipPlans\<rparr>))) = []
   \<and> (\<exists>st'. pMapSerial (runPlan plainEngine acceptAll (Some ''Key'') (length tagPlans)) tagPlans (0, mockApp)
               = Inr (2, st') \<and> progress st' = 100 \<and> length (sent st') = 2)"
proof -
  let ?st = "mockApp\<lparr>dryRun := Some skipPlans\<rparr>"
  note t = progress_reaches_100
             [where eng = plainEngine and client = acceptAll and plans = skipPlans and st = ?st]
  have skips: "\<forall>p \<in> set skipPlans. isSkip p" by (simp add: skipPlans_def)
  have ne: "skipPlans \<noteq> []" by (simp add: skipPlans_def)
  have len: "length skipPlans = 2" by (simp add: skipPlans_def)
  have dr: "dryRun ?st = Some skipPlans" by simp
  have tok: "notionToken ?st \<noteq> []" and db: "databaseId ?st \<noteq> []"
    by (simp_all add: mockApp_def)
  have s0: "sent ?st = []" by (simp add: mockApp_def)
  from t skips ne dr tok db
  have "onExecute plainEngine acceptAll ?st
          = (length skipPlans, ?st\<lparr>runStatus := Done, runError := None, progress := 100\<rparr>)"
    by blast
  with len have a: "onExecute plainEngine acceptAll ?st
          = (2, mockApp\<lparr>dryRun := Some skipPlans, runStatus := Done, runError := None, progress := 100\<rparr>)"
    by simp
  from a s0 have a': "sent (snd (onExecute plainEngine acceptAll ?st)) = []" by simp
  from t skips ne dr db
  have "fst (onExecute_v2 plainEngine acceptAll ?st) = length skipPlans
      \<and> progress (snd (onExecute_v2 plainEngine acceptAll ?st)) = 100
      \<and> sent (snd (onExecute_v2 plainEngine acceptAll ?st)) = sent ?st"
    by blast
  with len s0 have b: "fst (onExecute_v2 plainEngine acceptAll ?st) = 2"
    and c: "progress (snd (onExecute_v2 plainEngine acceptAll ?st)) = 100"
    and d: "sent (snd (onExecute_v2 plainEngine acceptAll ?st)) = []"
    by simp_all
  have run: "pMapSerial (runPlan plainEngine acceptAll (Some ''Key'') 2) tagPlans (0, mockApp)
               = Inr (2, mockApp\<lparr>progress := 100,
                       sent := [PagesUpdate ''p1''
                                  [(''Tags'', JObj [(''multi_select'', JArr [nameObj ''red'', nameObj ''green''])]),
                                   (''Status'', JObj [(''select'', nameObj ''Open'')])],
                                PagesCreate
                                  (createProperties plainEngine (Some ''Key'') ''X999''
                                     [(''Tags'', JObj [(''multi_select'',
                                         JArr [nameObj ''zz'', nameObj ''green'', nameObj ''blue''])])])]\<rparr>)"
    by (simp add: tagPlans_def runPlan_def request_def acceptAll_def mockApp_def mockPage1_def)
  have len2: "length tagPlans = 2" by (simp add: tagPlans_def)
  from run len2 obtain st' where
    r: "pMapSerial (runPlan plainEngine acceptAll (Some ''Key'') (length tagPlans)) tagPlans (0, mockApp)
          = Inr (2, st')" and s: "length (sent st') = 2"
    by simp
  from progress_reaches_100
         [where eng = plainEngine and client = acceptAll and plans = tagPlans and st = mockApp
            and tp = "Some ''Key''"] r
  have "tagPlans \<noteq> [] \<longrightarrow> progress st' = 100" by blast
  moreover have "tagPlans \<noteq> []" by (simp add: tagPlans_def)
  ultimately have p: "progress st' = 100" by blast
  from r p s have e: "\<exists>st'. pMapSerial (runPlan plainEngine acceptAll (Some ''Key'') (length tagPlans)) tagPlans (0, mockApp)
               = Inr (2, st') \<and> progress st' = 100 \<and> length (sent st') = 2"
    by blast
  show ?thesis
    by (intro conjI) (rule a a' b c d e)+
qed

section \<open>Encoding followed by decoding\<close>

lemma intercalate_map_JStr:
  "intercalate sep (map (\<lambda>x. if nullish x then [] else jsString eng x) (map JStr names))
     = intercalate sep names"
  by (induction sep names rule: intercalate.induct) simp_all

lemma decode_names:
  "getNotionPropertyPlainValue eng
      (JObj [(''type'', JStr ''multi_select''), (''multi_select'', JArr (map nameObj names))])
     = Inr (JStr (intercalate '', '' (filter (\<lambda>s. s \<noteq> []) names)))"
proof -
  have m: "map (\<lambda>x. js_get x ''name'') (map nameObj names) = map JStr names"
    by (induction names) (simp_all add: nameObj_def)
  have f: "filter truthy (map JStr names) = map JStr (filter (\<lambda>s. s \<noteq> []) names)"
    by (induction names) simp_all
  show ?thesis
    by (simp add: getNotionPropertyPlainValue_def Let_def m f jsJoin_def intercalate_map_JStr
             del: map_map)
qed

lemma encode_untagged:
  assumes "buildNotionPropertyValue eng t v csv \<noteq> JUndefined"
  shows "js_get (buildNotionPropertyValue eng t v csv) ''type'' = JUndefined
       \<and> js_get (buildNotionPropertyValue eng t v csv) ''undefined'' = JUndefined"
  using assms
  by (auto simp: buildNotionPropertyValue_def Let_def split: if_splits jsval.splits option.splits)

lemma encode_nullish:
  "v = JUndefined \<or> v = JNull \<Longrightarrow> buildNotionPropertyValue eng t v csv = JUndefined"
  by (simp add: buildNotionPropertyValue_def)

lemma encode_defined:
  assumes "buildNotionPropertyValue eng t v csv \<noteq> JUndefined"
  shows "v \<noteq> JUndefined" and "v \<noteq> JNull"
  using assms encode_nullish[of v eng t csv] by blast+

lemma encode_number:
  "v \<noteq> JUndefined \<Longrightarrow> v \<noteq> JNull \<Longrightarrow>
     buildNotionPropertyValue eng ''number'' v csv =
       (if isFinite (jsNumber eng v) then JObj [(''number'', JNum (jsNumber eng v))] else JUndefined)"
  by (simp add: buildNotionPropertyValue_def Let_def)

lemma decode_tagged_number:
  "getNotionPropertyPlainValue eng (JObj [(''type'', JStr ''number''), (''number'', JNum n)]) = Inr (JNum n)"
  by (simp add: getNotionPropertyPlainValue_def Let_def)

lemma roundtrip_number:
  assumes "buildNotionPropertyValue eng ''number'' v csv \<noteq> JUndefined"
  shows "getNotionPropertyPlainValue eng (tagged ''number'' (buildNotionPropertyValue eng ''number'' v csv))
           = Inr (JNum (jsNumber eng v))"
proof -
  note e = encode_number[OF encode_defined[OF assms], of eng csv]
  with assms have "buildNotionPropertyValue eng ''number'' v csv = JObj [(''number'', JNum (jsNumber eng v))]"
    by (cases "isFinite (jsNumber eng v)") simp_all
  then show ?thesis
    by (simp only: tagged_def jsval.case decode_tagged_number)
qed


lemma decode_tagged:
  assumes "enc = JObj [(t, x)]"
      and "getNotionPropertyPlainValue eng (JObj [(''type'', JStr t), (t, x)]) = r"
  shows "getNotionPropertyPlainValue eng (tagged t enc) = r"
  by (simp only: assms tagged_def jsval.case)

lemma encode_email:
  "v \<noteq> JUndefined \<Longrightarrow> v \<noteq> JNull \<Longrightarrow>
     buildNotionPropertyValue eng ''email'' v csv = JObj [(''email'', JStr (jsString eng v))]"
  by (simp add: buildNotionPropertyValue_def)

lemma decode_tagged_email:
  "getNotionPropertyPlainValue eng (JObj [(''type'', JStr ''email''), (''email'', JStr s)]) = Inr (JStr s)"
  by (simp add: getNotionPropertyPlainValue_def Let_def orElse_def)

lemma encode_url:
  "v \<noteq> JUndefined \<Longrightarrow> v \<noteq> JNull \<Longrightarrow>
     buildNotionPropertyValue eng ''url'' v csv = JObj [(''url'', JStr (jsString eng v))]"
  by (simp add: buildNotionPropertyValue_def)

lemma decode_tagged_url:
  "getNotionPropertyPlainValue eng (JObj [(''type'', JStr ''url''), (''url'', JStr s)]) = Inr (JStr s)"
  by (simp add: getNotionPropertyPlainValue_def Let_def orElse_def)

lemma encode_phone:
  "v \<noteq> JUndefined \<Longrightarrow> v \<noteq> JNull \<Longrightarrow>
     buildNotionPropertyValue eng ''phone_number'' v csv = JObj [(''phone_number'', JStr (jsString eng v))]"
  by (simp add: buildNotionPropertyValue_def)

lemma decode_tagged_phone:
  "getNotionPropertyPlainValue eng (JObj [(''type'', JStr ''phone_number''), (''phone_number'', JStr s)]) = Inr (JStr s)"
  by (simp add: getNotionPropertyPlainValue_def Let_def orElse_def)

lemma encode_status:
  "v \<noteq> JUndefined \<Longrightarrow> v \<noteq> JNull \<Longrightarrow>
     buildNotionPropertyValue eng ''status'' v csv = JObj [(''status'', nameObj (jsString eng v))]"
  by (simp add: buildNotionPropertyValue_def)

lemma decode_tagged_status:
  "getNotionPropertyPlainValue eng (JObj [(''type'', JStr ''status''), (''status'', nameObj s)]) = Inr (JStr s)"
  by (simp add: getNotionPropertyPlainValue_def Let_def orElse_def nameObj_def)

lemma decode_tagged_select:
  "getNotionPropertyPlainValue eng (JObj [(''type'', JStr ''select''), (''select'', nameObj s)]) = Inr (JStr s)"
  by (simp add: getNotionPropertyPlainValue_def Let_def orElse_def nameObj_def)

lemma decode_tagged_select_null:
  "getNotionPropertyPlainValue eng (JObj [(''type'', JStr ''select''), (''select'', JNull)]) = Inr (JNull)"
  by (simp add: getNotionPropertyPlainValue_def Let_def orElse_def)

lemma encode_title:
  "v \<noteq> JUndefined \<Longrightarrow> v \<noteq> JNull \<Longrightarrow>
     buildNotionPropertyValue eng ''title'' v csv = JObj [(''title'', JArr [textRun (jsString eng v)])]"
  by (simp add: buildNotionPropertyValue_def)

lemma decode_tagged_title:
  "getNotionPropertyPlainValue eng (JObj [(''type'', JStr ''title''), (''title'', JArr [textRun s])]) = Inr (JStr [])"
  by (simp add: getNotionPropertyPlainValue_def Let_def orElse_def textRun_def)

lemma encode_rich_text:
  "v \<noteq> JUndefined \<Longrightarrow> v \<noteq> JNull \<Longrightarrow>
     buildNotionPropertyValue eng ''rich_text'' v csv = JObj [(''rich_text'', JArr [textRun (jsString eng v)])]"
  by (simp add: buildNotionPropertyValue_def)

lemma decode_tagged_rich_text:
  "getNotionPropertyPlainValue eng (JObj [(''type'', JStr ''rich_text''), (''rich_text'', JArr [textRun s])]) = Inr (JStr [])"
  by (simp add: getNotionPropertyPlainValue_def Let_def orElse_def textRun_def)

lemma roundtrip_plain:
  assumes t: "t = ''email'' \<or> t = ''url'' \<or> t = ''phone_number'' \<or> t = ''status''"
      and d: "buildNotionPropertyValue eng t v csv \<noteq> JUndefined"
  shows "getNotionPropertyPlainValue eng (tagged t (buildNotionPropertyValue eng t v csv))
           = Inr (JStr (jsString eng v))"
proof -
  note v = encode_defined[OF d]
  from t consider (a) "t = ''email''" | (b) "t = ''url''" | (c) "t = ''phone_number''" | (e) "t = ''status''"
    by blast
  then show ?thesis
  proof cases
    case a
    show ?thesis unfolding a by (rule decode_tagged[OF encode_email[OF v] decode_tagged_email])
  next
    case b
    show ?thesis unfolding b by (rule decode_tagged[OF encode_url[OF v] decode_tagged_url])
  next
    case c
    show ?thesis unfolding c by (rule decode_tagged[OF encode_phone[OF v] decode_tagged_phone])
  next
    case e
    show ?thesis unfolding e by (rule decode_tagged[OF encode_status[OF v] decode_tagged_status])
  qed
qed

lemma roundtrip_text:
  assumes t: "t = ''title'' \<or> t = ''rich_text''"
      and d: "buildNotionPropertyValue eng t v csv \<noteq> JUndefined"
  shows "getNotionPropertyPlainValue eng (tagged t (buildNotionPropertyValue eng t v csv)) = Inr (JStr [])"
proof -
  note v = encode_defined[OF d]
  from t show ?thesis
  proof
    assume a: "t = ''title''"
    show ?thesis unfolding a by (rule decode_tagged[OF encode_title[OF v] decode_tagged_title])
  next
    assume b: "t = ''rich_text''"
    show ?thesis unfolding b by (rule decode_tagged[OF encode_rich_text[OF v] decode_tagged_rich_text])
  qed
qed

lemma encode_select:
  "v \<noteq> JUndefined \<Longrightarrow> v \<noteq> JNull \<Longrightarrow>
     buildNotionPropertyValue eng ''select'' v csv =
       JObj [(''select'', if v = JStr [] then JNull else nameObj (jsString eng v))]"
  by (cases v) (simp_all add: buildNotionPropertyValue_def)

lemma roundtrip_select:
  assumes d: "buildNotionPropertyValue eng ''select'' v csv \<noteq> JUndefined"
  shows "getNotionPropertyPlainValue eng (tagged ''select'' (buildNotionPropertyValue eng ''select'' v csv))
           = Inr (if v = JStr [] then JNull else JStr (jsString eng v))"
proof (cases "v = JStr []")
  case True
  with encode_select[OF encode_defined[OF d], of eng csv]
  have e: "buildNotionPropertyValue eng ''select'' v csv = JObj [(''select'', JNull)]" by simp
  from decode_tagged[OF e decode_tagged_select_null] True show ?thesis by simp
next
  case False
  with encode_select[OF encode_defined[OF d], of eng csv]
  have e: "buildNotionPropertyValue eng ''select'' v csv = JObj [(''select'', nameObj (jsString eng v))]"
    by simp
  from decode_tagged[OF e decode_tagged_select] False show ?thesis by simp
qed

lemma encode_multi_names:
  assumes "v \<noteq> JUndefined" and "v \<noteq> JNull"
  shows "\<exists>names. buildNotionPropertyValue eng ''multi_select'' v csv
                    = JObj [(''multi_select'', JArr (map nameObj names))]"
proof (cases v)
  case (JArr xs)
  have "buildNotionPropertyValue eng ''multi_select'' v csv
          = JObj [(''multi_select'', JArr (map nameObj (map (jsString eng) xs)))]"
    using JArr by (simp add: buildNotionPropertyValue_def)
  then show ?thesis by blast
next
  case (JStr s)
  have "buildNotionPropertyValue eng ''multi_select'' v csv
          = JObj [(''multi_select'',
                   JArr (map nameObj (if csv then filter (\<lambda>seg. seg \<noteq> []) (splitCsv [] s) else [])))]"
    using JStr by (simp add: buildNotionPropertyValue_def)
  then show ?thesis by blast
next
  case (JBool b)
  have "buildNotionPropertyValue eng ''multi_select'' v csv = JObj [(''multi_select'', JArr (map nameObj []))]"
    using JBool by (simp add: buildNotionPropertyValue_def)
  then show ?thesis by blast
next
  case (JNum n)
  have "buildNotionPropertyValue eng ''multi_select'' v csv = JObj [(''multi_select'', JArr (map nameObj []))]"
    using JNum by (simp add: buildNotionPropertyValue_def)
  then show ?thesis by blast
next
  case (JObj kvs)
  have "buildNotionPropertyValue eng ''multi_select'' v csv = JObj [(''multi_select'', JArr (map nameObj []))]"
    using JObj by (simp add: buildNotionPropertyValue_def)
  then show ?thesis by blast
qed (use assms in simp_all)

lemma roundtrip_multi:
  assumes "buildNotionPropertyValue eng ''multi_select'' v csv = JObj [(''multi_select'', JArr (map nameObj names))]"
  shows "getNotionPropertyPlainValue eng (tagged ''multi_select'' (buildNotionPropertyValue eng ''multi_select'' v csv))
           = Inr (JStr (intercalate '', '' (filter (\<lambda>s. s \<noteq> []) names)))"
  by (rule decode_tagged[OF assms decode_names])

lemma encode_date:
  "v \<noteq> JUndefined \<Longrightarrow> v \<noteq> JNull \<Longrightarrow>
     buildNotionPropertyValue eng ''date'' v csv =
       (case dateISO eng v of Some d \<Rightarrow> JObj [(''date'', JObj [(''start'', JStr d)])] | None \<Rightarrow> JUndefined)"
  by (simp add: buildNotionPropertyValue_def)

lemma decode_tagged_date:
  "getNotionPropertyPlainValue eng (JObj [(''type'', JStr ''date''), (''date'', JObj [(''start'', JStr d)])])
     = Inr (JStr d)"
  by (simp add: getNotionPropertyPlainValue_def Let_def orElse_def)

lemma roundtrip_date:
  assumes d: "buildNotionPropertyValue eng ''date'' v csv \<noteq> JUndefined"
  shows "\<exists>d. dateISO eng v = Some d
            \<and> getNotionPropertyPlainValue eng (tagged ''date'' (buildNotionPropertyValue eng ''date'' v csv))
                = Inr (JStr d)"
proof (cases "dateISO eng v")
  case None
  with encode_date[OF encode_defined[OF d], of eng csv] d show ?thesis by simp
next
  case (Some iso)
  with encode_date[OF encode_defined[OF d], of eng csv]
  have e: "buildNotionPropertyValue eng ''date'' v csv = JObj [(''date'', JObj [(''start'', JStr iso)])]"
    by simp
  from decode_tagged[OF e decode_tagged_date] Some show ?thesis by blast
qed

lemma encode_checkbox:
  "v \<noteq> JUndefined \<Longrightarrow> v \<noteq> JNull \<Longrightarrow>
     buildNotionPropertyValue eng ''checkbox'' v csv =
       (if v \<in> set truthyValues then JObj [(''checkbox'', JBool True)]
        else if v \<in> set falsyValues then JObj [(''checkbox'', JBool False)]
        else JUndefined)"
  by (simp add: buildNotionPropertyValue_def)

lemma decode_tagged_checkbox:
  "getNotionPropertyPlainValue eng (JObj [(''type'', JStr ''checkbox''), (''checkbox'', JBool b)])
     = Inr (JStr (if b then ''true'' else ''false''))"
  by (simp add: getNotionPropertyPlainValue_def Let_def)

lemma roundtrip_checkbox:
  assumes d: "buildNotionPropertyValue eng ''checkbox'' v csv \<noteq> JUndefined"
  shows "getNotionPropertyPlainValue eng (tagged ''checkbox'' (buildNotionPropertyValue eng ''checkbox'' v csv))
           = Inr (JStr (if v \<in> set truthyValues then ''true'' else ''false''))"
proof -
  note enc = encode_checkbox[OF encode_defined[OF d], of eng csv]
  show ?thesis
  proof (cases "v \<in> set truthyValues")
    case True
    from enc have e: "buildNotionPropertyValue eng ''checkbox'' v csv = JObj [(''checkbox'', JBool True)]"
      by (simp only: True if_True)
    from decode_tagged[OF e decode_tagged_checkbox] show ?thesis
      by (simp only: True if_True)
  next
    case False
    have fv: "v \<in> set falsyValues"
    proof (rule ccontr)
      assume "v \<notin> set falsyValues"
      with enc False have "buildNotionPropertyValue eng ''checkbox'' v csv = JUndefined"
        by (simp only: if_False)
      with d show False by contradiction
    qed
    from enc have e: "buildNotionPropertyValue eng ''checkbox'' v csv = JObj [(''checkbox'', JBool False)]"
      by (simp only: False fv if_True if_False)
    from decode_tagged[OF e decode_tagged_checkbox] show ?thesis
      by (simp only: False if_False)
  qed
qed

lemma decode_untagged:
  assumes "buildNotionPropertyValue eng t v csv \<noteq> JUndefined"
  shows "getNotionPropertyPlainValue eng (buildNotionPropertyValue eng t v csv) = Inr JNull"
  using encode_untagged[OF assms]
  by (simp add: getNotionPropertyPlainValue_def Let_def)

text \<open>
  C6 (amended). The encoder writes no type tag, so the decoder applied to a value the
  encoder has just produced returns null, whatever the target type. On the encoded value
  with its type tag, the decoder returns: for number, the number \<^verbatim>\<open>Number(value)\<close>;
  for email, url, phone_number and status, the string \<^verbatim>\<open>String(value)\<close>; for select,
  that string, or null when the value is the empty string; for multi_select, the encoded
  option names without the empty ones, joined by a comma and a space; for date, the date
  the encoder wrote; for checkbox, the string true or false; and for title and rich_text
  the empty string, since the encoder writes \<^verbatim>\<open>text.content\<close> and the decoder reads
  \<^verbatim>\<open>plain_text\<close>.
\<close>

theorem decode_of_encode:
  assumes "buildNotionPropertyValue eng t v csv \<noteq> JUndefined"
  shows "getNotionPropertyPlainValue eng (buildNotionPropertyValue eng t v csv) = Inr JNull
       \<and> (t = ''number'' \<longrightarrow>
            getNotionPropertyPlainValue eng (tagged t (buildNotionPropertyValue eng t v csv))
              = Inr (JNum (jsNumber eng v)))
       \<and> (t = ''email'' \<or> t = ''url'' \<or> t = ''phone_number'' \<or> t = ''status'' \<longrightarrow>
            getNotionPropertyPlainValue eng (tagged t (buildNotionPropertyValue eng t v csv))
              = Inr (JStr (jsString eng v)))
       \<and> (t = ''select'' \<longrightarrow>
            getNotionPropertyPlainValue eng (tagged t (buildNotionPropertyValue eng t v csv))
              = Inr (if v = JStr [] then JNull else JStr (jsString eng v)))
       \<and> (t = ''multi_select'' \<longrightarrow>
            (\<exists>names. buildNotionPropertyValue eng t v csv = JObj [(''multi_select'', JArr (map nameObj names))]
               \<and> getNotionPropertyPlainValue eng (tagged t (buildNotionPropertyValue eng t v csv))
                   = Inr (JStr (intercalate '', '' (filter (\<lambda>s. s \<noteq> []) names)))))
       \<and> (t = ''date'' \<longrightarrow>
            (\<exists>d. dateISO eng v = Some d
               \<and> getNotionPropertyPlainValue eng (tagged t (buildNotionPropertyValue eng t v csv))
                   = Inr (JStr d)))
       \<and> (t = ''checkbox'' \<longrightarrow>
            getNotionPropertyPlainValue eng (tagged t (buildNotionPropertyValue eng t v csv))
              = Inr (JStr (if v \<in> set truthyValues then ''true'' else ''false'')))
       \<and> (t = ''title'' \<or> t = ''rich_text'' \<longrightarrow>
            getNotionPropertyPlainValue eng (tagged t (buildNotionPropertyValue eng t v csv))
              = Inr (JStr []))"
proof (intro conjI impI)
  show "getNotionPropertyPlainValue eng (buildNotionPropertyValue eng t v csv) = Inr JNull"
    using assms by (rule decode_untagged)
next
  assume t: "t = ''number''"
  from assms show "getNotionPropertyPlainValue eng (tagged t (buildNotionPropertyValue eng t v csv))
              = Inr (JNum (jsNumber eng v))"
    unfolding t by (rule roundtrip_number)
next
  assume "t = ''email'' \<or> t = ''url'' \<or> t = ''phone_number'' \<or> t = ''status''"
  then show "getNotionPropertyPlainValue eng (tagged t (buildNotionPropertyValue eng t v csv))
              = Inr (JStr (jsString eng v))"
    using assms by (rule roundtrip_plain)
next
  assume t: "t = ''select''"
  from assms show "getNotionPropertyPlainValue eng (tagged t (buildNotionPropertyValue eng t v csv))
              = Inr (if v = JStr [] then JNull else JStr (jsString eng v))"
    unfolding t by (rule roundtrip_select)
next
  assume t: "t = ''multi_select''"
  from encode_multi_names[OF encode_defined[OF assms], of eng csv] obtain names where
    n: "buildNotionPropertyValue eng ''multi_select'' v csv = JObj [(''multi_select'', JArr (map nameObj names))]"
    by blast
  from n roundtrip_multi[OF n]
  show "\<exists>names. buildNotionPropertyValue eng t v csv = JObj [(''multi_select'', JArr (map nameObj names))]
               \<and> getNotionPropertyPlainValue eng (tagged t (buildNotionPropertyValue eng t v csv))
                   = Inr (JStr (intercalate '', '' (filter (\<lambda>s. s \<noteq> []) names)))"
    unfolding t by blast
next
  assume t: "t = ''date''"
  from assms show "\<exists>d. dateISO eng v = Some d
               \<and> getNotionPropertyPlainValue eng (tagged t (buildNotionPropertyValue eng t v csv))
                   = Inr (JStr d)"
    unfolding t by (rule roundtrip_date)
next
  assume t: "t = ''checkbox''"
  from assms show "getNotionPropertyPlainValue eng (tagged t (buildNotionPropertyValue eng t v csv))
              = Inr (JStr (if v \<in> set truthyValues then ''true'' else ''false''))"
    unfolding t by (rule roundtrip_checkbox)
next
  assume "t = ''title'' \<or> t = ''rich_text''"
  then show "getNotionPropertyPlainValue eng (tagged t (buildNotionPropertyValue eng t v csv))
              = Inr (JStr [])"
    using assms by (rule roundtrip_text)
qed

theorem decode_of_encode_witness:
  "buildNotionPropertyValue plainEngine ''number'' (JNum (Fin 42)) True = JObj [(''number'', JNum (Fin 42))]
   \<and> getNotionPropertyPlainValue plainEngine
        (buildNotionPropertyValue plainEngine ''number'' (JNum (Fin 42)) True) = Inr JNull
   \<and> getNotionPropertyPlainValue plainEngine
        (tagged ''number'' (buildNotionPropertyValue plainEngine ''number'' (JNum (Fin 42)) True))
       = Inr (JNum (Fin 42))
   \<and> buildNotionPropertyValue plainEngine ''title'' (JStr ''A001'') True
       = JObj [(''title'', JArr [textRun ''A001''])]
   \<and> getNotionPropertyPlainValue plainEngine
        (tagged ''title'' (buildNotionPropertyValue plainEngine ''title'' (JStr ''A001'') True))
       = Inr (JStr [])"
proof -
  have e1: "buildNotionPropertyValue plainEngine ''number'' (JNum (Fin 42)) True
              = JObj [(''number'', JNum (Fin 42))]"
    by (simp add: buildNotionPropertyValue_def isFinite_def)
  then have d1: "buildNotionPropertyValue plainEngine ''number'' (JNum (Fin 42)) True \<noteq> JUndefined"
    by simp
  have e2: "buildNotionPropertyValue plainEngine ''title'' (JStr ''A001'') True
              = JObj [(''title'', JArr [textRun ''A001''])]"
    by (simp add: buildNotionPropertyValue_def)
  then have d2: "buildNotionPropertyValue plainEngine ''title'' (JStr ''A001'') True \<noteq> JUndefined"
    by simp
  note t1 = decode_of_encode[OF d1]
  note t2 = decode_of_encode[OF d2]
  from t1 have a: "getNotionPropertyPlainValue plainEngine
        (buildNotionPropertyValue plainEngine ''number'' (JNum (Fin 42)) True) = Inr JNull"
    by (rule conjunct1)
  from t1[THEN conjunct2, THEN conjunct1, THEN mp, OF refl]
  have b: "getNotionPropertyPlainValue plainEngine
        (tagged ''number'' (buildNotionPropertyValue plainEngine ''number'' (JNum (Fin 42)) True))
       = Inr (JNum (Fin 42))"
    by (simp only: jsNumber.simps)
  have c: "getNotionPropertyPlainValue plainEngine
        (tagged ''title'' (buildNotionPropertyValue plainEngine ''title'' (JStr ''A001'') True))
       = Inr (JStr [])"
    by (rule t2[THEN conjunct2, THEN conjunct2, THEN conjunct2, THEN conjunct2, THEN conjunct2,
                THEN conjunct2, THEN conjunct2, THEN mp, OF disjI1, OF refl])
  show ?thesis
    by (intro conjI) (rule e1 a b e2 c)+
qed

text \<open>
  The number 42 is encoded as \<^verbatim>\<open>{ number: 42 }\<close>, and the decoder returns null for this
  value: it finds no \<^verbatim>\<open>type\<close> field.
\<close>

theorem decode_of_encode_counterexample:
  "buildNotionPropertyValue plainEngine ''number'' (JNum (Fin 42)) True = JObj [(''number'', JNum (Fin 42))]
   \<and> getNotionPropertyPlainValue plainEngine
        (buildNotionPropertyValue plainEngine ''number'' (JNum (Fin 42)) True) = Inr JNull
   \<and> getNotionPropertyPlainValue plainEngine
        (buildNotionPropertyValue plainEngine ''number'' (JNum (Fin 42)) True) \<noteq> Inr (JNum (Fin 42))"
  by (simp add: buildNotionPropertyValue_def isFinite_def getNotionPropertyPlainValue_def Let_def)

end
